(* ===== verification/Go_Prelude.thy ===== *)
theory Go_Prelude
  imports Main "HOL-Library.Multiset"
begin

text \<open>
  What every component of the development shares: Go's error values, the three ways a Go call
  ends (a value, an error, a panic), the sequencing of calls that \<^verbatim>\<open>if err != nil\<close> writes, the
  \<^verbatim>\<open>for\<close> loops with an early return, the unspecified iteration order of maps, 64-bit signed
  arithmetic and decimal printing, with the lemmas that carry the proofs of the components.
\<close>

named_theorems ok_iff \<open>a sequence of calls returned a value iff each call did\<close>
named_theorems go_run \<open>unfolding of the sequencing combinators on a state\<close>
named_theorems keeps_intro \<open>an operation keeps a relation between its start and end state\<close>

section \<open>Error values\<close>

text \<open>
  The system errors the program can tell apart (\<^verbatim>\<open>os.IsNotExist\<close> looks for \<open>ENOENT\<close>), and the
  other failures of a system call, which it cannot.
\<close>

datatype fault = EACCES | EIO | ENOSPC | EROFS

datatype errno = ENOENT | ENOTDIR | EISDIR | Fault fault

text \<open>
  \<open>ErrMsg s\<close> is \<^verbatim>\<open>fmt.Errorf(s)\<close> without a wrapped error (or an error of another package, by its
  text), \<open>Wrapf c e\<close> is \<^verbatim>\<open>fmt.Errorf(c + ": %w", e)\<close>, and \<open>PathError op p n\<close> is the error of
  package \<^verbatim>\<open>os\<close>.
\<close>

datatype goerr = ErrMsg string | Wrapf string goerr | PathError string string errno

fun fault_text :: "fault \<Rightarrow> string" where
  "fault_text EACCES = ''permission denied''"
| "fault_text EIO = ''input/output error''"
| "fault_text ENOSPC = ''no space left on device''"
| "fault_text EROFS = ''read-only file system''"

fun errno_text :: "errno \<Rightarrow> string" where
  "errno_text ENOENT = ''no such file or directory''"
| "errno_text ENOTDIR = ''not a directory''"
| "errno_text EISDIR = ''is a directory''"
| "errno_text (Fault f) = fault_text f"

text \<open>The text of \<^verbatim>\<open>err.Error()\<close>.\<close>

fun err_text :: "goerr \<Rightarrow> string" where
  "err_text (ErrMsg s) = s"
| "err_text (Wrapf c e) = c @ '': '' @ err_text e"
| "err_text (PathError op p n) = op @ '' '' @ p @ '': '' @ errno_text n"

text \<open>\<^verbatim>\<open>os.IsNotExist\<close>: it looks through \<^verbatim>\<open>*PathError\<close> only, not through \<^verbatim>\<open>%w\<close>.\<close>

fun is_not_exist :: "goerr \<Rightarrow> bool" where
  "is_not_exist (PathError _ _ n) = (n = ENOENT)"
| "is_not_exist _ = False"

section \<open>The result of a call\<close>

datatype 'a outcome = Ok 'a | Err goerr | Panic string

type_synonym ('s, 'a) run = "'s \<Rightarrow> 'a outcome \<times> 's"

definition ret :: "'a \<Rightarrow> ('s, 'a) run" where
  "ret x = (\<lambda>s. (Ok x, s))"

definition fail :: "goerr \<Rightarrow> ('s, 'a) run" where
  "fail e = (\<lambda>s. (Err e, s))"

definition panic :: "string \<Rightarrow> ('s, 'a) run" where
  "panic m = (\<lambda>s. (Panic m, s))"

text \<open>
  \<open>bindE m h k\<close> is \<^verbatim>\<open>x, err := m(); if err != nil { h(err) } else { k(x) }\<close>; a panic unwinds
  through both.
\<close>

definition bindE :: "('s, 'a) run \<Rightarrow> (goerr \<Rightarrow> ('s, 'b) run) \<Rightarrow> ('a \<Rightarrow> ('s, 'b) run) \<Rightarrow> ('s, 'b) run" where
  "bindE m h k = (\<lambda>s. case m s of
      (Ok x, s') \<Rightarrow> k x s'
    | (Err e, s') \<Rightarrow> h e s'
    | (Panic p, s') \<Rightarrow> (Panic p, s'))"

text \<open>\<^verbatim>\<open>if err != nil { return err }\<close> before the rest, and the same with the error wrapped.\<close>

definition seqE :: "('s, 'a) run \<Rightarrow> ('a \<Rightarrow> ('s, 'b) run) \<Rightarrow> ('s, 'b) run" where
  "seqE m k = bindE m fail k"

definition wrapE :: "string \<Rightarrow> ('s, 'a) run \<Rightarrow> ('s, 'a) run" where
  "wrapE c m = bindE m (\<lambda>e. fail (Wrapf c e)) ret"

text \<open>The call's error as a value, for callers that keep going.\<close>

definition catchE :: "('s, 'a) run \<Rightarrow> ('s, goerr + 'a) run" where
  "catchE m = bindE m (\<lambda>e. ret (Inl e)) (\<lambda>x. ret (Inr x))"

lemma ret_run [simp, go_run]: "ret x s = (Ok x, s)"
  by (simp add: ret_def)

lemma fail_run [simp, go_run]: "fail e s = (Err e, s)"
  by (simp add: fail_def)

lemma panic_run [simp, go_run]: "panic m s = (Panic m, s)"
  by (simp add: panic_def)

lemma bindE_run [go_run]:
  "bindE m h k s = (case m s of (Ok x, s') \<Rightarrow> k x s' | (Err e, s') \<Rightarrow> h e s' | (Panic p, s') \<Rightarrow> (Panic p, s'))"
  by (simp add: bindE_def)

lemma seqE_run [go_run]:
  "seqE m k s = (case m s of (Ok x, s') \<Rightarrow> k x s' | (Err e, s') \<Rightarrow> (Err e, s') | (Panic p, s') \<Rightarrow> (Panic p, s'))"
  by (simp add: seqE_def bindE_def split: prod.splits outcome.splits)

lemma wrapE_run [go_run]:
  "wrapE c m s = (case m s of (Ok x, s') \<Rightarrow> (Ok x, s') | (Err e, s') \<Rightarrow> (Err (Wrapf c e), s') | (Panic p, s') \<Rightarrow> (Panic p, s'))"
  by (simp add: wrapE_def bindE_def split: prod.splits outcome.splits)

lemma catchE_run [go_run]:
  "catchE m s = (case m s of (Ok x, s') \<Rightarrow> (Ok (Inr x), s') | (Err e, s') \<Rightarrow> (Ok (Inl e), s') | (Panic p, s') \<Rightarrow> (Panic p, s'))"
  by (simp add: catchE_def bindE_def split: prod.splits outcome.splits)

lemma ret_ok_iff [ok_iff]: "ret x s = (Ok y, s') \<longleftrightarrow> y = x \<and> s' = s"
  by auto

lemma fail_ok_iff [ok_iff]: "fail e s = (Ok y, s') \<longleftrightarrow> False"
  by auto

lemma panic_ok_iff [ok_iff]: "panic p s = (Ok y, s') \<longleftrightarrow> False"
  by auto

lemma seqE_ok_iff [ok_iff]:
  "seqE m k s = (Ok y, s'') \<longleftrightarrow> (\<exists>x s'. m s = (Ok x, s') \<and> k x s' = (Ok y, s''))"
  by (auto simp: seqE_run split: prod.splits outcome.splits)

lemma wrapE_ok_iff [ok_iff]: "wrapE c m s = (Ok y, s') \<longleftrightarrow> m s = (Ok y, s')"
  by (auto simp: wrapE_run split: prod.splits outcome.splits)

lemma bindE_ok_iff [ok_iff]:
  "bindE m h k s = (Ok y, s'') \<longleftrightarrow>
     (\<exists>x s'. m s = (Ok x, s') \<and> k x s' = (Ok y, s'')) \<or>
     (\<exists>e s'. m s = (Err e, s') \<and> h e s' = (Ok y, s''))"
  by (auto simp: bindE_run split: prod.splits outcome.splits)

lemma catchE_ok_iff [ok_iff]:
  "catchE m s = (Ok y, s') \<longleftrightarrow>
     (\<exists>x. y = Inr x \<and> m s = (Ok x, s')) \<or> (\<exists>e. y = Inl e \<and> m s = (Err e, s'))"
  by (auto simp: catchE_run split: prod.splits outcome.splits)

lemma case_sum_ok_iff [ok_iff]:
  "(case x of Inl e \<Rightarrow> f e | Inr y \<Rightarrow> g y) s = (Ok z, s') \<longleftrightarrow>
     (\<exists>e. x = Inl e \<and> f e s = (Ok z, s')) \<or> (\<exists>y. x = Inr y \<and> g y s = (Ok z, s'))"
  by (cases x) auto

lemma case_option_ok_iff [ok_iff]:
  "(case x of None \<Rightarrow> f | Some y \<Rightarrow> g y) s = (Ok z, s') \<longleftrightarrow>
     (x = None \<and> f s = (Ok z, s')) \<or> (\<exists>y. x = Some y \<and> g y s = (Ok z, s'))"
  by (cases x) auto

lemma seqE_okI: "m s = (Ok x, s') \<Longrightarrow> k x s' = r \<Longrightarrow> seqE m k s = r"
  by (simp add: seqE_run)

lemma seqE_errI: "m s = (Err e, s') \<Longrightarrow> seqE m k s = (Err e, s')"
  by (simp add: seqE_run)

lemma wrapE_okI: "m s = (Ok x, s') \<Longrightarrow> wrapE c m s = (Ok x, s')"
  by (simp add: wrapE_run)

section \<open>Loops with an early return\<close>

text \<open>\<^verbatim>\<open>for _, x := range xs { if err := f(x); err != nil { return err } }\<close>\<close>

primrec for_each :: "('x \<Rightarrow> ('s, unit) run) \<Rightarrow> 'x list \<Rightarrow> ('s, unit) run" where
  "for_each f [] = ret ()"
| "for_each f (x # xs) = seqE (f x) (\<lambda>_. for_each f xs)"

text \<open>The same loop when its body also updates local variables \<open>acc\<close>.\<close>

primrec fold_go :: "('acc \<Rightarrow> 'x \<Rightarrow> ('s, 'acc) run) \<Rightarrow> 'acc \<Rightarrow> 'x list \<Rightarrow> ('s, 'acc) run" where
  "fold_go f acc [] = ret acc"
| "fold_go f acc (x # xs) = seqE (f acc x) (\<lambda>acc'. fold_go f acc' xs)"

lemma for_each_append:
  "for_each f (xs @ ys) = seqE (for_each f xs) (\<lambda>_. for_each f ys)"
proof (rule ext, induction xs)
  case Nil
  show ?case by (simp add: seqE_run)
next
  case (Cons x xs)
  show ?case
    by (auto simp: seqE_run Cons.IH split: prod.splits outcome.splits)
qed

text \<open>
  A loop that returned normally ran every body: what the body establishes for its element and
  keeps for the earlier ones holds for all of them at the end.
\<close>

lemma for_each_okD:
  assumes run: "for_each f xs s = (Ok u, s')" and start: "I s"
    and step: "\<And>x t t'. x \<in> set xs \<Longrightarrow> I t \<Longrightarrow> f x t = (Ok (), t') \<Longrightarrow> I t' \<and> Q x t'"
    and stable: "\<And>x y t t'. x \<in> set xs \<Longrightarrow> y \<in> set xs \<Longrightarrow> I t \<Longrightarrow> Q x t \<Longrightarrow> f y t = (Ok (), t') \<Longrightarrow> Q x t'"
  shows "I s' \<and> (\<forall>x\<in>set xs. Q x s')"
proof -
  have "I s' \<and> (\<forall>x\<in>set ys \<union> set zs. Q x s')"
    if "for_each f zs s = (Ok u, s')" "I s" "\<forall>x\<in>set ys. Q x s" "set ys \<subseteq> set xs" "set zs \<subseteq> set xs"
    for ys zs
    using that
  proof (induction zs arbitrary: s ys)
    case Nil
    then show ?case by simp
  next
    case (Cons a zs)
    from Cons.prems(1) obtain t where t: "f a s = (Ok (), t)" "for_each f zs t = (Ok u, s')"
      by (auto simp: ok_iff)
    have a: "a \<in> set xs" using Cons.prems(5) by simp
    have "I t \<and> Q a t" using step a Cons.prems(2) t(1) by blast
    moreover have "\<forall>x\<in>set ys. Q x t"
      using stable a Cons.prems(2,3,4) t(1) by blast
    ultimately have "I s' \<and> (\<forall>x\<in>set (a # ys) \<union> set zs. Q x s')"
      using t(2) Cons.prems(4,5) by (intro Cons.IH [of t "a # ys"]) auto
    then show ?case by auto
  qed
  from this [of xs "[]"] run start show ?thesis by simp
qed

lemma for_each_ok_total:
  assumes "I s" and "\<And>x t. x \<in> set xs \<Longrightarrow> I t \<Longrightarrow> \<exists>t'. f x t = (Ok (), t') \<and> I t'"
  shows "\<exists>s'. for_each f xs s = (Ok (), s') \<and> I s'"
  using assms
proof (induction xs arbitrary: s)
  case Nil
  then show ?case by simp
next
  case (Cons a xs)
  then obtain t where "f a s = (Ok (), t)" "I t" by (meson list.set_intros(1))
  moreover from this Cons obtain s' where "for_each f xs t = (Ok (), s')" "I s'"
    by (meson list.set_intros(2))
  ultimately show ?case by (auto simp: seqE_run)
qed

text \<open>An accumulating loop keeps a property of the elements visited so far.\<close>

lemma fold_go_okD:
  assumes run: "fold_go f acc xs s = (Ok acc', s')" and start: "P [] acc s"
    and step: "\<And>ys x zs a t a' t'. xs = ys @ x # zs \<Longrightarrow> P ys a t \<Longrightarrow> f a x t = (Ok a', t') \<Longrightarrow> P (ys @ [x]) a' t'"
  shows "P xs acc' s'"
proof -
  have "P (ys @ zs) acc' s'" if "fold_go f a zs t = (Ok acc', s')" "P ys a t" "xs = ys @ zs" for ys zs a t
    using that
  proof (induction zs arbitrary: ys a t)
    case (Cons z zs)
    from Cons.prems(1) obtain b u where b: "f a z t = (Ok b, u)" "fold_go f b zs u = (Ok acc', s')"
      by (auto simp: ok_iff)
    show ?case using Cons.IH [OF b(2), of "ys @ [z]"] step [OF Cons.prems(3,2) b(1)] Cons.prems(3) by simp
  qed (simp add: ok_iff)
  from this [OF run start] show ?thesis by simp
qed

section \<open>Relations that every operation keeps\<close>

text \<open>
  A frame condition ("only these files change"), an invariant, or "the trace only grows" relates
  the states before and after a call. Where the relation is reflexive and transitive it is enough
  to show it for the primitive operations: the combinators then keep it.
\<close>

definition keeps :: "('s \<Rightarrow> 's \<Rightarrow> bool) \<Rightarrow> ('s, 'a) run \<Rightarrow> bool" where
  "keeps R m \<longleftrightarrow> (\<forall>s. R s (snd (m s)))"

lemma keepsI [intro?]: "(\<And>s. R s (snd (m s))) \<Longrightarrow> keeps R m"
  by (simp add: keeps_def)

lemma keepsD: "keeps R m \<Longrightarrow> m s = (r, s') \<Longrightarrow> R s s'"
  by (metis keeps_def snd_conv)

lemma keeps_mono: "keeps R m \<Longrightarrow> (\<And>s s'. R s s' \<Longrightarrow> R' s s') \<Longrightarrow> keeps R' m"
  by (simp add: keeps_def)

locale kept_relation =
  fixes R :: "'s \<Rightarrow> 's \<Rightarrow> bool"
  assumes kept_refl: "R s s"
    and kept_trans: "R s t \<Longrightarrow> R t u \<Longrightarrow> R s u"
begin

lemma keeps_ret [keeps_intro]: "keeps R (ret x)"
  by (simp add: keeps_def kept_refl)

lemma keeps_fail [keeps_intro]: "keeps R (fail e)"
  by (simp add: keeps_def kept_refl)

lemma keeps_panic [keeps_intro]: "keeps R (panic p)"
  by (simp add: keeps_def kept_refl)

lemma keeps_bindE [keeps_intro]:
  assumes "keeps R m" and "\<And>e. keeps R (h e)" and "\<And>x. keeps R (k x)"
  shows "keeps R (bindE m h k)"
proof
  fix s
  obtain r t where m: "m s = (r, t)" by (cases "m s")
  have st: "R s t" using assms(1) m by (rule keepsD)
  have "R t (snd (h e t))" "R t (snd (k x t))" for e x
    using assms(2,3) by (simp_all add: keeps_def)
  then show "R s (snd (bindE m h k s))"
    using m st by (auto simp: bindE_run intro: kept_trans split: outcome.splits)
qed

lemma keeps_seqE [keeps_intro]:
  "keeps R m \<Longrightarrow> (\<And>x. keeps R (k x)) \<Longrightarrow> keeps R (seqE m k)"
  by (simp add: seqE_def keeps_bindE keeps_fail)

lemma keeps_wrapE [keeps_intro]: "keeps R m \<Longrightarrow> keeps R (wrapE c m)"
  by (simp add: wrapE_def keeps_bindE keeps_fail keeps_ret)

lemma keeps_catchE [keeps_intro]: "keeps R m \<Longrightarrow> keeps R (catchE m)"
  by (simp add: catchE_def keeps_bindE keeps_ret)

lemma keeps_for_each [keeps_intro]:
  "(\<And>x. x \<in> set xs \<Longrightarrow> keeps R (f x)) \<Longrightarrow> keeps R (for_each f xs)"
  by (induction xs) (simp_all add: keeps_ret keeps_seqE)

lemma keeps_fold_go [keeps_intro]:
  "(\<And>acc x. x \<in> set xs \<Longrightarrow> keeps R (f acc x)) \<Longrightarrow> keeps R (fold_go f acc xs)"
  by (induction xs arbitrary: acc) (simp_all add: keeps_ret keeps_seqE)

end

text \<open>An invariant is the relation "if it held before, it holds after".\<close>

interpretation invariant: kept_relation "\<lambda>s s'. I s \<longrightarrow> I s'" for I :: "'s \<Rightarrow> bool"
  by unfold_locales auto

section \<open>Iteration over a map\<close>

text \<open>
  The order in which \<^verbatim>\<open>range\<close> visits a map is unspecified. \<open>shuffle ns xs\<close> visits the entries
  in the order chosen by the numbers \<open>ns\<close>: always a permutation, and every permutation is some
  \<open>shuffle\<close>.
\<close>

fun shuffle :: "nat list \<Rightarrow> 'a list \<Rightarrow> 'a list" where
  "shuffle _ [] = []"
| "shuffle [] (x # xs) = x # xs"
| "shuffle (n # ns) (x # xs) =
     (let i = n mod length (x # xs)
      in (x # xs) ! i # shuffle ns (take i (x # xs) @ drop (Suc i) (x # xs)))"

lemma mset_remove_nth:
  "i < length xs \<Longrightarrow> add_mset (xs ! i) (mset (take i xs @ drop (Suc i) xs)) = mset xs"
  by (metis Cons_nth_drop_Suc append_take_drop_id mset.simps(2) mset_append union_mset_add_mset_right)

lemma mset_shuffle [simp]: "mset (shuffle ns xs) = mset xs"
proof (induction ns xs rule: shuffle.induct)
  case (3 n ns x xs)
  let ?i = "n mod length (x # xs)"
  have "?i < length (x # xs)" by simp
  then have "add_mset ((x # xs) ! ?i) (mset (take ?i (x # xs) @ drop (Suc ?i) (x # xs))) = mset (x # xs)"
    by (rule mset_remove_nth)
  with "3" [OF refl] show ?case by (simp only: shuffle.simps Let_def mset.simps)
qed simp_all

lemma set_shuffle [simp]: "set (shuffle ns xs) = set xs"
  by (metis mset_shuffle set_mset_mset)

lemma length_shuffle [simp]: "length (shuffle ns xs) = length xs"
  by (metis mset_shuffle size_mset)

lemma distinct_shuffle [simp]: "distinct (shuffle ns xs) = distinct xs"
  using mset_shuffle by (rule mset_eq_imp_distinct_iff)

lemma shuffle_complete: "mset ys = mset xs \<Longrightarrow> \<exists>ns. shuffle ns xs = ys"
proof (induction ys arbitrary: xs)
  case Nil
  then show ?case by (auto intro: exI [of _ "[]"])
next
  case (Cons y ys)
  then have "y \<in> set xs" by (metis list.set_intros(1) mset_eq_setD)
  then obtain i where i: "i < length xs" "xs ! i = y" by (auto simp: in_set_conv_nth)
  have "add_mset y (mset (take i xs @ drop (Suc i) xs)) = add_mset y (mset ys)"
    using mset_remove_nth [OF i(1)] Cons.prems i(2) by simp
  then have "mset ys = mset (take i xs @ drop (Suc i) xs)" by simp
  then obtain ns where "shuffle ns (take i xs @ drop (Suc i) xs) = ys" using Cons.IH by blast
  moreover from i(1) obtain z zs where "xs = z # zs" by (cases xs) auto
  ultimately have "shuffle (i # ns) xs = y # ys" using i by (simp add: Let_def)
  then show ?case ..
qed

section \<open>64-bit signed integers\<close>

text \<open>Go's \<^verbatim>\<open>int\<close> and \<^verbatim>\<open>int64\<close> wrap around at 64 bits.\<close>

definition wrap64 :: "int \<Rightarrow> int" where
  "wrap64 x = (x + 2 ^ 63) mod 2 ^ 64 - 2 ^ 63"

lemma wrap64_id [simp]: "- (2 ^ 63) \<le> x \<Longrightarrow> x < 2 ^ 63 \<Longrightarrow> wrap64 x = x"
  by (simp add: wrap64_def)

lemma wrap64_range: "- (2 ^ 63) \<le> wrap64 x \<and> wrap64 x < 2 ^ 63"
  by (simp add: wrap64_def)

section \<open>Decimal numerals\<close>

definition digit_char :: "nat \<Rightarrow> char" where
  "digit_char d = char_of (48 + d)"

fun dec :: "nat \<Rightarrow> string" where
  "dec n = (if n < 10 then [digit_char n] else dec (n div 10) @ [digit_char (n mod 10)])"

declare dec.simps [simp del]

text \<open>\<^verbatim>\<open>%d\<close>\<close>

definition dec_int :: "int \<Rightarrow> string" where
  "dec_int i = (if i < 0 then ''-'' @ dec (nat (- i)) else dec (nat i))"

text \<open>The dash, and the marks of a passed and a failed item, in UTF-8.\<close>

definition em_dash :: string where
  "em_dash = [CHR 0xE2, CHR 0x80, CHR 0x94]"

definition check_mark :: string where
  "check_mark = [CHR 0xE2, CHR 0x9C, CHR 0x93]"

definition ballot_x :: string where
  "ballot_x = [CHR 0xE2, CHR 0x9C, CHR 0x97]"

lemma of_char_digit [simp]: "d < 10 \<Longrightarrow> of_char (digit_char d) = 48 + d"
  by (simp add: digit_char_def)

lemma digit_char_inject: "a < 10 \<Longrightarrow> b < 10 \<Longrightarrow> digit_char a = digit_char b \<Longrightarrow> a = b"
  using of_char_digit [of a] of_char_digit [of b] by (metis add_left_cancel)

end
