(* ===== verification/Go_Json.thy ===== *)
theory Go_Json
  imports Go_Prelude "HOL-Library.AList"
begin

text \<open>
  The values that \<^verbatim>\<open>encoding/json\<close> and \<^verbatim>\<open>sigs.k8s.io/yaml\<close> (which goes through JSON) put into an
  \<^verbatim>\<open>interface{}\<close>, and decoding into \<^verbatim>\<open>map[string]interface{}\<close>. An object is an association list
  read with \<open>map_of\<close> and written with \<open>AList.update\<close>, as a Go map is.
\<close>

datatype json =
    JNull
  | JBool bool
  | JNum string
  | JStr string
  | JArr "json list"
  | JObj "(string \<times> json) list"

type_synonym json_map = "(string \<times> json) list"

fun json_kind :: "json \<Rightarrow> string" where
  "json_kind JNull = ''null''"
| "json_kind (JBool _) = ''bool''"
| "json_kind (JNum _) = ''number''"
| "json_kind (JStr _) = ''string''"
| "json_kind (JArr _) = ''array''"
| "json_kind (JObj _) = ''object''"

text \<open>
  \<^verbatim>\<open>json.Unmarshal(data, &m)\<close> for \<^verbatim>\<open>var m map[string]interface{}\<close>: null leaves the map nil
  (\<open>None\<close>), an object fills it, anything else is an error.
\<close>

fun unmarshal_map :: "json \<Rightarrow> goerr + json_map option" where
  "unmarshal_map JNull = Inr None"
| "unmarshal_map (JObj m) = Inr (Some m)"
| "unmarshal_map j =
     Inl (ErrMsg (''json: cannot unmarshal '' @ json_kind j @ '' into Go value of type map[string]interface {}''))"

text \<open>The type assertions \<^verbatim>\<open>x.(map[string]interface{})\<close>, \<^verbatim>\<open>x.([]interface{})\<close>, \<^verbatim>\<open>x.(string)\<close>.\<close>

fun as_map :: "json \<Rightarrow> json_map option" where
  "as_map (JObj m) = Some m"
| "as_map _ = None"

fun as_list :: "json \<Rightarrow> json list option" where
  "as_list (JArr xs) = Some xs"
| "as_list _ = None"

fun as_string :: "json \<Rightarrow> string option" where
  "as_string (JStr s) = Some s"
| "as_string _ = None"

text \<open>Reading a key of a map that may be nil; a missing key reads as the nil interface.\<close>

definition map_get :: "json_map option \<Rightarrow> string \<Rightarrow> json option" where
  "map_get m k = (case m of None \<Rightarrow> None | Some kvs \<Rightarrow> map_of kvs k)"

lemma map_get_Some [simp]: "map_get (Some kvs) k = map_of kvs k"
  by (simp add: map_get_def)

lemma map_get_None [simp]: "map_get None k = None"
  by (simp add: map_get_def)

lemma as_map_Some_iff [simp]: "as_map j = Some m \<longleftrightarrow> j = JObj m"
  by (cases j) auto

lemma as_list_Some_iff [simp]: "as_list j = Some xs \<longleftrightarrow> j = JArr xs"
  by (cases j) auto

lemma as_string_Some_iff [simp]: "as_string j = Some s \<longleftrightarrow> j = JStr s"
  by (cases j) auto

lemma map_of_update [simp]: "map_of (AList.update k v m) k' = (if k' = k then Some v else map_of m k')"
  by (simp add: update_conv')

end
