(* ===== verification/X509.thy ===== *)
theory X509
  imports Go_Prelude
begin

text \<open>
  The data of \<^verbatim>\<open>crypto/x509\<close> and \<^verbatim>\<open>crypto/rsa\<close> that the program reads or writes. Instants are
  nanoseconds since the epoch, an object identifier is its list of numbers, an IP address is the
  text \<^verbatim>\<open>ip.String()\<close> gives, and RSA keys are opaque names: the program never looks inside them.
\<close>

datatype rsa_key = RSAKey nat

datatype rsa_pub = RSAPub nat

fun PublicKey :: "rsa_key \<Rightarrow> rsa_pub" where
  "PublicKey (RSAKey n) = RSAPub n"

record pkix_name =
  CommonName :: string
  Organization :: "string list"
  OrganizationalUnit :: "string list"
  Country :: "string list"
  Locality :: "string list"
  Province :: "string list"

record pkix_extension =
  ext_Id :: "nat list"
  ext_Critical :: bool
  ext_Value :: string

record certificate =
  SerialNumber :: int
  Subject :: pkix_name
  NotBefore :: int
  NotAfter :: int
  DNSNames :: "string list"
  IPAddresses :: "string list"
  EmailAddresses :: "string list"
  URIs :: "string list"
  KeyUsage :: nat
  ExtKeyUsage :: "nat list"
  UnknownExtKeyUsage :: "nat list list"
  IsCA :: bool
  BasicConstraintsValid :: bool
  MaxPathLen :: int
  Extensions :: "pkix_extension list"
  ExtraExtensions :: "pkix_extension list"

text \<open>The zero values that a composite literal leaves in the fields it does not name.\<close>

definition zero_name :: pkix_name where
  "zero_name = \<lparr>CommonName = [], Organization = [], OrganizationalUnit = [], Country = [],
     Locality = [], Province = []\<rparr>"

definition zero_certificate :: certificate where
  "zero_certificate = \<lparr>SerialNumber = 0, Subject = zero_name, NotBefore = 0, NotAfter = 0,
     DNSNames = [], IPAddresses = [], EmailAddresses = [], URIs = [], KeyUsage = 0, ExtKeyUsage = [],
     UnknownExtKeyUsage = [], IsCA = False, BasicConstraintsValid = False, MaxPathLen = 0,
     Extensions = [], ExtraExtensions = []\<rparr>"

text \<open>\<^verbatim>\<open>ObjectIdentifier.String()\<close>: the numbers in decimal, with dots.\<close>

fun oid_string :: "nat list \<Rightarrow> string" where
  "oid_string [] = []"
| "oid_string [n] = dec n"
| "oid_string (n # ns) = dec n @ ''.'' @ oid_string ns"

end
