(* ===== verification/Api_Types.thy ===== *)
theory Api_Types
  imports Go_Prelude "HOL-Library.Finite_Map"
begin

text \<open>
  The custom resource of \<^verbatim>\<open>api/v1alpha1/certrotationconfig_types.go\<close>. Go's \<^verbatim>\<open>int\<close> fields are
  \<open>int\<close>, a \<^verbatim>\<open>*metav1.Time\<close> is an optional number of seconds since the epoch (all that its JSON
  form keeps), a Go map is a finite map (nil and empty read alike, and the controller makes the map
  before it writes to it), and the empty phase of an object whose status was never written is a
  constructor of its own.
\<close>

section \<open>The specification\<close>

record smtp_spec =
  SMTP_Enabled :: bool
  SMTP_SecretRef :: string

record slack_spec =
  Slack_Enabled :: bool
  Slack_SecretRef :: string

record notification_spec =
  SMTP :: smtp_spec
  Slack :: slack_spec

record config_spec =
  ThresholdDays :: int
  CheckIntervalHours :: int
  DryRun :: bool
  BackupDir :: string
  BackupRetentionDays :: int
  PKIDir :: string
  KubeconfigDir :: string
  ManifestsDir :: string
  HealthCheckTimeoutSeconds :: int
  HealthCheckMaxAttempts :: int
  Notifications :: notification_spec

section \<open>The status\<close>

datatype cluster_phase = ClusterPhaseUnset | ClusterPhaseIdle | ClusterPhaseRenewing | ClusterPhaseFailed

datatype node_phase =
    NodePhaseIdle
  | NodePhaseDetecting
  | NodePhaseRenewing
  | NodePhaseRollingBack
  | NodePhaseFailed
  | NodePhaseCritical

record api_cert_status =
  cert_Name :: string
  cert_ExpiryTime :: int
  cert_ResidualDays :: int
  cert_Status :: string

record node_status =
  node_Node :: string
  node_Phase :: node_phase
  node_LastCheckedAt :: "int option"
  node_LastRenewedAt :: "int option"
  node_BackupPath :: string
  node_FailureReason :: string
  node_Certs :: "api_cert_status list"

datatype condition_status = ConditionTrue | ConditionFalse

record condition =
  cond_Type :: string
  cond_Status :: condition_status
  cond_Reason :: string
  cond_Message :: string
  cond_LastTransitionTime :: int

record config_status =
  status_Phase :: cluster_phase
  status_LastCheckedAt :: "int option"
  status_LastRenewedAt :: "int option"
  status_Nodes :: "(string, node_status) fmap"
  status_Conditions :: "condition list"

record cert_rotation_config =
  config_Name :: string
  config_Spec :: config_spec
  config_Status :: config_status

definition ConditionCertsHealthy :: string where
  "ConditionCertsHealthy = ''CertsHealthy''"

definition ConditionRenewalInProgress :: string where
  "ConditionRenewalInProgress = ''RenewalInProgress''"

definition ConditionCriticalFailure :: string where
  "ConditionCriticalFailure = ''CriticalFailure''"

lemma condition_types_distinct:
  "distinct [ConditionCertsHealthy, ConditionRenewalInProgress, ConditionCriticalFailure]"
  by (simp add: ConditionCertsHealthy_def ConditionRenewalInProgress_def ConditionCriticalFailure_def)

end
