(* ===== verification/Go_Path.thy ===== *)
theory Go_Path
  imports Go_Prelude
begin

text \<open>
  Package \<^verbatim>\<open>path/filepath\<close> on Unix, as far as the program uses it: \<^verbatim>\<open>Clean\<close>, \<^verbatim>\<open>Join\<close> and
  \<^verbatim>\<open>Dir\<close>. A path string stands for an \<open>fpath\<close>, whether it starts at the root and its list of
  components with \<^verbatim>\<open>.\<close>, \<^verbatim>\<open>..\<close> and empty components resolved lexically.
\<close>

type_synonym fpath = "bool \<times> string list"

fun split_slash :: "string \<Rightarrow> string list" where
  "split_slash [] = [[]]"
| "split_slash (c # cs) =
     (if c = CHR ''/'' then [] # split_slash cs
      else case split_slash cs of [] \<Rightarrow> [[c]] | d # ds \<Rightarrow> (c # d) # ds)"

fun join_slash :: "string list \<Rightarrow> string" where
  "join_slash [] = []"
| "join_slash [c] = c"
| "join_slash (c # cs) = c @ ''/'' @ join_slash cs"

text \<open>One component on the stack of the components kept so far, innermost first.\<close>

definition path_step :: "bool \<Rightarrow> string \<Rightarrow> string list \<Rightarrow> string list" where
  "path_step rooted c stk =
     (if c = '''' \<or> c = ''.'' then stk
      else if c = ''..'' then
        (case stk of
           [] \<Rightarrow> if rooted then [] else [''..'']
         | d # ds \<Rightarrow> if d = ''..'' then ''..'' # stk else ds)
      else c # stk)"

definition is_rooted :: "string \<Rightarrow> bool" where
  "is_rooted s = (case s of [] \<Rightarrow> False | c # _ \<Rightarrow> c = CHR ''/'')"

definition resolve :: "string \<Rightarrow> fpath" where
  "resolve s = (is_rooted s, rev (fold (path_step (is_rooted s)) (split_slash s) []))"

fun render :: "fpath \<Rightarrow> string" where
  "render (rooted, cs) =
     (if rooted then ''/'' @ join_slash cs else if cs = [] then ''.'' else join_slash cs)"

definition filepath_Clean :: "string \<Rightarrow> string" where
  "filepath_Clean s = render (resolve s)"

text \<open>\<^verbatim>\<open>Join\<close> drops leading empty elements, joins the rest with slashes and cleans.\<close>

definition filepath_Join :: "string list \<Rightarrow> string" where
  "filepath_Join elems =
     (let es = dropWhile (\<lambda>e. e = '''') elems
      in if es = [] then '''' else filepath_Clean (join_slash es))"

text \<open>\<^verbatim>\<open>Dir\<close> keeps everything up to the last slash and cleans.\<close>

definition filepath_Dir :: "string \<Rightarrow> string" where
  "filepath_Dir s = filepath_Clean (rev (dropWhile (\<lambda>c. c \<noteq> CHR ''/'') (rev s)))"

section \<open>Components\<close>

text \<open>A plain component is a file name: not empty, no slash, neither \<^verbatim>\<open>.\<close> nor \<^verbatim>\<open>..\<close>.\<close>

definition plain :: "string \<Rightarrow> bool" where
  "plain c \<longleftrightarrow> c \<noteq> '''' \<and> CHR ''/'' \<notin> set c \<and> c \<noteq> ''.'' \<and> c \<noteq> ''..''"

lemma split_slash_nonempty [simp]: "split_slash s \<noteq> []"
  by (induction s) (auto split: list.splits)

lemma split_slash_app: "split_slash (s @ CHR ''/'' # t) = split_slash s @ split_slash t"
proof (induction s)
  case (Cons c s)
  then show ?case by (cases "split_slash s") auto
qed simp

lemma split_slash_plain: "CHR ''/'' \<notin> set c \<Longrightarrow> split_slash c = [c]"
  by (induction c) auto

lemma split_join_slash:
  "cs \<noteq> [] \<Longrightarrow> \<forall>c\<in>set cs. CHR ''/'' \<notin> set c \<Longrightarrow> split_slash (join_slash cs) = cs"
proof (induction cs rule: join_slash.induct)
  case (3 c d cs)
  then show ?case using split_slash_app [of c "join_slash (d # cs)"] by (simp add: split_slash_plain)
qed (simp_all add: split_slash_plain)

lemma path_step_plain [simp]: "plain c \<Longrightarrow> path_step r c stk = c # stk"
  by (simp add: path_step_def plain_def)

lemma fold_path_step_plain:
  "\<forall>c\<in>set cs. plain c \<Longrightarrow> fold (path_step r) cs stk = rev cs @ stk"
  by (induction cs arbitrary: stk) auto

section \<open>Resolved paths\<close>

text \<open>What \<open>resolve\<close> returns: plain components, and leading \<^verbatim>\<open>..\<close> only off the root.\<close>

definition wf_fpath :: "fpath \<Rightarrow> bool" where
  "wf_fpath p \<longleftrightarrow> (\<exists>n cs. snd p = replicate n ''..'' @ cs \<and> (\<forall>c\<in>set cs. plain c) \<and> (fst p \<longrightarrow> n = 0))"

lemma split_slash_no_slash: "c \<in> set (split_slash s) \<Longrightarrow> CHR ''/'' \<notin> set c"
proof (induction s arbitrary: c)
  case (Cons a s)
  then show ?case by (cases "split_slash s") (fastforce split: if_splits)+
qed simp

lemma path_step_dots: "path_step False ''..'' (replicate n ''..'') = replicate (Suc n) ''..''"
  by (cases n) (simp_all add: path_step_def)

lemma path_step_up: "plain d \<Longrightarrow> path_step r ''..'' (d # ds) = ds"
  by (simp add: path_step_def plain_def)

lemma path_step_wf:
  assumes "wf_fpath (r, rev stk)" and "CHR ''/'' \<notin> set c"
  shows "wf_fpath (r, rev (path_step r c stk))"
proof -
  obtain n cs where n: "rev stk = replicate n ''..'' @ cs" "\<forall>c\<in>set cs. plain c" "r \<longrightarrow> n = 0"
    using assms(1) by (auto simp: wf_fpath_def)
  consider "c = '''' \<or> c = ''.''" | "c = ''..''" | "plain c" using assms(2) by (auto simp: plain_def)
  then show ?thesis
  proof cases
    case 1
    then show ?thesis using assms(1) by (auto simp: path_step_def)
  next
    case 2
    show ?thesis
    proof (cases cs rule: rev_cases)
      case Nil
      then have stk: "stk = replicate n ''..''" using n(1) by (metis append_Nil2 rev_replicate rev_rev_ident)
      show ?thesis
      proof (cases r)
        case True
        then show ?thesis using 2 n(3) stk by (simp add: path_step_def wf_fpath_def)
      next
        case False
        then have "path_step r c stk = replicate (Suc n) ''..''" using 2 stk path_step_dots by simp
        then have "rev (path_step r c stk) = replicate (Suc n) ''..'' @ []"
          by (simp only: rev_replicate append_Nil2)
        then show ?thesis using False unfolding wf_fpath_def snd_conv fst_conv
          by (intro exI [of _ "Suc n"] exI [of _ "[]"]) simp
      qed
    next
      case (snoc ds d)
      then have "stk = d # rev (replicate n ''..'' @ ds)" using n(1) by (simp add: rev_swap)
      then have "path_step r c stk = rev (replicate n ''..'' @ ds)"
        using 2 n(2) snoc path_step_up [of d] by simp
      then show ?thesis using n snoc unfolding wf_fpath_def
        by (intro exI [of _ n] exI [of _ ds]) simp
    qed
  next
    case 3
    then show ?thesis using n unfolding wf_fpath_def
      by (auto intro!: exI [of _ n] exI [of _ "cs @ [c]"])
  qed
qed

lemma fold_path_step_wf:
  "wf_fpath (r, rev stk) \<Longrightarrow> \<forall>c\<in>set cs. CHR ''/'' \<notin> set c \<Longrightarrow> wf_fpath (r, rev (fold (path_step r) cs stk))"
  by (induction cs arbitrary: stk) (auto intro: path_step_wf)

lemma wf_resolve: "wf_fpath (resolve s)"
  unfolding resolve_def
  by (rule fold_path_step_wf) (auto simp: wf_fpath_def split_slash_no_slash)

lemma fold_path_step_dots:
  "fold (path_step False) (replicate n ''..'') (replicate m ''..'') = replicate (n + m) ''..''"
proof (induction n arbitrary: m)
  case (Suc n)
  then show ?case using Suc.IH [of "Suc m"] path_step_dots [of m] by simp
qed simp

lemma fold_path_step_resolved: "wf_fpath (r, cs) \<Longrightarrow> fold (path_step r) cs [] = rev cs"
proof -
  assume "wf_fpath (r, cs)"
  then obtain n ds where n: "cs = replicate n ''..'' @ ds" "\<forall>c\<in>set ds. plain c" "r \<longrightarrow> n = 0"
    by (auto simp: wf_fpath_def)
  then have "fold (path_step r) (replicate n ''..'') [] = replicate n ''..''"
    using fold_path_step_dots [of n 0] by (cases r) auto
  then show ?thesis using n fold_path_step_plain by simp
qed

lemma wf_components: assumes "wf_fpath p" and "c \<in> set (snd p)" shows "plain c \<or> c = ''..''"
proof -
  obtain n cs where n: "snd p = replicate n ''..'' @ cs" "\<forall>c\<in>set cs. plain c"
    using assms(1) by (auto simp: wf_fpath_def)
  then have "c \<in> set (replicate n ''..'') \<or> c \<in> set cs" using assms(2) by simp
  then show ?thesis using n(2) in_set_replicate by metis
qed

lemma wf_no_slash: "wf_fpath p \<Longrightarrow> c \<in> set (snd p) \<Longrightarrow> CHR ''/'' \<notin> set c"
  using wf_components [of p c] unfolding plain_def by force

lemma wf_nonempty: "wf_fpath p \<Longrightarrow> c \<in> set (snd p) \<Longrightarrow> c \<noteq> ''''"
  using wf_components [of p c] unfolding plain_def by force

lemma is_rooted_app: "s \<noteq> [] \<Longrightarrow> is_rooted (s @ t) = is_rooted s"
  by (cases s) (auto simp: is_rooted_def)

lemma not_rooted_component: "CHR ''/'' \<notin> set c \<Longrightarrow> \<not> is_rooted c"
  by (cases c) (auto simp: is_rooted_def)

lemma join_slash_not_rooted: assumes "wf_fpath (r, cs)" shows "\<not> is_rooted (join_slash cs)"
proof (cases cs rule: join_slash.cases)
  case (2 c)
  then show ?thesis using wf_no_slash [OF assms, of c] not_rooted_component by simp
next
  case (3 c d ds)
  then have "\<not> is_rooted c" "c \<noteq> []"
    using wf_no_slash [OF assms, of c] wf_nonempty [OF assms, of c] not_rooted_component by simp_all
  then show ?thesis using 3 is_rooted_app [of c] by simp
qed (simp add: is_rooted_def)

lemma split_slash_rooted: "split_slash (CHR ''/'' # s) = [] # split_slash s"
  by simp

text \<open>A resolved path is its own resolution: \<^verbatim>\<open>Clean\<close> is idempotent.\<close>

lemma resolve_render: assumes "wf_fpath p" shows "resolve (render p) = p"
proof -
  obtain r cs where p: "p = (r, cs)" by (cases p)
  have split: "split_slash (join_slash cs) = cs" if "cs \<noteq> []"
    using that assms p by (intro split_join_slash) (auto dest: wf_no_slash)
  have fold: "fold (path_step r) cs [] = rev cs"
    using assms p by (simp add: fold_path_step_resolved)
  show ?thesis
  proof (cases "cs = []")
    case True
    then show ?thesis using p by (auto simp: resolve_def is_rooted_def path_step_def)
  next
    case False
    then show ?thesis
      using p split fold assms join_slash_not_rooted [of r cs]
      by (cases r) (auto simp: resolve_def path_step_def is_rooted_def)
  qed
qed

lemma resolve_Clean [simp]: "resolve (filepath_Clean s) = resolve s"
  by (simp add: filepath_Clean_def resolve_render wf_resolve)

lemma Clean_idem: "filepath_Clean (filepath_Clean s) = filepath_Clean s"
  by (simp add: filepath_Clean_def [of "filepath_Clean s"]) (simp add: filepath_Clean_def)

section \<open>Joining a directory and a relative path\<close>

text \<open>\<open>below d cs\<close> is the path \<open>cs\<close> under the directory that the string \<open>d\<close> names.\<close>

definition below :: "string \<Rightarrow> string list \<Rightarrow> fpath" where
  "below d cs = (fst (resolve d), snd (resolve d) @ cs)"

lemma resolve_app_plain:
  assumes "d \<noteq> []" and "\<forall>c\<in>set (split_slash r). plain c"
  shows "resolve (d @ CHR ''/'' # r) = below d (split_slash r)"
  using assms
  by (simp add: resolve_def below_def split_slash_app is_rooted_app fold_path_step_plain)

lemma rooted_not_plain: "is_rooted s \<Longrightarrow> \<exists>c\<in>set (split_slash s). \<not> plain c"
  by (cases s) (auto simp: is_rooted_def plain_def)

lemma resolve_plain:
  assumes "\<forall>c\<in>set (split_slash r). plain c"
  shows "resolve r = (False, split_slash r)"
proof -
  have "\<not> is_rooted r" using assms rooted_not_plain by blast
  then show ?thesis unfolding resolve_def using fold_path_step_plain [OF assms] by simp
qed

lemma resolve_dot_slash: "resolve ''.'' = (False, [])" "resolve ''/'' = (True, [])" "resolve '''' = (False, [])"
  by (simp_all add: resolve_def is_rooted_def path_step_def)

lemma Join_two: "r \<noteq> [] \<Longrightarrow> filepath_Join [d, r] = filepath_Clean (if d = [] then r else d @ CHR ''/'' # r)"
  by (simp add: filepath_Join_def)

lemma Join_render: "r \<noteq> [] \<Longrightarrow> filepath_Join [d, r] = render (resolve (filepath_Join [d, r]))"
  by (simp add: Join_two filepath_Clean_def resolve_render wf_resolve)

lemma resolve_Join:
  assumes "\<forall>c\<in>set (split_slash r). plain c"
  shows "resolve (filepath_Join [d, r]) = below d (split_slash r)"
proof -
  have r: "r \<noteq> []"
  proof
    assume "r = []"
    with assms show False by (simp add: plain_def)
  qed
  show ?thesis
  proof (cases "d = []")
    case True
    have "resolve (filepath_Join [d, r]) = resolve r" using True Join_two [OF r] by simp
    also have "\<dots> = (False, split_slash r)" by (rule resolve_plain [OF assms])
    also have "\<dots> = below d (split_slash r)" using True by (simp add: below_def resolve_dot_slash)
    finally show ?thesis .
  next
    case False
    then have "resolve (filepath_Join [d, r]) = resolve (d @ CHR ''/'' # r)" using Join_two [OF r] by simp
    also have "\<dots> = below d (split_slash r)" by (rule resolve_app_plain [OF False assms])
    finally show ?thesis .
  qed
qed

lemma below_Join:
  assumes "\<forall>c\<in>set (split_slash r). plain c"
  shows "below (filepath_Join [d, r]) cs = below d (split_slash r @ cs)"
  unfolding below_def [of "filepath_Join [d, r]"] resolve_Join [OF assms]
  unfolding below_def by simp

lemma below_inject [simp]: "below d cs = below d ds \<longleftrightarrow> cs = ds"
  by (simp add: below_def)

lemma wf_fpath_app:
  assumes "wf_fpath (r, ds)" and "\<forall>c\<in>set cs. plain c" shows "wf_fpath (r, ds @ cs)"
proof -
  obtain n es where "ds = replicate n ''..'' @ es" "\<forall>c\<in>set es. plain c" "r \<longrightarrow> n = 0"
    using assms(1) by (auto simp: wf_fpath_def)
  then show ?thesis unfolding wf_fpath_def using assms(2)
    by (intro exI [of _ n] exI [of _ "es @ cs"]) auto
qed

lemma wf_below: "\<forall>c\<in>set cs. plain c \<Longrightarrow> wf_fpath (below d cs)"
  unfolding below_def by (rule wf_fpath_app) (simp_all add: wf_resolve)

text \<open>The parent of a path below a directory.\<close>

lemma join_slash_snoc: "cs \<noteq> [] \<Longrightarrow> join_slash (cs @ [c]) = join_slash cs @ CHR ''/'' # c"
  by (induction cs rule: join_slash.induct) auto

lemma dropWhile_rev_snoc:
  "CHR ''/'' \<notin> set c \<Longrightarrow> dropWhile (\<lambda>c. c \<noteq> CHR ''/'') (rev c @ CHR ''/'' # xs) = CHR ''/'' # xs"
  by (subst dropWhile_append2) auto

lemma resolve_trailing_slash: "s \<noteq> [] \<Longrightarrow> resolve (s @ ''/'') = resolve s"
  using split_slash_app [of s "[]"] by (simp add: resolve_def is_rooted_app path_step_def)

lemma wf_butlast:
  assumes "wf_fpath (r, cs @ [c])" and "plain c" shows "wf_fpath (r, cs)"
proof -
  obtain n ds where n: "cs @ [c] = replicate n ''..'' @ ds" "\<forall>c\<in>set ds. plain c" "r \<longrightarrow> n = 0"
    using assms(1) by (auto simp: wf_fpath_def)
  show ?thesis
  proof (cases ds rule: rev_cases)
    case Nil
    then have "c \<in> set (replicate n ''..'')" using n(1) by (metis append_Nil2 in_set_conv_decomp)
    then have "c = ''..''" by simp
    then show ?thesis using assms(2) by (simp add: plain_def)
  next
    case (snoc es e)
    then have "cs = replicate n ''..'' @ es" using n(1) by simp
    then show ?thesis using n snoc unfolding wf_fpath_def
      by (intro exI [of _ n] exI [of _ es]) simp
  qed
qed

lemma resolve_Dir:
  assumes "wf_fpath (r, cs @ [c])" and "plain c"
  shows "resolve (filepath_Dir (render (r, cs @ [c]))) = (r, cs)"
proof -
  have c: "CHR ''/'' \<notin> set c" using assms(2) by (simp add: plain_def)
  have wf: "wf_fpath (r, cs)" using assms by (rule wf_butlast)
  show ?thesis
  proof (cases "cs = []")
    case True
    have d: "dropWhile (\<lambda>c. c \<noteq> CHR ''/'') (rev c) = []" using c by (auto simp: dropWhile_eq_Nil_conv)
    show ?thesis
      using True dropWhile_rev_snoc [OF c, of "[]"]
      by (cases r) (simp_all add: filepath_Dir_def resolve_dot_slash d)
  next
    case False
    let ?p = "(if r then ''/'' else []) @ join_slash cs"
    have ren: "render (r, cs @ [c]) = ?p @ CHR ''/'' # c" using False by (simp add: join_slash_snoc)
    have p: "?p = render (r, cs)" using False by simp
    have ne: "?p \<noteq> []" using False wf_nonempty [OF wf]
      by (cases cs rule: join_slash.cases) auto
    have "filepath_Dir (render (r, cs @ [c])) = filepath_Clean (?p @ ''/'')"
      unfolding filepath_Dir_def ren using dropWhile_rev_snoc [OF c] by simp
    then show ?thesis using resolve_trailing_slash [OF ne] p resolve_render [OF wf] by simp
  qed
qed

end
