(* ===== verification/World.thy ===== *)
theory World
  imports Go_Json X509 Api_Types Go_Path "HOL-Library.Finite_Map" "HOL-Library.Sublist"
    "HOL-Library.List_Lexorder" "HOL-Library.Char_ord" "HOL-Library.Word"
begin

unbundle bit_operations_syntax

text \<open>
  What the program runs in: the file system of the node, the clock, the network, the API server,
  and the libraries that are not under \<^verbatim>\<open>src/\<close>. The state of the run is a \<open>world\<close>; every choice
  the environment makes (a system call fails, the time, the answer of a probe, the order of a
  map) is a field of \<open>env\<close>, read at the current \<open>tick\<close>, which each use advances. A theorem about
  all \<open>env\<close> and \<open>world\<close> is about every behaviour of the environment.
\<close>

section \<open>The file system\<close>

text \<open>A node of the file system: a directory or a regular file, with its permission bits.\<close>

datatype fnode = Dir nat | Reg string nat

fun node_mode :: "fnode \<Rightarrow> nat" where
  "node_mode (Dir m) = m"
| "node_mode (Reg _ m) = m"

text \<open>What the run does to its surroundings, in order.\<close>

datatype event =
    EvMkdir string
  | EvWrite string
  | EvRemove string
  | EvSleep int
  | EvDial string
  | EvHttpGet string
  | EvHttpPost string json
  | EvMail string "(string \<times> string) option" string "string list" string
  | EvPatch config_status

record world =
  w_fs :: "(fpath, fnode) fmap"
  w_tick :: nat
  w_trace :: "event list"
  w_cfg :: cert_rotation_config
  w_server :: "cert_rotation_config option"

text \<open>
  The environment. The clock, faults, modification times, map orders and network answers depend
  on the tick. \<open>env_short\<close> says how much of a failing write reached the disk. The functions on
  certificates, keys, PEM blocks and YAML texts stand for \<^verbatim>\<open>crypto/*\<close>, \<^verbatim>\<open>encoding/pem\<close> and
  \<^verbatim>\<open>sigs.k8s.io/yaml\<close>, which turns a text into JSON in two ways: for a target without types, and for one
  whose fields are strings, where a number or a boolean becomes its text (\<open>env_yaml_to_strings\<close>); \<open>env_api_fault\<close>, \<open>env_merge\<close> and \<open>env_set_condition\<close> for the client of
  \<^verbatim>\<open>controller-runtime\<close> and \<^verbatim>\<open>meta.SetStatusCondition\<close>; \<open>env_others\<close> says what the operators of the other
  nodes and people did to the custom resource before a call of the API, and \<open>env_cached\<close> what the cache of
  the manager, through which the object is read, holds of the server's object. \<open>env_wake\<close> is the number of
  ticks that pass while the program sleeps.
\<close>

record env =
  env_now :: "nat \<Rightarrow> int"
  env_wake :: "nat \<Rightarrow> int \<Rightarrow> nat"
  env_fault :: "nat \<Rightarrow> fault option"
  env_short :: "nat \<Rightarrow> nat"
  env_umask :: nat
  env_mtime :: "nat \<Rightarrow> string \<Rightarrow> int"
  env_pick :: "nat \<Rightarrow> nat list"
  env_dial :: "nat \<Rightarrow> string \<Rightarrow> goerr option"
  env_http_get :: "nat \<Rightarrow> string \<Rightarrow> goerr + int"
  env_http_post :: "nat \<Rightarrow> string \<Rightarrow> json \<Rightarrow> goerr + int"
  env_mail :: "nat \<Rightarrow> string \<Rightarrow> goerr option"
  env_getenv :: "string \<Rightarrow> string"
  env_zone :: "int \<Rightarrow> int"
  env_pem_decode :: "string \<Rightarrow> (string \<times> string) option"
  env_pem_encode :: "string \<Rightarrow> string \<Rightarrow> string"
  env_parse_cert :: "string \<Rightarrow> goerr + certificate"
  env_parse_pkcs1 :: "string \<Rightarrow> goerr + rsa_key"
  env_parse_pkcs8 :: "string \<Rightarrow> goerr + rsa_key option"
  env_marshal_pkcs1 :: "rsa_key \<Rightarrow> string"
  env_gen_key :: "nat \<Rightarrow> goerr + rsa_key"
  env_rand_serial :: "nat \<Rightarrow> goerr + int"
  env_create_cert :: "nat \<Rightarrow> certificate \<Rightarrow> certificate \<Rightarrow> rsa_pub \<Rightarrow> rsa_key \<Rightarrow> goerr + string"
  env_yaml_to_json :: "string \<Rightarrow> goerr + json"
  env_yaml_to_strings :: "string \<Rightarrow> goerr + json"
  env_json_to_yaml :: "json \<Rightarrow> goerr + string"
  env_api_fault :: "nat \<Rightarrow> goerr option"
  env_others :: "nat \<Rightarrow> cert_rotation_config option \<Rightarrow> cert_rotation_config option"
  env_cached :: "nat \<Rightarrow> cert_rotation_config option \<Rightarrow> cert_rotation_config option"
  env_merge :: "cert_rotation_config \<Rightarrow> cert_rotation_config \<Rightarrow> cert_rotation_config \<Rightarrow> cert_rotation_config"
  env_set_condition :: "condition list \<Rightarrow> condition \<Rightarrow> condition list"

type_synonym 'a go = "(world, 'a) run"

section \<open>Primitive steps\<close>

definition tick :: "nat go" where
  "tick = (\<lambda>w. (Ok (w_tick w), w\<lparr>w_tick := Suc (w_tick w)\<rparr>))"

definition emit :: "event \<Rightarrow> unit go" where
  "emit e = (\<lambda>w. (Ok (), w\<lparr>w_trace := w_trace w @ [e]\<rparr>))"

definition get_fs :: "(fpath, fnode) fmap go" where
  "get_fs = (\<lambda>w. (Ok (w_fs w), w))"

definition put_fs :: "(fpath, fnode) fmap \<Rightarrow> unit go" where
  "put_fs fs = (\<lambda>w. (Ok (), w\<lparr>w_fs := fs\<rparr>))"

text \<open>\<^verbatim>\<open>time.Now()\<close> and \<^verbatim>\<open>time.Sleep\<close>\<close>

definition time_now :: "env \<Rightarrow> int go" where
  "time_now E = seqE tick (\<lambda>t. ret (env_now E t))"

definition time_sleep :: "env \<Rightarrow> int \<Rightarrow> unit go" where
  "time_sleep E d = seqE (emit (EvSleep d)) (\<lambda>_ w. (Ok (), w\<lparr>w_tick := w_tick w + env_wake E (w_tick w) d\<rparr>))"

text \<open>What package \<^verbatim>\<open>time\<close> promises: the clock never goes back, and a sleep takes at least its duration.\<close>

definition clock_contract :: "env \<Rightarrow> bool" where
  "clock_contract E \<longleftrightarrow> (\<forall>t t'. t \<le> t' \<longrightarrow> env_now E t \<le> env_now E t') \<and>
     (\<forall>t d. env_now E t + d \<le> env_now E (t + env_wake E t d))"

text \<open>The entries of a map in an unspecified order.\<close>

definition map_range :: "env \<Rightarrow> 'a list \<Rightarrow> 'a list go" where
  "map_range E kvs = seqE tick (\<lambda>t. ret (shuffle (env_pick E t) kvs))"

text \<open>A system call that the environment lets fail.\<close>

definition syscall :: "env \<Rightarrow> string \<Rightarrow> string \<Rightarrow> 'a go \<Rightarrow> 'a go" where
  "syscall E op path m =
     seqE tick (\<lambda>t. case env_fault E t of
         Some f \<Rightarrow> fail (PathError op path (Fault f))
       | None \<Rightarrow> m)"

section \<open>Package os\<close>

definition fs_get :: "(fpath, fnode) fmap \<Rightarrow> fpath \<Rightarrow> fnode option" where
  "fs_get fs p = (if snd p = [] then Some (Dir 493) else fmlookup fs p)"

fun is_reg :: "fnode option \<Rightarrow> bool" where
  "is_reg (Some (Reg _ _)) = True"
| "is_reg _ = False"

fun is_dir :: "fnode option \<Rightarrow> bool" where
  "is_dir (Some (Dir _)) = True"
| "is_dir _ = False"

definition parent :: "fpath \<Rightarrow> fpath" where
  "parent p = (fst p, butlast (snd p))"

text \<open>Why a path cannot be reached: a file on the way, or nothing there.\<close>

definition missing_errno :: "(fpath, fnode) fmap \<Rightarrow> fpath \<Rightarrow> errno" where
  "missing_errno fs p =
     (if \<exists>k\<in>set [0..<length (snd p)]. is_reg (fs_get fs (fst p, take k (snd p))) then ENOTDIR else ENOENT)"

definition apply_umask :: "env \<Rightarrow> nat \<Rightarrow> nat" where
  "apply_umask E perm = perm - (perm AND env_umask E)"

text \<open>\<^verbatim>\<open>os.ReadFile\<close>\<close>

definition os_ReadFile :: "env \<Rightarrow> string \<Rightarrow> string go" where
  "os_ReadFile E path =
     syscall E ''open'' path (seqE get_fs (\<lambda>fs.
       case fs_get fs (resolve path) of
         None \<Rightarrow> fail (PathError ''open'' path (missing_errno fs (resolve path)))
       | Some (Dir _) \<Rightarrow> fail (PathError ''read'' path EISDIR)
       | Some (Reg data _) \<Rightarrow> syscall E ''read'' path (ret data)))"

text \<open>\<^verbatim>\<open>os.Stat\<close>: size, permission bits, modification time, directory or not.\<close>

record file_info =
  fi_Size :: int
  fi_Mode :: nat
  fi_ModTime :: int
  fi_IsDir :: bool

definition os_Stat :: "env \<Rightarrow> string \<Rightarrow> file_info go" where
  "os_Stat E path =
     syscall E ''stat'' path (seqE get_fs (\<lambda>fs.
       case fs_get fs (resolve path) of
         None \<Rightarrow> fail (PathError ''stat'' path (missing_errno fs (resolve path)))
       | Some n \<Rightarrow> seqE tick (\<lambda>t. ret
           \<lparr>fi_Size = (case n of Dir _ \<Rightarrow> 4096 | Reg data _ \<Rightarrow> int (length data)),
            fi_Mode = node_mode n, fi_ModTime = env_mtime E t path, fi_IsDir = is_dir (Some n)\<rparr>)))"

text \<open>\<^verbatim>\<open>os.MkdirAll\<close> makes the missing directories from the outermost in.\<close>

definition mkdir_one :: "env \<Rightarrow> nat \<Rightarrow> fpath \<Rightarrow> unit go" where
  "mkdir_one E perm p = seqE get_fs (\<lambda>fs.
     case fs_get fs p of
       Some (Dir _) \<Rightarrow> ret ()
     | Some (Reg _ _) \<Rightarrow> fail (PathError ''mkdir'' (render p) ENOTDIR)
     | None \<Rightarrow> syscall E ''mkdir'' (render p)
         (seqE (emit (EvMkdir (render p))) (\<lambda>_. put_fs (fmupd p (Dir (apply_umask E perm)) fs))))"

definition ancestors :: "fpath \<Rightarrow> fpath list" where
  "ancestors p = map (\<lambda>k. (fst p, take k (snd p))) [1..<Suc (length (snd p))]"

definition os_MkdirAll :: "env \<Rightarrow> string \<Rightarrow> nat \<Rightarrow> unit go" where
  "os_MkdirAll E path perm = for_each (mkdir_one E perm) (ancestors (resolve path))"

text \<open>
  \<^verbatim>\<open>os.OpenFile(path, O_WRONLY|O_CREATE|O_TRUNC, perm)\<close>: an existing file keeps its permission
  bits and loses its content, a new one gets the bits that the umask leaves.
\<close>

definition open_trunc :: "env \<Rightarrow> string \<Rightarrow> nat \<Rightarrow> unit go" where
  "open_trunc E path perm =
     syscall E ''open'' path (seqE get_fs (\<lambda>fs.
       let p = resolve path in
       case fs_get fs p of
         Some (Dir _) \<Rightarrow> fail (PathError ''open'' path EISDIR)
       | Some (Reg _ m) \<Rightarrow> seqE (emit (EvWrite path)) (\<lambda>_. put_fs (fmupd p (Reg [] m) fs))
       | None \<Rightarrow>
           if is_dir (fs_get fs (parent p))
           then seqE (emit (EvWrite path)) (\<lambda>_. put_fs (fmupd p (Reg [] (apply_umask E perm)) fs))
           else fail (PathError ''open'' path (missing_errno fs p))))"

text \<open>Writing to the file just opened; a failing write leaves a prefix of the data.\<close>

definition set_content :: "fpath \<Rightarrow> string \<Rightarrow> (fpath, fnode) fmap \<Rightarrow> (fpath, fnode) fmap" where
  "set_content p data fs = (case fs_get fs p of Some (Reg _ m) \<Rightarrow> fmupd p (Reg data m) fs | _ \<Rightarrow> fs)"

definition write_data :: "env \<Rightarrow> string \<Rightarrow> string \<Rightarrow> unit go" where
  "write_data E path data =
     seqE tick (\<lambda>t. seqE get_fs (\<lambda>fs.
       case env_fault E t of
         Some f \<Rightarrow> seqE (put_fs (set_content (resolve path) (take (env_short E t) data) fs))
                       (\<lambda>_. fail (PathError ''write'' path (Fault f)))
       | None \<Rightarrow> put_fs (set_content (resolve path) data fs)))"

text \<open>\<^verbatim>\<open>os.WriteFile\<close>\<close>

definition os_WriteFile :: "env \<Rightarrow> string \<Rightarrow> string \<Rightarrow> nat \<Rightarrow> unit go" where
  "os_WriteFile E path data perm = seqE (open_trunc E path perm) (\<lambda>_. write_data E path data)"

text \<open>
  \<^verbatim>\<open>os.Open\<close> of a file for reading, \<^verbatim>\<open>Stat\<close> on the open file (its permission bits), and
  \<^verbatim>\<open>io.Copy\<close> from it to the file that \<open>open_trunc\<close> opened: it reads what the source holds then,
  which is nothing when both are the same file.
\<close>

definition os_Open :: "env \<Rightarrow> string \<Rightarrow> unit go" where
  "os_Open E path =
     syscall E ''open'' path (seqE get_fs (\<lambda>fs.
       case fs_get fs (resolve path) of
         None \<Rightarrow> fail (PathError ''open'' path (missing_errno fs (resolve path)))
       | Some _ \<Rightarrow> ret ()))"

definition file_Mode :: "env \<Rightarrow> string \<Rightarrow> nat go" where
  "file_Mode E path =
     syscall E ''stat'' path (seqE get_fs (\<lambda>fs.
       case fs_get fs (resolve path) of
         None \<Rightarrow> fail (PathError ''stat'' path ENOENT)
       | Some n \<Rightarrow> ret (node_mode n)))"

definition io_Copy :: "env \<Rightarrow> string \<Rightarrow> string \<Rightarrow> unit go" where
  "io_Copy E dst src =
     seqE get_fs (\<lambda>fs.
       case fs_get fs (resolve src) of
         Some (Reg data _) \<Rightarrow> write_data E dst data
       | _ \<Rightarrow> fail (PathError ''read'' src EISDIR))"

text \<open>\<^verbatim>\<open>os.ReadDir\<close>: the names in a directory, sorted.\<close>

definition dir_entries :: "(fpath, fnode) fmap \<Rightarrow> fpath \<Rightarrow> string list" where
  "dir_entries fs p = sorted_list_of_fset
     ((\<lambda>q. last (snd q)) |`| ffilter (\<lambda>q. snd q \<noteq> [] \<and> parent q = p) (fmdom fs))"

definition os_ReadDir :: "env \<Rightarrow> string \<Rightarrow> string list go" where
  "os_ReadDir E path =
     syscall E ''open'' path (seqE get_fs (\<lambda>fs.
       case fs_get fs (resolve path) of
         None \<Rightarrow> fail (PathError ''open'' path (missing_errno fs (resolve path)))
       | Some (Reg _ _) \<Rightarrow> fail (PathError ''readdirent'' path ENOTDIR)
       | Some (Dir _) \<Rightarrow> ret (dir_entries fs (resolve path))))"

text \<open>\<^verbatim>\<open>os.RemoveAll\<close> removes the path and everything below it.\<close>

definition inside :: "fpath \<Rightarrow> fpath \<Rightarrow> bool" where
  "inside p q \<longleftrightarrow> fst q = fst p \<and> prefix (snd p) (snd q)"

definition os_RemoveAll :: "env \<Rightarrow> string \<Rightarrow> unit go" where
  "os_RemoveAll E path =
     syscall E ''unlinkat'' path (seqE get_fs (\<lambda>fs.
       seqE (emit (EvRemove path)) (\<lambda>_. put_fs (fmfilter (\<lambda>q. \<not> inside (resolve path) q) fs))))"

section \<open>Frame conditions\<close>

text \<open>Only paths in \<open>A\<close> differ between two worlds.\<close>

definition changes_only :: "fpath set \<Rightarrow> world \<Rightarrow> world \<Rightarrow> bool" where
  "changes_only A w w' \<longleftrightarrow> (\<forall>p. p \<notin> A \<longrightarrow> fs_get (w_fs w') p = fs_get (w_fs w) p)"

text \<open>The trace grows, by events that satisfy \<open>P\<close>.\<close>

definition emits :: "(event \<Rightarrow> bool) \<Rightarrow> world \<Rightarrow> world \<Rightarrow> bool" where
  "emits P w w' \<longleftrightarrow> (\<exists>es. w_trace w' = w_trace w @ es \<and> (\<forall>e\<in>set es. P e))"

text \<open>The objects of the API are left alone.\<close>

definition same_api :: "world \<Rightarrow> world \<Rightarrow> bool" where
  "same_api w w' \<longleftrightarrow> w_cfg w' = w_cfg w \<and> w_server w' = w_server w"

interpretation fs_frame: kept_relation "changes_only A" for A
  by unfold_locales (auto simp: changes_only_def)

interpretation trace_frame: kept_relation "emits P" for P
proof unfold_locales
  show "emits P s s" for s by (simp add: emits_def)
  show "emits P s u" if "emits P s t" "emits P t u" for s t u
  proof -
    from that obtain es fs where "w_trace t = w_trace s @ es" "w_trace u = w_trace t @ fs"
      "\<forall>e\<in>set es. P e" "\<forall>e\<in>set fs. P e" unfolding emits_def by blast
    then show ?thesis unfolding emits_def by (intro exI [of _ "es @ fs"]) auto
  qed
qed

interpretation api_frame: kept_relation same_api
  by unfold_locales (simp_all add: same_api_def)

end
