(* ===== verification/World_Lemmas.thy ===== *)
theory World_Lemmas
  imports World
begin

text \<open>
  Facts about the operations of \<open>World\<close> that the component theories share: which relations they
  keep, what a successful call did, and what happens when no system call fails.
\<close>

section \<open>Relations that do not look at the tick\<close>

locale tick_blind = kept_relation R for R :: "world \<Rightarrow> world \<Rightarrow> bool" +
  assumes blind: "R w (w\<lparr>w_tick := n\<rparr>)"
begin

lemma keeps_tick [keeps_intro]: "keeps R tick"
  by (simp add: keeps_def tick_def blind)

lemma keeps_get_fs [keeps_intro]: "keeps R get_fs"
  by (simp add: keeps_def get_fs_def kept_refl)

lemma keeps_time_now [keeps_intro]: "keeps R (time_now E)"
  unfolding time_now_def by (intro keeps_seqE keeps_tick keeps_ret)

lemma keeps_sleep: "keeps R (emit (EvSleep d)) \<Longrightarrow> keeps R (time_sleep E d)"
  unfolding time_sleep_def by (intro keeps_seqE) (simp_all add: keeps_def blind)

lemma keeps_map_range [keeps_intro]: "keeps R (map_range E kvs)"
  unfolding map_range_def by (intro keeps_seqE keeps_tick keeps_ret)

lemma keeps_syscall [keeps_intro]: "keeps R m \<Longrightarrow> keeps R (syscall E op p m)"
  unfolding syscall_def
  by (intro keeps_seqE keeps_tick) (auto split: option.split intro: keeps_fail)

lemma keeps_ReadFile [keeps_intro]: "keeps R (os_ReadFile E p)"
  unfolding os_ReadFile_def
  by (intro keeps_seqE keeps_syscall keeps_get_fs)
     (auto split: option.split fnode.split intro: keeps_fail keeps_ret keeps_syscall)

lemma keeps_Stat [keeps_intro]: "keeps R (os_Stat E p)"
  unfolding os_Stat_def
  by (intro keeps_seqE keeps_syscall keeps_get_fs)
     (auto split: option.split intro: keeps_fail keeps_ret keeps_seqE keeps_tick)

lemma keeps_Open [keeps_intro]: "keeps R (os_Open E p)"
  unfolding os_Open_def
  by (intro keeps_seqE keeps_syscall keeps_get_fs) (auto split: option.split intro: keeps_fail keeps_ret)

lemma keeps_file_Mode [keeps_intro]: "keeps R (file_Mode E p)"
  unfolding file_Mode_def
  by (intro keeps_seqE keeps_syscall keeps_get_fs) (auto split: option.split intro: keeps_fail keeps_ret)

lemma keeps_io_Copy [keeps_intro]: "(\<And>data. keeps R (write_data E dst data)) \<Longrightarrow> keeps R (io_Copy E dst src)"
  unfolding io_Copy_def
  by (intro keeps_seqE keeps_get_fs) (auto split: option.split fnode.split intro: keeps_fail)

lemma keeps_ReadDir [keeps_intro]: "keeps R (os_ReadDir E p)"
  unfolding os_ReadDir_def
  by (intro keeps_seqE keeps_syscall keeps_get_fs)
     (auto split: option.split fnode.split intro: keeps_fail keeps_ret)

end

text \<open>A call that only looks: the files, the trace and the API objects are the same after it.\<close>

definition quiet :: "world \<Rightarrow> world \<Rightarrow> bool" where
  "quiet w w' \<longleftrightarrow> w_fs w' = w_fs w \<and> w_trace w' = w_trace w \<and> w_cfg w' = w_cfg w \<and> w_server w' = w_server w"

interpretation look: tick_blind quiet
  by unfold_locales (simp_all add: quiet_def)

lemma quietD: "quiet w w' \<Longrightarrow> w_fs w' = w_fs w" "quiet w w' \<Longrightarrow> w_trace w' = w_trace w"
  "quiet w w' \<Longrightarrow> w_cfg w' = w_cfg w" "quiet w w' \<Longrightarrow> w_server w' = w_server w"
  by (simp_all add: quiet_def)


interpretation fs_frame: tick_blind "changes_only A" for A
  by unfold_locales (simp add: changes_only_def)

interpretation trace_frame: tick_blind "emits P" for P
  by unfold_locales (simp add: emits_def)

interpretation api_frame: tick_blind same_api
  by unfold_locales (simp add: same_api_def)

section \<open>Events\<close>

lemma time_sleep_run [go_run]:
  "time_sleep E d w = (Ok (), w\<lparr>w_tick := w_tick w + env_wake E (w_tick w) d, w_trace := w_trace w @ [EvSleep d]\<rparr>)"
  by (simp add: time_sleep_def seqE_run emit_def)

lemma emit_keeps_fs [keeps_intro]: "keeps (changes_only A) (emit e)"
  by (simp add: keeps_def emit_def changes_only_def)

lemma emit_keeps_trace [keeps_intro]: "P e \<Longrightarrow> keeps (emits P) (emit e)"
  by (simp add: keeps_def emit_def emits_def)

lemma emit_keeps_api [keeps_intro]: "keeps same_api (emit e)"
  by (simp add: keeps_def emit_def same_api_def)

lemma sleep_keeps_fs [keeps_intro]: "keeps (changes_only A) (time_sleep E d)"
  by (rule fs_frame.keeps_sleep [OF emit_keeps_fs])

lemma sleep_keeps_trace [keeps_intro]: "P (EvSleep d) \<Longrightarrow> keeps (emits P) (time_sleep E d)"
  by (rule trace_frame.keeps_sleep [OF emit_keeps_trace])

lemma sleep_keeps_api [keeps_intro]: "keeps same_api (time_sleep E d)"
  by (rule api_frame.keeps_sleep [OF emit_keeps_api])

lemma emits_mono: "emits P w w' \<Longrightarrow> (\<And>e. P e \<Longrightarrow> Q e) \<Longrightarrow> emits Q w w'"
  unfolding emits_def by blast

lemma changes_only_mono: "changes_only A w w' \<Longrightarrow> A \<subseteq> B \<Longrightarrow> changes_only B w w'"
  unfolding changes_only_def by blast

lemma changes_onlyD: "changes_only A w w' \<Longrightarrow> p \<notin> A \<Longrightarrow> fs_get (w_fs w') p = fs_get (w_fs w) p"
  unfolding changes_only_def by blast

section \<open>The file system map\<close>

lemma fs_get_root [simp]: "snd p = [] \<Longrightarrow> fs_get fs p = Some (Dir 493)"
  by (simp add: fs_get_def)

lemma fs_get_upd: "fs_get (fmupd p n fs) q = (if q = p \<and> snd p \<noteq> [] then Some n else fs_get fs q)"
  by (auto simp: fs_get_def)

lemma fs_get_upd_other: "q \<noteq> p \<Longrightarrow> fs_get (fmupd p n fs) q = fs_get fs q"
  by (simp add: fs_get_upd)

lemma reg_not_root: "fs_get fs p = Some (Reg d m) \<Longrightarrow> snd p \<noteq> []"
  by (auto simp: fs_get_def split: if_splits)

lemma none_not_root: "fs_get fs p = None \<Longrightarrow> snd p \<noteq> []"
  by (auto simp: fs_get_def split: if_splits)

lemma is_reg_iff: "is_reg x \<longleftrightarrow> (\<exists>d m. x = Some (Reg d m))"
  by (cases x rule: is_reg.cases) auto

lemma is_dir_iff: "is_dir x \<longleftrightarrow> (\<exists>m. x = Some (Dir m))"
  by (cases x rule: is_dir.cases) auto

lemma fs_get_set_content:
  "fs_get (set_content p data fs) q =
     (if q = p \<and> is_reg (fs_get fs p) then Some (Reg data (node_mode (the (fs_get fs p)))) else fs_get fs q)"
  by (auto simp: set_content_def fs_get_upd is_reg_iff split: option.split fnode.split dest: reg_not_root)

section \<open>Writing keeps everything else\<close>

lemma open_trunc_keeps_fs [keeps_intro]:
  assumes "resolve path \<in> A" shows "keeps (changes_only A) (open_trunc E path perm)"
  unfolding open_trunc_def
  by (intro fs_frame.keeps_syscall, rule keepsI)
     (use assms in \<open>auto simp: go_run get_fs_def put_fs_def emit_def changes_only_def Let_def fs_get_upd
        split: option.splits fnode.splits outcome.splits\<close>)

lemma write_data_keeps_fs [keeps_intro]:
  assumes "resolve path \<in> A" shows "keeps (changes_only A) (write_data E path data)"
  by (rule keepsI)
     (use assms in \<open>auto simp: write_data_def go_run tick_def get_fs_def put_fs_def changes_only_def
        fs_get_set_content split: option.splits\<close>)

lemma WriteFile_keeps_fs [keeps_intro]:
  "resolve path \<in> A \<Longrightarrow> keeps (changes_only A) (os_WriteFile E path data perm)"
  unfolding os_WriteFile_def
  by (intro fs_frame.keeps_seqE open_trunc_keeps_fs write_data_keeps_fs)

lemma open_trunc_keeps_trace [keeps_intro]:
  assumes "P (EvWrite path)" shows "keeps (emits P) (open_trunc E path perm)"
  unfolding open_trunc_def
  by (intro trace_frame.keeps_syscall, rule keepsI)
     (use assms in \<open>auto simp: go_run get_fs_def put_fs_def emit_def emits_def Let_def
        split: option.splits fnode.splits outcome.splits\<close>)

lemma write_data_keeps_trace [keeps_intro]: "keeps (emits P) (write_data E path data)"
  by (rule keepsI) (auto simp: write_data_def go_run tick_def get_fs_def put_fs_def emits_def split: option.splits)

lemma WriteFile_keeps_trace [keeps_intro]:
  "P (EvWrite path) \<Longrightarrow> keeps (emits P) (os_WriteFile E path data perm)"
  unfolding os_WriteFile_def
  by (intro trace_frame.keeps_seqE open_trunc_keeps_trace write_data_keeps_trace)

lemma open_trunc_keeps_api [keeps_intro]: "keeps same_api (open_trunc E path perm)"
  unfolding open_trunc_def
  by (intro api_frame.keeps_syscall, rule keepsI)
     (auto simp: go_run get_fs_def put_fs_def emit_def same_api_def Let_def
        split: option.splits fnode.splits outcome.splits)

lemma write_data_keeps_api [keeps_intro]: "keeps same_api (write_data E path data)"
  by (rule keepsI) (auto simp: write_data_def go_run tick_def get_fs_def put_fs_def same_api_def split: option.splits)

lemma WriteFile_keeps_api [keeps_intro]: "keeps same_api (os_WriteFile E path data perm)"
  unfolding os_WriteFile_def
  by (intro api_frame.keeps_seqE open_trunc_keeps_api write_data_keeps_api)

lemma mkdir_one_keeps_fs [keeps_intro]:
  assumes "p \<in> A" shows "keeps (changes_only A) (mkdir_one E perm p)"
  by (rule keepsI)
     (use assms in \<open>auto simp: mkdir_one_def syscall_def go_run tick_def get_fs_def put_fs_def emit_def
        changes_only_def fs_get_upd split: option.splits fnode.splits\<close>)

lemma mkdir_one_keeps_trace [keeps_intro]:
  assumes "P (EvMkdir (render p))" shows "keeps (emits P) (mkdir_one E perm p)"
  by (rule keepsI)
     (use assms in \<open>auto simp: mkdir_one_def syscall_def go_run tick_def get_fs_def put_fs_def emit_def
        emits_def split: option.splits fnode.splits\<close>)

lemma mkdir_one_keeps_api [keeps_intro]: "keeps same_api (mkdir_one E perm p)"
  by (rule keepsI)
     (auto simp: mkdir_one_def syscall_def go_run tick_def get_fs_def put_fs_def emit_def
        same_api_def split: option.splits fnode.splits)

lemma MkdirAll_keeps_fs [keeps_intro]:
  "set (ancestors (resolve path)) \<subseteq> A \<Longrightarrow> keeps (changes_only A) (os_MkdirAll E path perm)"
  unfolding os_MkdirAll_def by (intro fs_frame.keeps_for_each mkdir_one_keeps_fs) auto

lemma MkdirAll_keeps_trace [keeps_intro]:
  "(\<And>p. p \<in> set (ancestors (resolve path)) \<Longrightarrow> P (EvMkdir (render p))) \<Longrightarrow>
     keeps (emits P) (os_MkdirAll E path perm)"
  unfolding os_MkdirAll_def by (intro trace_frame.keeps_for_each mkdir_one_keeps_trace) auto

lemma MkdirAll_keeps_api [keeps_intro]: "keeps same_api (os_MkdirAll E path perm)"
  unfolding os_MkdirAll_def by (intro api_frame.keeps_for_each mkdir_one_keeps_api)

section \<open>Files touched\<close>

text \<open>
  Outside \<open>A\<close> nothing happened, except that directories may have appeared where nothing was: what
  \<^verbatim>\<open>MkdirAll\<close> does everywhere (\<open>A = {}\<close>) and what a write does to its own path.
\<close>

definition touches :: "fpath set \<Rightarrow> world \<Rightarrow> world \<Rightarrow> bool" where
  "touches A w w' \<longleftrightarrow>
     (\<forall>p. p \<notin> A \<longrightarrow> fs_get (w_fs w') p = fs_get (w_fs w) p \<or>
                  (fs_get (w_fs w) p = None \<and> is_dir (fs_get (w_fs w') p)))"

interpretation touch_frame: tick_blind "touches A" for A
proof unfold_locales
  show "touches A s u" if "touches A s t" "touches A t u" for s t u
    using that unfolding touches_def by (metis is_dir.simps(3))
qed (simp_all add: touches_def)

lemma touchesD:
  "touches A w w' \<Longrightarrow> p \<notin> A \<Longrightarrow> fs_get (w_fs w') p = fs_get (w_fs w) p \<or>
     (fs_get (w_fs w) p = None \<and> is_dir (fs_get (w_fs w') p))"
  unfolding touches_def by blast

lemma touches_mono: "touches A w w' \<Longrightarrow> A \<subseteq> B \<Longrightarrow> touches B w w'"
  unfolding touches_def by blast

lemma changes_only_touches: "changes_only A w w' \<Longrightarrow> touches A w w'"
  unfolding touches_def changes_only_def by blast

lemma touches_keeps: "touches A w w' \<Longrightarrow> p \<notin> A \<Longrightarrow> fs_get (w_fs w) p = Some n \<Longrightarrow> fs_get (w_fs w') p = Some n"
  using touchesD [of A w w' p] by auto

lemma touches_reg_iff:
  "touches A w w' \<Longrightarrow> p \<notin> A \<Longrightarrow> fs_get (w_fs w') p = Some (Reg d m) \<longleftrightarrow> fs_get (w_fs w) p = Some (Reg d m)"
  using touchesD [of A w w' p] by auto

lemma touches_unless_dir:
  "touches A w w' \<Longrightarrow> p \<notin> A \<Longrightarrow> \<not> is_dir (fs_get (w_fs w') p) \<Longrightarrow> fs_get (w_fs w') p = fs_get (w_fs w) p"
  using touchesD [of A w w' p] by auto

lemma touches_is_dir: "touches A w w' \<Longrightarrow> p \<notin> A \<Longrightarrow> is_dir (fs_get (w_fs w) p) \<Longrightarrow> is_dir (fs_get (w_fs w') p)"
  using touchesD [of A w w' p] by auto

lemma mkdir_one_touches [keeps_intro]: "keeps (touches A) (mkdir_one E perm p)"
  by (rule keepsI)
     (auto simp: mkdir_one_def syscall_def go_run tick_def get_fs_def put_fs_def emit_def
        touches_def fs_get_upd split: option.splits fnode.splits)

lemma MkdirAll_touches [keeps_intro]: "keeps (touches A) (os_MkdirAll E path perm)"
  unfolding os_MkdirAll_def by (intro touch_frame.keeps_for_each mkdir_one_touches)

lemma emit_touches [keeps_intro]: "keeps (touches A) (emit e)"
  by (simp add: keeps_def emit_def touches_def)

lemma sleep_touches [keeps_intro]: "keeps (touches A) (time_sleep E d)"
  by (rule touch_frame.keeps_sleep [OF emit_touches])

lemma open_trunc_touches [keeps_intro]: "resolve path \<in> A \<Longrightarrow> keeps (touches A) (open_trunc E path perm)"
  by (rule keeps_mono [OF open_trunc_keeps_fs changes_only_touches])

lemma write_data_touches [keeps_intro]: "resolve path \<in> A \<Longrightarrow> keeps (touches A) (write_data E path data)"
  by (rule keeps_mono [OF write_data_keeps_fs changes_only_touches])

lemma WriteFile_touches [keeps_intro]: "resolve path \<in> A \<Longrightarrow> keeps (touches A) (os_WriteFile E path data perm)"
  by (rule keeps_mono [OF WriteFile_keeps_fs changes_only_touches])

text \<open>No operation but a removal turns a directory into a file or a file into a directory.\<close>

definition keeps_kinds :: "world \<Rightarrow> world \<Rightarrow> bool" where
  "keeps_kinds w w' \<longleftrightarrow> (\<forall>p. (is_dir (fs_get (w_fs w) p) \<longrightarrow> is_dir (fs_get (w_fs w') p)) \<and>
                          (is_reg (fs_get (w_fs w) p) \<longrightarrow> is_reg (fs_get (w_fs w') p)))"

interpretation kind_frame: tick_blind keeps_kinds
  by unfold_locales (auto simp: keeps_kinds_def)

lemma keeps_kinds_dir: "keeps_kinds w w' \<Longrightarrow> is_dir (fs_get (w_fs w) p) \<Longrightarrow> is_dir (fs_get (w_fs w') p)"
  unfolding keeps_kinds_def by blast

lemma mkdir_one_kinds [keeps_intro]: "keeps keeps_kinds (mkdir_one E perm p)"
  by (rule keepsI)
     (auto simp: mkdir_one_def syscall_def go_run tick_def get_fs_def put_fs_def emit_def
        keeps_kinds_def fs_get_upd split: option.splits fnode.splits)

lemma MkdirAll_kinds [keeps_intro]: "keeps keeps_kinds (os_MkdirAll E path perm)"
  unfolding os_MkdirAll_def by (intro kind_frame.keeps_for_each mkdir_one_kinds)

lemma open_trunc_kinds [keeps_intro]: "keeps keeps_kinds (open_trunc E path perm)"
  unfolding open_trunc_def
  by (intro kind_frame.keeps_syscall, rule keepsI)
     (auto simp: go_run get_fs_def put_fs_def emit_def keeps_kinds_def Let_def fs_get_upd
        split: option.splits fnode.splits outcome.splits)

lemma write_data_kinds [keeps_intro]: "keeps keeps_kinds (write_data E path data)"
  by (rule keepsI)
     (auto simp: write_data_def go_run tick_def get_fs_def put_fs_def keeps_kinds_def fs_get_set_content
        is_reg_iff split: option.splits)

lemma WriteFile_kinds [keeps_intro]: "keeps keeps_kinds (os_WriteFile E path data perm)"
  unfolding os_WriteFile_def by (intro kind_frame.keeps_seqE open_trunc_kinds write_data_kinds)

text \<open>A successful \<^verbatim>\<open>MkdirAll\<close> leaves a directory at its path.\<close>

lemma mkdir_one_okD:
  "mkdir_one E perm p s = (Ok u, s') \<Longrightarrow> is_dir (fs_get (w_fs s') p)"
  by (auto simp: mkdir_one_def syscall_def go_run tick_def get_fs_def put_fs_def emit_def fs_get_upd
      split: option.splits fnode.splits dest: none_not_root)

lemma MkdirAll_okD:
  assumes "os_MkdirAll E path perm s = (Ok u, s')"
  shows "is_dir (fs_get (w_fs s') (resolve path))"
proof (cases "snd (resolve path) = []")
  case True
  then show ?thesis by simp
next
  case False
  let ?p = "resolve path" and ?n = "length (snd (resolve path))"
  have "ancestors ?p = map (\<lambda>k. (fst ?p, take k (snd ?p))) [1..<?n] @ [?p]"
    using False by (simp add: ancestors_def upt_Suc_append [symmetric] del: upt_Suc)
      (simp add: upt_Suc Suc_le_eq)
  with assms obtain v where "mkdir_one E perm ?p v = (Ok (), s')"
    unfolding os_MkdirAll_def by (auto simp: for_each_append ok_iff)
  then show ?thesis by (rule mkdir_one_okD)
qed

section \<open>Successful calls\<close>

lemma syscall_okD:
  "syscall E op p m w = (Ok x, w') \<Longrightarrow> env_fault E (w_tick w) = None \<and> m (w\<lparr>w_tick := Suc (w_tick w)\<rparr>) = (Ok x, w')"
  by (auto simp: syscall_def go_run tick_def split: option.splits)

lemma ReadFile_okD:
  assumes "os_ReadFile E p w = (Ok d, w')"
  shows "\<exists>m. fs_get (w_fs w) (resolve p) = Some (Reg d m)" and "w_fs w' = w_fs w"
  using assms
  by (auto simp: os_ReadFile_def go_run syscall_def tick_def get_fs_def split: option.splits fnode.splits)

lemma ReadFile_fs: "os_ReadFile E p w = (r, w') \<Longrightarrow> w_fs w' = w_fs w"
  by (auto simp: os_ReadFile_def go_run syscall_def tick_def get_fs_def split: option.splits fnode.splits)

lemma Stat_okD:
  assumes "os_Stat E p w = (Ok i, w')"
  shows "\<exists>n. fs_get (w_fs w) (resolve p) = Some n \<and> fi_Mode i = node_mode n \<and> fi_IsDir i = is_dir (Some n)
           \<and> (\<forall>d m. n = Reg d m \<longrightarrow> fi_Size i = int (length d))"
    and "w_fs w' = w_fs w"
  using assms
  by (auto simp: os_Stat_def go_run syscall_def tick_def get_fs_def split: option.splits fnode.splits)

text \<open>The permission bits a written file ends up with: its own if it existed, else the masked ones.\<close>

definition written_mode :: "env \<Rightarrow> nat \<Rightarrow> fnode option \<Rightarrow> nat" where
  "written_mode E perm old = (case old of Some (Reg _ m) \<Rightarrow> m | _ \<Rightarrow> apply_umask E perm)"

lemma open_trunc_okD:
  assumes "open_trunc E path perm w = (Ok u, w')"
  shows "fs_get (w_fs w') (resolve path) =
           Some (Reg [] (written_mode E perm (fs_get (w_fs w) (resolve path))))"
    and "\<not> is_dir (fs_get (w_fs w) (resolve path))"
  using assms
  by (auto simp: open_trunc_def go_run syscall_def tick_def get_fs_def put_fs_def emit_def Let_def
      fs_get_upd written_mode_def split: option.splits fnode.splits if_splits
      dest: reg_not_root none_not_root)

lemma WriteFile_okD:
  assumes "os_WriteFile E path data perm w = (Ok u, w')"
  shows "fs_get (w_fs w') (resolve path) =
           Some (Reg data (written_mode E perm (fs_get (w_fs w) (resolve path))))"
proof -
  from assms obtain v where o: "open_trunc E path perm w = (Ok (), v)"
    and d: "write_data E path data v = (Ok u, w')"
    unfolding os_WriteFile_def by (auto simp: ok_iff)
  have "w_fs w' = set_content (resolve path) data (w_fs v)"
    using d by (auto simp: write_data_def go_run tick_def get_fs_def put_fs_def split: option.splits)
  then show ?thesis using open_trunc_okD(1) [OF o] by (simp add: fs_get_set_content)
qed

section \<open>No system call fails\<close>

definition no_faults :: "env \<Rightarrow> bool" where
  "no_faults E \<longleftrightarrow> (\<forall>t. env_fault E t = None)"

lemma no_faultsD [simp]: "no_faults E \<Longrightarrow> env_fault E t = None"
  by (simp add: no_faults_def)

lemma syscall_nf: "no_faults E \<Longrightarrow> syscall E op p m w = m (w\<lparr>w_tick := Suc (w_tick w)\<rparr>)"
  by (simp add: syscall_def go_run tick_def)

lemma ReadFile_nf:
  "no_faults E \<Longrightarrow> fs_get (w_fs w) (resolve p) = Some (Reg d m) \<Longrightarrow>
     os_ReadFile E p w = (Ok d, w\<lparr>w_tick := w_tick w + 2\<rparr>)"
  by (simp add: os_ReadFile_def syscall_nf go_run get_fs_def)

lemma ReadFile_missing:
  "no_faults E \<Longrightarrow> fs_get (w_fs w) (resolve p) = None \<Longrightarrow>
     \<exists>n. os_ReadFile E p w = (Err (PathError ''open'' p n), w\<lparr>w_tick := Suc (w_tick w)\<rparr>)"
  by (simp add: os_ReadFile_def syscall_nf go_run get_fs_def)

lemma WriteFile_nf:
  assumes "no_faults E" and "\<not> is_dir (fs_get (w_fs w) (resolve path))"
    and "fs_get (w_fs w) (resolve path) = None \<Longrightarrow> is_dir (fs_get (w_fs w) (parent (resolve path)))"
  shows "\<exists>w'. os_WriteFile E path data perm w = (Ok (), w')"
proof (cases "fs_get (w_fs w) (resolve path)")
  case None
  then show ?thesis using assms
    by (simp add: os_WriteFile_def open_trunc_def write_data_def syscall_nf go_run get_fs_def put_fs_def
        emit_def tick_def Let_def)
next
  case (Some n)
  then show ?thesis using assms
    by (cases n) (simp_all add: os_WriteFile_def open_trunc_def write_data_def syscall_nf go_run get_fs_def
        put_fs_def emit_def tick_def Let_def)
qed

end
