(* ===== verification/Go_Base64.thy ===== *)
theory Go_Base64
  imports Go_Prelude
begin

text \<open>
  \<^verbatim>\<open>base64.StdEncoding\<close> of \<^verbatim>\<open>encoding/base64\<close>: the standard alphabet with padding. The decoder skips
  line breaks, wants complete groups of four with the padding at the very end, and does not look at
  the bits that padding leaves over; the offset in its error text is not modelled.
\<close>

definition b64_char :: "nat \<Rightarrow> char" where
  "b64_char n =
     (if n < 26 then char_of (n + 65) else if n < 52 then char_of (n + 71) else if n < 62 then char_of (n - 4)
      else if n = 62 then CHR ''+'' else CHR ''/'')"

definition b64_value :: "char \<Rightarrow> nat option" where
  "b64_value c = (let n = of_char c in
     if 65 \<le> n \<and> n \<le> 90 then Some (n - 65) else if 97 \<le> n \<and> n \<le> 122 then Some (n - 71)
     else if 48 \<le> n \<and> n \<le> 57 then Some (n + 4) else if n = 43 then Some 62 else if n = 47 then Some 63 else None)"

definition pad_char :: char where "pad_char = CHR ''=''"

fun base64_encode :: "string \<Rightarrow> string" where
  "base64_encode [] = []"
| "base64_encode [a] = (let x = of_char a in [b64_char (x div 4), b64_char (x mod 4 * 16), pad_char, pad_char])"
| "base64_encode [a, b] = (let x = of_char a; y = of_char b in
     [b64_char (x div 4), b64_char (x mod 4 * 16 + y div 16), b64_char (y mod 16 * 4), pad_char])"
| "base64_encode (a # b # c # r) = (let x = of_char a; y = of_char b; z = of_char c in
     b64_char (x div 4) # b64_char (x mod 4 * 16 + y div 16) # b64_char (y mod 16 * 4 + z div 64) # b64_char (z mod 64) #
     base64_encode r)"

text \<open>The bytes of a group, from the values of its characters.\<close>

definition byte1 :: "nat \<Rightarrow> nat \<Rightarrow> char" where "byte1 p q = char_of (p * 4 + q div 16)"
definition byte2 :: "nat \<Rightarrow> nat \<Rightarrow> char" where "byte2 q r = char_of (q mod 16 * 16 + r div 4)"
definition byte3 :: "nat \<Rightarrow> nat \<Rightarrow> char" where "byte3 r s = char_of (r mod 4 * 64 + s)"

fun decode_groups :: "string \<Rightarrow> string option" where
  "decode_groups [] = Some []"
| "decode_groups (a # b # c # d # rest) =
     (case (b64_value a, b64_value b) of
        (Some p, Some q) \<Rightarrow>
          if c = pad_char then (if d = pad_char \<and> rest = [] then Some [byte1 p q] else None)
          else (case b64_value c of
             None \<Rightarrow> None
           | Some r \<Rightarrow>
               if d = pad_char then (if rest = [] then Some [byte1 p q, byte2 q r] else None)
               else (case (b64_value d, decode_groups rest) of
                  (Some s, Some bytes) \<Rightarrow> Some (byte1 p q # byte2 q r # byte3 r s # bytes)
                | _ \<Rightarrow> None))
      | _ \<Rightarrow> None)"
| "decode_groups _ = None"

definition line_break :: "char \<Rightarrow> bool" where
  "line_break c \<longleftrightarrow> c = CHR 0x0A \<or> c = CHR 0x0D"

definition base64_decode :: "string \<Rightarrow> goerr + string" where
  "base64_decode s = (case decode_groups (filter (\<lambda>c. \<not> line_break c) s) of
     None \<Rightarrow> Inl (ErrMsg ''illegal base64 data'') | Some bytes \<Rightarrow> Inr bytes)"

section \<open>The round trip\<close>

lemma b64_char_code: "n < 64 \<Longrightarrow> of_char (b64_char n) =
    (if n < 26 then n + 65 else if n < 52 then n + 71 else if n < 62 then n - 4 else if n = 62 then 43 else 47)"
  by (auto simp: b64_char_def)

lemma b64_value_char [simp]: "n < 64 \<Longrightarrow> b64_value (b64_char n) = Some n"
  by (auto simp: b64_value_def Let_def b64_char_code split: if_splits)

lemma of_pad: "of_char pad_char = (61 :: nat)" and of_breaks: "line_break c \<longleftrightarrow> of_char c \<in> {10, 13 :: nat}"
proof -
  show "of_char pad_char = (61 :: nat)" by (simp add: pad_char_def)
  have "c = CHR 0x0A \<longleftrightarrow> of_char c = (of_char (CHR 0x0A) :: nat)" "c = CHR 0x0D \<longleftrightarrow> of_char c = (of_char (CHR 0x0D) :: nat)"
    by (simp_all only: of_char_eq_iff)
  then show "line_break c \<longleftrightarrow> of_char c \<in> {10, 13 :: nat}" by (simp add: line_break_def)
qed

lemma b64_char_plain [simp]: "n < 64 \<Longrightarrow> b64_char n \<noteq> pad_char" "n < 64 \<Longrightarrow> \<not> line_break (b64_char n)" "\<not> line_break pad_char"
proof -
  assume "n < 64"
  then have "of_char (b64_char n) \<noteq> (61 :: nat)" "of_char (b64_char n) \<noteq> (10 :: nat)" "of_char (b64_char n) \<noteq> (13 :: nat)"
    by (auto simp: b64_char_code)
  then show "b64_char n \<noteq> pad_char" "\<not> line_break (b64_char n)"
    unfolding of_breaks using of_pad by (metis, simp only: insert_iff empty_iff simp_thms)
qed (simp add: of_breaks of_pad)

lemma byte_bound: "of_char (c :: char) < (256 :: nat)"
  by simp

lemma group_values [simp]:
  "of_char (a :: char) div 4 < (64 :: nat)" "of_char a mod 4 * 16 < (64 :: nat)" "of_char a mod 4 * 16 + of_char (b :: char) div 16 < (64 :: nat)"
  "of_char a mod 16 * 4 < (64 :: nat)" "of_char a mod 16 * 4 + of_char b div 64 < (64 :: nat)" "of_char a mod 64 < (64 :: nat)"
proof -
  have d: "x div 4 < 64 \<and> x div 16 < 16 \<and> x div 64 < 4" if "x < 256" for x :: nat
    using that by (intro conjI less_mult_imp_div_less) simp_all
  have arith: "p < 4 \<Longrightarrow> q < 16 \<Longrightarrow> p * 16 + q < 64" "q < 16 \<Longrightarrow> p < 4 \<Longrightarrow> q * 4 + p < 64" for p q :: nat by simp_all
  note a = d [OF byte_bound, of a] and b = d [OF byte_bound, of b]
  show "of_char (a :: char) div 4 < (64 :: nat)" using a by blast
  show "of_char a mod 4 * 16 + of_char (b :: char) div 16 < (64 :: nat)" by (rule arith(1)) (use b in simp_all)
  show "of_char a mod 16 * 4 + of_char b div 64 < (64 :: nat)" by (rule arith(2)) (use b in simp_all)
  show "of_char a mod 64 < (64 :: nat)" by simp
  show "of_char a mod 4 * 16 < (64 :: nat)" using arith(1) [of "of_char a mod 4" 0] by simp
  show "of_char a mod 16 * 4 < (64 :: nat)" using arith(2) [of "of_char a mod 16" 0] by simp
qed

lemma split_groups: "d < k \<Longrightarrow> (m * k + d) div k = m" "d < k \<Longrightarrow> (m * k + d) mod k = d" for d k m :: nat
  by simp_all

lemma group_bytes [simp]:
  "byte1 (of_char a div 4) (of_char a mod 4 * 16) = a" "byte1 (of_char a div 4) (of_char a mod 4 * 16 + of_char (b :: char) div 16) = a"
  "byte2 (of_char a mod 4 * 16 + of_char b div 16) (of_char b mod 16 * 4) = b"
  "byte2 (of_char a mod 4 * 16 + of_char b div 16) (of_char b mod 16 * 4 + of_char (c :: char) div 64) = b"
  "byte3 (of_char b mod 16 * 4 + of_char c div 64) (of_char c mod 64) = c"
proof -
  have "of_char b div 16 < (16 :: nat)" "of_char c div 64 < (4 :: nat)"
    using byte_bound [of b] byte_bound [of c] by (intro less_mult_imp_div_less; simp)+
  then show "byte1 (of_char a div 4) (of_char a mod 4 * 16) = a" "byte1 (of_char a div 4) (of_char a mod 4 * 16 + of_char (b :: char) div 16) = a"
    "byte2 (of_char a mod 4 * 16 + of_char b div 16) (of_char b mod 16 * 4) = b"
    "byte2 (of_char a mod 4 * 16 + of_char b div 16) (of_char b mod 16 * 4 + of_char (c :: char) div 64) = b"
    "byte3 (of_char b mod 16 * 4 + of_char c div 64) (of_char c mod 64) = c"
    by (simp_all only: byte1_def byte2_def byte3_def split_groups) simp_all
qed

lemma no_breaks: "filter (\<lambda>c. \<not> line_break c) (base64_encode s) = base64_encode s"
  by (induction s rule: base64_encode.induct) (simp_all add: Let_def)

lemma base64_roundtrip [simp]: "base64_decode (base64_encode s) = Inr s"
proof -
  have "decode_groups (base64_encode s) = Some s"
    by (induction s rule: base64_encode.induct) (simp_all add: Let_def)
  then show ?thesis by (simp add: base64_decode_def no_breaks)
qed

lemma base64_encode_Nil [simp]: "base64_encode s = [] \<longleftrightarrow> s = []"
  by (cases s rule: base64_encode.cases) (simp_all add: Let_def)

end
