(* ===== verification/Scenario.thy ===== *)
theory Scenario
  imports World_Lemmas Go_Base64
begin

text \<open>
  A concrete environment and a concrete control plane node, on which the theorems are tried out: no
  call fails, PEM is one leading character, the first byte of a certificate is the number of days
  it is valid for, and every YAML text that is not empty is a kubeconfig whose certificate is the
  text itself.
\<close>

definition base_time :: int where
  "base_time = 1700000000000000000"

definition calm_pem_decode :: "string \<Rightarrow> (string \<times> string) option" where
  "calm_pem_decode s =
     (case s of [] \<Rightarrow> None | c # bytes \<Rightarrow> if c = CHR ''P'' then Some (''CERTIFICATE'', bytes) else None)"

definition calm_parse_cert :: "string \<Rightarrow> goerr + certificate" where
  "calm_parse_cert b =
     (case b of
        [] \<Rightarrow> Inl (ErrMsg ''empty'')
      | c # _ \<Rightarrow> Inr (zero_certificate\<lparr>NotAfter := base_time + int (of_char c) * 86400000000000,
          Subject := zero_name\<lparr>CommonName := b\<rparr>, DNSNames := [b]\<rparr>))"

definition calm_yaml :: "string \<Rightarrow> goerr + json" where
  "calm_yaml y =
     (if y = '''' then Inr JNull
      else Inr (JObj [(''users'', JArr [JObj [(''user'', JObj [(''client-certificate-data'', JStr (base64_encode y))])]])]))"

definition calm_set_condition :: "condition list \<Rightarrow> condition \<Rightarrow> condition list" where
  "calm_set_condition cs c = filter (\<lambda>d. cond_Type d \<noteq> cond_Type c) cs @ [c]"

text \<open>A three-way merge: what the patch changes is set, the rest stays as the server has it.\<close>

definition calm_merge :: "cert_rotation_config \<Rightarrow> cert_rotation_config \<Rightarrow> cert_rotation_config \<Rightarrow> cert_rotation_config" where
  "calm_merge old new srv =
     (let a = config_Status old; b = config_Status new; s = config_Status srv in
      srv\<lparr>config_Status := \<lparr>
        status_Phase = (if status_Phase a = status_Phase b then status_Phase s else status_Phase b),
        status_LastCheckedAt = (if status_LastCheckedAt a = status_LastCheckedAt b then status_LastCheckedAt s else status_LastCheckedAt b),
        status_LastRenewedAt = (if status_LastRenewedAt a = status_LastRenewedAt b then status_LastRenewedAt s else status_LastRenewedAt b),
        status_Nodes = fmfilter (\<lambda>n. fmlookup (status_Nodes a) n = fmlookup (status_Nodes b) n) (status_Nodes s) ++\<^sub>f
          fmfilter (\<lambda>n. fmlookup (status_Nodes a) n \<noteq> fmlookup (status_Nodes b) n) (status_Nodes b),
        status_Conditions = (if status_Conditions a = status_Conditions b then status_Conditions s else status_Conditions b)\<rparr>\<rparr>)"

definition calm :: env where
  "calm = \<lparr>env_now = (\<lambda>t. base_time + int t), env_wake = (\<lambda>_ _. 0), env_fault = (\<lambda>_. None), env_short = (\<lambda>_. 0),
     env_umask = 0, env_mtime = (\<lambda>_ _. base_time), env_pick = (\<lambda>_. []), env_dial = (\<lambda>_ _. None),
     env_http_get = (\<lambda>_ _. Inr 200), env_http_post = (\<lambda>_ _ _. Inr 200), env_mail = (\<lambda>_ _. None),
     env_getenv = (\<lambda>_. ''''), env_zone = (\<lambda>_. 0), env_pem_decode = calm_pem_decode,
     env_pem_encode = (\<lambda>ty bytes. CHR ''P'' # bytes), env_parse_cert = calm_parse_cert,
     env_parse_pkcs1 = (\<lambda>b. Inr (RSAKey (length b))), env_parse_pkcs8 = (\<lambda>b. Inl (ErrMsg ''pkcs8'')),
     env_marshal_pkcs1 = (\<lambda>k. ''key''), env_gen_key = (\<lambda>t. Inr (RSAKey t)), env_rand_serial = (\<lambda>t. Inr (int t)),
     env_create_cert = (\<lambda>t template ca pub key. Inr (CHR 0xC8 # CommonName (Subject template))),
     env_yaml_to_json = calm_yaml, env_yaml_to_strings = calm_yaml, env_json_to_yaml = (\<lambda>j. Inr ''yaml''),
     env_api_fault = (\<lambda>_. None), env_others = (\<lambda>_ srv. srv), env_cached = (\<lambda>_ srv. srv), env_merge = calm_merge, env_set_condition = calm_set_condition\<rparr>"

text \<open>The same environment with the clock standing still.\<close>

definition frozen :: env where
  "frozen = calm\<lparr>env_now := (\<lambda>_. base_time)\<rparr>"

lemma calm_no_faults [simp]: "no_faults calm" "no_faults frozen"
  by (simp_all add: no_faults_def calm_def frozen_def)

text \<open>Evaluating the mask bit by bit is slow, and without a mask there is nothing to evaluate.\<close>

lemma apply_umask_code [code]: "apply_umask E perm = (if env_umask E = 0 then perm else perm - (perm AND env_umask E))"
  by (simp add: apply_umask_def)

text \<open>The node: its directories, certificates, kubeconfigs and manifests.\<close>

definition valid_cert :: string where "valid_cert = ''Pd''"

definition expiring_cert :: string where "expiring_cert = [CHR ''P'', CHR 0x05]"

definition pki_dir :: string where "pki_dir = ''/etc/kubernetes/pki''"

definition node_dirs :: "string list list" where
  "node_dirs = [[''etc''], [''etc'', ''kubernetes''], [''etc'', ''kubernetes'', ''pki''], [''etc'', ''kubernetes'', ''pki'', ''etcd''],
     [''etc'', ''kubernetes'', ''manifests''], [''var''], [''var'', ''backups'']]"

definition node_files :: "(string list \<times> string) list" where
  "node_files = map (\<lambda>f. ([''etc'', ''kubernetes'', ''pki''] @ f, valid_cert))
      [[''ca.crt''], [''ca.key''], [''apiserver-etcd-client.crt''], [''apiserver-etcd-client.key''],
       [''apiserver-kubelet-client.crt''], [''apiserver-kubelet-client.key''],
       [''front-proxy-ca.crt''], [''front-proxy-ca.key''], [''front-proxy-client.crt''], [''front-proxy-client.key''],
       [''etcd'', ''ca.crt''], [''etcd'', ''ca.key''], [''etcd'', ''server.crt''], [''etcd'', ''server.key''],
       [''etcd'', ''peer.crt''], [''etcd'', ''peer.key''],
       [''etcd'', ''healthcheck-client.crt''], [''etcd'', ''healthcheck-client.key'']]
    @ [([''etc'', ''kubernetes'', ''pki'', ''apiserver.crt''], expiring_cert), ([''etc'', ''kubernetes'', ''pki'', ''apiserver.key''], ''Pk'')]
    @ map (\<lambda>f. ([''etc'', ''kubernetes'', f], valid_cert)) [''admin.conf'', ''controller-manager.conf'', ''scheduler.conf'']
    @ map (\<lambda>f. ([''etc'', ''kubernetes'', ''manifests'', f], ''pod''))
        [''etcd.yaml'', ''kube-apiserver.yaml'', ''kube-controller-manager.yaml'', ''kube-scheduler.yml'']"

definition node_fs :: "(fpath, fnode) fmap" where
  "node_fs = fmap_of_list (map (\<lambda>d. ((True, d), Dir 493)) node_dirs @ map (\<lambda>(f, c). ((True, f), Reg c 384)) node_files)"

definition no_notifications :: notification_spec where
  "no_notifications = \<lparr>SMTP = \<lparr>SMTP_Enabled = False, SMTP_SecretRef = ''''\<rparr>,
     Slack = \<lparr>Slack_Enabled = False, Slack_SecretRef = ''''\<rparr>\<rparr>"

definition node_spec :: config_spec where
  "node_spec = \<lparr>ThresholdDays = 30, CheckIntervalHours = 24, DryRun = False, BackupDir = ''/var/backups'',
     BackupRetentionDays = 30, PKIDir = ''/etc/kubernetes/pki'', KubeconfigDir = ''/etc/kubernetes'',
     ManifestsDir = ''/etc/kubernetes/manifests'', HealthCheckTimeoutSeconds = 10, HealthCheckMaxAttempts = 3,
     Notifications = no_notifications\<rparr>"

definition node_cfg :: cert_rotation_config where
  "node_cfg = \<lparr>config_Name = ''cluster'', config_Spec = node_spec,
     config_Status = \<lparr>status_Phase = ClusterPhaseUnset, status_LastCheckedAt = None,
       status_LastRenewedAt = None, status_Nodes = fmempty, status_Conditions = []\<rparr>\<rparr>"

definition node_world :: world where
  "node_world = \<lparr>w_fs = node_fs, w_tick = 0, w_trace = [], w_cfg = node_cfg, w_server = Some node_cfg\<rparr>"

text \<open>The node without any file, for the runs on a few files.\<close>

definition blank_world :: world where
  "blank_world = \<lparr>w_fs = fmempty, w_tick = 0, w_trace = [], w_cfg = node_cfg, w_server = Some node_cfg\<rparr>"

text \<open>A smaller node, for the runs that visit every path: one certificate and one kubeconfig.\<close>

definition small_world :: world where
  "small_world = blank_world\<lparr>w_fs := fmap_of_list
     [((True, [''p'']), Dir 493), ((True, [''p'', ''etcd'']), Dir 493), ((True, [''b'']), Dir 493), ((True, [''k'']), Dir 493),
      ((True, [''p'', ''ca.crt'']), Reg ''Pd'' 384), ((True, [''k'', ''admin.conf'']), Reg ''Pd'' 384)]\<rparr>"

lemma run_eq: "fst m = x \<Longrightarrow> m = (x, snd m)"
  by (cases m) simp

end
