(* ===== verification/Go_Float.thy ===== *)
theory Go_Float
  imports Complex_Main Go_Prelude "HOL-Library.Log_Nat" "HOL-Library.Signed_Division"
begin

text \<open>
  The double-precision arithmetic behind \<^verbatim>\<open>Duration.Hours()\<close>: rounding of an exact rational to
  the nearest 53-bit significand, ties to even. Exponent range limits are not modelled, the
  program's values stay between \<open>2 ^ -42\<close> and \<open>2 ^ 22\<close> in magnitude.
\<close>

section \<open>Rounding to an integer\<close>

definition rne :: "rat \<Rightarrow> int" where
  "rne y = (let f = \<lfloor>y\<rfloor>; d = y - of_int f
            in if d < 1/2 then f else if d > 1/2 then f + 1 else if even f then f else f + 1)"

lemma rne_of_int [simp]: "rne (of_int k) = k"
  by (simp add: rne_def)

lemma rne_bounds: "\<lfloor>y\<rfloor> \<le> rne y \<and> rne y \<le> \<lfloor>y\<rfloor> + 1"
  by (simp add: rne_def Let_def)

lemma rne_mono: assumes "x \<le> y" shows "rne x \<le> rne y"
proof (cases "\<lfloor>x\<rfloor> = \<lfloor>y\<rfloor>")
  case True
  then show ?thesis using assms by (simp add: rne_def Let_def)
next
  case False
  then have "\<lfloor>x\<rfloor> + 1 \<le> \<lfloor>y\<rfloor>" using floor_mono [OF assms] by linarith
  then show ?thesis using rne_bounds [of x] rne_bounds [of y] by linarith
qed

section \<open>The binary exponent\<close>

text \<open>\<open>ilog2 x\<close> is the \<open>k\<close> with \<open>2 ^ k \<le> x < 2 ^ (k + 1)\<close>, computed from the lengths of
  numerator and denominator in bits.\<close>

definition pow2 :: "int \<Rightarrow> rat" where
  "pow2 k = (if 0 \<le> k then 2 ^ nat k else 1 / 2 ^ nat (- k))"

definition ilog2 :: "rat \<Rightarrow> int" where
  "ilog2 x = (let (p, q) = quotient_of x;
                  k = bitlen p - bitlen q
              in if pow2 k \<le> x then k else k - 1)"

lemma pow2_powi: "pow2 k = 2 powi k"
  by (simp add: pow2_def power_int_def power_one_over inverse_eq_divide)

lemma pow2_pos [simp]: "0 < pow2 k"
  by (simp add: pow2_powi)

lemma pow2_ge0 [simp]: "0 \<le> pow2 k"
  by (simp add: pow2_powi)

lemma pow2_ne0 [simp]: "pow2 k \<noteq> 0"
  by (simp add: pow2_powi)

lemma pow2_add: "pow2 (a + b) = pow2 a * pow2 b"
  by (simp add: pow2_powi power_int_add)

lemma pow2_Suc: "pow2 (a + 1) = 2 * pow2 a"
  by (simp add: pow2_powi power_int_add)

lemma pow2_diff: "pow2 (a - b) = pow2 a / pow2 b"
  using pow2_add [of "a - b" b] by simp

lemma pow2_mono: "a \<le> b \<Longrightarrow> pow2 a \<le> pow2 b"
  by (simp add: pow2_powi power_int_increasing)

lemma pow2_less_iff [simp]: "pow2 a < pow2 b \<longleftrightarrow> a < b"
proof
  assume "pow2 a < pow2 b"
  then show "a < b" by (metis linorder_not_less pow2_mono)
next
  assume "a < b"
  then have "pow2 (a + 1) \<le> pow2 b" by (intro pow2_mono) simp
  then show "pow2 a < pow2 b" using pow2_pos [of a] unfolding pow2_Suc by linarith
qed

lemma pow2_of_nat: "0 \<le> k \<Longrightarrow> pow2 k = of_int (2 ^ nat k)"
  by (simp add: pow2_def)

lemma bitlen_sandwich:
  assumes "0 < p"
  shows "pow2 (bitlen p - 1) \<le> of_int p" and "of_int p < pow2 (bitlen p)"
proof -
  have b: "2 ^ nat (bitlen p - 1) \<le> p" "p < 2 ^ nat (bitlen p)"
    using bitlen_bounds [OF assms] by auto
  have "1 \<le> bitlen p" using assms by (auto simp: bitlen_alt_def)
  then have e: "pow2 (bitlen p - 1) = of_int (2 ^ nat (bitlen p - 1))"
    "pow2 (bitlen p) = of_int (2 ^ nat (bitlen p))"
    by (simp_all add: pow2_of_nat)
  show "pow2 (bitlen p - 1) \<le> of_int p" unfolding e using b(1) by (simp only: of_int_le_iff)
  show "of_int p < pow2 (bitlen p)" unfolding e using b(2) by (simp only: of_int_less_iff)
qed

lemma ilog2_bounds:
  assumes "0 < x"
  shows "pow2 (ilog2 x) \<le> x" and "x < pow2 (ilog2 x + 1)"
proof -
  obtain p q where pq: "quotient_of x = (p, q)" by (cases "quotient_of x")
  have q: "0 < q" using pq by (rule quotient_of_denom_pos)
  have x: "x = of_int p / of_int q" using pq by (rule quotient_of_div)
  have p: "0 < p" using assms q unfolding x by (simp add: zero_less_divide_iff)
  let ?k = "bitlen p - bitlen q"
  have "pow2 ?k * pow2 (bitlen q) = pow2 (bitlen p)" by (simp flip: pow2_add)
  moreover have "x * of_int q = of_int p" using q x by simp
  moreover have "x * of_int q < x * pow2 (bitlen q)"
    using assms bitlen_sandwich(2) [OF q] by simp
  moreover have "x * pow2 (bitlen q - 1) \<le> x * of_int q"
    using assms bitlen_sandwich(1) [OF q] by simp
  ultimately have lo: "pow2 (?k - 1) * pow2 (bitlen q) < x * pow2 (bitlen q)"
    and hi: "x * pow2 (bitlen q - 1) < pow2 (?k + 1) * pow2 (bitlen q - 1)"
    using bitlen_sandwich [OF p] by (simp_all flip: pow2_add)
  from lo have "pow2 (?k - 1) < x" by simp
  moreover from hi have "x < pow2 (?k + 1)" by simp
  ultimately show "pow2 (ilog2 x) \<le> x" and "x < pow2 (ilog2 x + 1)"
    unfolding ilog2_def pq by (simp_all add: Let_def)
qed

lemma ilog2_unique:
  assumes "pow2 k \<le> x" and "x < pow2 (k + 1)" shows "ilog2 x = k"
proof -
  have x: "0 < x" using assms(1) pow2_pos [of k] by linarith
  have "pow2 (ilog2 x) < pow2 (k + 1)" using ilog2_bounds(1) [OF x] assms(2) by linarith
  moreover have "pow2 k < pow2 (ilog2 x + 1)" using ilog2_bounds(2) [OF x] assms(1) by linarith
  ultimately show ?thesis by simp
qed

section \<open>Rounding to double precision\<close>

definition f64_pos :: "rat \<Rightarrow> rat" where
  "f64_pos x = (let u = pow2 (ilog2 x - 52) in of_int (rne (x / u)) * u)"

definition f64 :: "rat \<Rightarrow> rat" where
  "f64 x = (if x = 0 then 0 else if 0 < x then f64_pos x else - f64_pos (- x))"

lemma f64_pos_bounds:
  assumes "0 < x"
  shows "pow2 (ilog2 x) \<le> f64_pos x" and "f64_pos x \<le> pow2 (ilog2 x + 1)"
proof -
  let ?u = "pow2 (ilog2 x - 52)"
  have e: "pow2 (ilog2 x) = of_int (2 ^ 52) * ?u" "pow2 (ilog2 x + 1) = of_int (2 ^ 53) * ?u"
    using pow2_add [of 52 "ilog2 x - 52"] pow2_add [of 53 "ilog2 x - 52"]
    by (simp_all add: pow2_def [of 52] pow2_def [of 53] add.commute)
  have "of_int (2 ^ 52) \<le> x / ?u" "x / ?u \<le> of_int (2 ^ 53)"
    using ilog2_bounds [OF assms] unfolding e by (simp_all add: pos_le_divide_eq pos_divide_le_eq)
  then have "2 ^ 52 \<le> rne (x / ?u)" "rne (x / ?u) \<le> 2 ^ 53"
    using rne_mono rne_of_int by metis+
  then have "(of_int (2 ^ 52) :: rat) \<le> of_int (rne (x / ?u))" "(of_int (rne (x / ?u)) :: rat) \<le> of_int (2 ^ 53)"
    by (simp_all only: of_int_le_iff)
  then show "pow2 (ilog2 x) \<le> f64_pos x" "f64_pos x \<le> pow2 (ilog2 x + 1)"
    unfolding e f64_pos_def Let_def by (auto intro!: mult_right_mono)
qed

lemma f64_pos_mono:
  assumes "0 < x" and "x \<le> y" shows "f64_pos x \<le> f64_pos y"
proof (cases "ilog2 x = ilog2 y")
  case True
  let ?u = "pow2 (ilog2 y - 52)"
  have "x / ?u \<le> y / ?u" using assms(2) pow2_pos less_imp_le by (metis divide_right_mono)
  then have "rne (x / ?u) \<le> rne (y / ?u)" by (rule rne_mono)
  then show ?thesis unfolding f64_pos_def True Let_def by (intro mult_right_mono) simp_all
next
  case False
  have y: "0 < y" using assms by simp
  have "pow2 (ilog2 x) < pow2 (ilog2 y + 1)"
    using ilog2_bounds(1) [OF assms(1)] ilog2_bounds(2) [OF y] assms(2) by linarith
  with False have "pow2 (ilog2 x + 1) \<le> pow2 (ilog2 y)" by (intro pow2_mono) simp
  then show ?thesis
    using f64_pos_bounds(2) [OF assms(1)] f64_pos_bounds(1) [OF y] by linarith
qed

lemma f64_pos_pos: "0 < x \<Longrightarrow> 0 < f64_pos x"
  using f64_pos_bounds(1) pow2_pos by (metis less_le_trans)

lemma f64_minus: "f64 (- x) = - f64 x"
  by (simp add: f64_def)

lemma f64_mono: assumes "x \<le> y" shows "f64 x \<le> f64 y"
proof -
  consider "0 < x" | "y < 0" | "x \<le> 0" "0 \<le> y" using assms by linarith
  then show ?thesis
  proof cases
    case 1
    then show ?thesis using assms f64_pos_mono by (simp add: f64_def)
  next
    case 2
    then show ?thesis using assms f64_pos_mono [of "- y" "- x"] by (simp add: f64_def)
  next
    case 3
    then show ?thesis using f64_pos_pos [of "- x"] f64_pos_pos [of y] by (auto simp: f64_def)
  qed
qed

text \<open>Every number with a significand of at most 53 bits is its own rounding.\<close>

lemma f64_pos_exact:
  assumes "0 < m" and "m \<le> 2 ^ 53"
  shows "f64_pos (of_int m * pow2 e) = of_int m * pow2 e"
proof -
  let ?x = "of_int m * pow2 e" and ?l = "ilog2 (of_int m * pow2 e)"
  have x: "0 < ?x" using assms(1) by simp
  have "\<exists>k. ?x / pow2 (?l - 52) = of_int k"
  proof (cases "?l - 52 \<le> e")
    case True
    then have "?x / pow2 (?l - 52) = of_int m * of_int (2 ^ nat (e - (?l - 52)))"
      by (simp only: times_divide_eq_right [symmetric] pow2_diff [symmetric] pow2_of_nat diff_ge_0_iff_ge)
    then have "?x / pow2 (?l - 52) = of_int (m * 2 ^ nat (e - (?l - 52)))" by simp
    then show ?thesis by blast
  next
    case False
    have "(of_int m :: rat) \<le> of_int (2 ^ 53)" using assms(2) by (simp only: of_int_le_iff)
    then have "?x \<le> of_int (2 ^ 53) * pow2 e" by (intro mult_right_mono) simp_all
    also have "\<dots> = pow2 (e + 53)" using pow2_add [of e 53] by (simp add: pow2_def [of 53])
    also have "\<dots> \<le> pow2 ?l" using False by (intro pow2_mono) simp
    finally have "?x = pow2 ?l" using ilog2_bounds(1) [OF x] by simp
    then have "?x / pow2 (?l - 52) = pow2 ?l / pow2 (?l - 52)" by simp
    also have "\<dots> = of_int (2 ^ 52)"
      using pow2_add [of 52 "?l - 52"] by (simp add: pow2_def [of 52])
    finally show ?thesis by blast
  qed
  then show ?thesis unfolding f64_pos_def Let_def by (metis nonzero_eq_divide_eq pow2_ne0 rne_of_int)
qed

lemma f64_exact:
  assumes "\<bar>m\<bar> \<le> 2 ^ 53" shows "f64 (of_int m * pow2 e) = of_int m * pow2 e"
proof -
  consider "m = 0" | "0 < m" | "m < 0" by linarith
  then show ?thesis
  proof cases
    case 2
    then show ?thesis using assms f64_pos_exact [of m e] by (simp add: f64_def zero_less_mult_iff)
  next
    case 3
    then have "f64 (of_int (- m) * pow2 e) = of_int (- m) * pow2 e"
      using assms f64_pos_exact [of "- m" e] by (simp add: f64_def zero_less_mult_iff mult_less_0_iff)
    then show ?thesis using f64_minus [of "of_int m * pow2 e"] by simp
  qed (simp add: f64_def)
qed

lemma f64_of_int: "\<bar>m\<bar> \<le> 2 ^ 53 \<Longrightarrow> f64 (of_int m) = of_int m"
  using f64_exact [of m 0] by (simp add: pow2_def)

section \<open>Durations\<close>

text \<open>\<^verbatim>\<open>time.Duration\<close> counts nanoseconds in an \<^verbatim>\<open>int64\<close>.\<close>

definition ns_second :: int where "ns_second = 1000000000"
definition ns_minute :: int where "ns_minute = 60 * ns_second"
definition ns_hour :: int where "ns_hour = 60 * ns_minute"

lemma ns_hour_eq [simp]: "ns_hour = 3600000000000"
  by (simp add: ns_hour_def ns_minute_def ns_second_def)

text \<open>\<^verbatim>\<open>t.Sub(u)\<close> on instants (nanoseconds since the epoch) saturates.\<close>

definition time_sub :: "int \<Rightarrow> int \<Rightarrow> int" where
  "time_sub t u = max (- (2 ^ 63)) (min (2 ^ 63 - 1) (t - u))"

text \<open>\<^verbatim>\<open>func (d Duration) Hours() float64\<close>: the whole hours plus the rest as a fraction.\<close>

definition hours :: "int \<Rightarrow> rat" where
  "hours d = f64 (of_int (d sdiv ns_hour) + f64 (of_int (d smod ns_hour) / of_int ns_hour))"

text \<open>\<^verbatim>\<open>int(f)\<close> of a \<^verbatim>\<open>float64\<close> truncates towards zero.\<close>

definition trunc :: "rat \<Rightarrow> int" where
  "trunc f = (if 0 \<le> f then \<lfloor>f\<rfloor> else \<lceil>f\<rceil>)"

lemma trunc_mono: "x \<le> y \<Longrightarrow> trunc x \<le> trunc y"
  by (auto simp: trunc_def floor_mono ceiling_mono) (meson ceiling_le_zero floor_le_iff le_floor_iff nle_le order_trans zero_le_floor)

lemma hours_nonneg:
  "0 \<le> d \<Longrightarrow> hours d = f64 (of_int (d div ns_hour) + f64 (of_int (d mod ns_hour) / of_int ns_hour))"
  by (simp add: hours_def signed_divide_int_def signed_modulo_int_def sgn_if minus_div_mult_eq_mod)

lemma f64_0 [simp]: "f64 0 = 0"
  by (simp add: f64_def)

lemma f64_1 [simp]: "f64 1 = 1"
  using f64_of_int [of 1] by simp

lemma hours_mono: assumes "0 \<le> d" and "d \<le> d'" shows "hours d \<le> hours d'"
proof -
  let ?H = "3600000000000 :: int"
  let ?frac = "\<lambda>d. f64 (of_int (d mod ?H) / of_int ?H)"
  have f0: "0 \<le> ?frac x" for x
    using f64_mono [of 0 "of_int (x mod ?H) / of_int ?H"] by simp
  have "x mod ?H \<le> ?H" for x by simp
  then have "(of_int (x mod ?H) :: rat) / of_int ?H \<le> 1" for x
    by (metis divide_le_eq_1_pos of_int_0_less_iff of_int_le_iff zero_less_numeral)
  then have f1: "?frac x \<le> 1" for x
    using f64_mono [of "of_int (x mod ?H) / of_int ?H" 1] by (metis f64_1)
  have "of_int (d div ?H) + ?frac d \<le> of_int (d' div ?H) + ?frac d'"
  proof (cases "d div ?H = d' div ?H")
    case True
    then have "d mod ?H \<le> d' mod ?H"
      using assms(2) by (metis minus_div_mult_eq_mod diff_mono order_refl)
    then have "(of_int (d mod ?H) :: rat) / of_int ?H \<le> of_int (d' mod ?H) / of_int ?H"
      by (simp add: divide_right_mono)
    then show ?thesis using True f64_mono by simp
  next
    case False
    then have "d div ?H + 1 \<le> d' div ?H" using zdiv_mono1 [OF assms(2), of ?H] by simp
    then have "(of_int (d div ?H) + 1 :: rat) \<le> of_int (d' div ?H)" by (metis of_int_1 of_int_add of_int_le_iff)
    then show ?thesis using f1 [of d] f0 [of d'] by linarith
  qed
  then show ?thesis using assms by (simp add: hours_nonneg f64_mono)
qed

lemma hours_whole: assumes "0 \<le> k" and "k \<le> 2 ^ 53" shows "hours (k * ns_hour) = of_int k"
  using assms f64_of_int [of k] by (simp add: hours_nonneg)

text \<open>One nanosecond below a whole number of hours is told apart from it, up to 2048 hours.\<close>

lemma hours_below:
  assumes "0 \<le> d" and "d < k * ns_hour" and "k \<le> 2048"
  shows "hours d \<le> of_int k - pow2 (- 42)"
proof -
  let ?H = "3600000000000 :: int"
  let ?d = "k * ?H - 1"
  have k: "0 < k" using assms(1,2) by (simp add: zero_less_mult_iff)
  have dv: "?d div ?H = k - 1"
  proof -
    have "?d = (?H - 1) + (k - 1) * ?H" by (simp add: algebra_simps)
    also have "\<dots> div ?H = (k - 1) + (?H - 1) div ?H" by (rule div_mult_self1) simp
    finally show ?thesis by simp
  qed
  have md: "?d mod ?H = ?H - 1"
    using minus_div_mult_eq_mod [of ?d ?H, symmetric] unfolding dv by (simp add: left_diff_distrib)
  have e42: "pow2 (- 42) = 1 / 4398046511104" by (simp add: pow2_def)
  have "f64 (of_int (?H - 1) / of_int ?H) \<le> f64 (of_int (2 ^ 42 - 1) * pow2 (- 42))"
    by (rule f64_mono) (simp add: e42)
  also have "\<dots> = of_int (2 ^ 42 - 1) * pow2 (- 42)" by (rule f64_exact) simp
  finally have frac: "f64 (of_int (?H - 1) / of_int ?H) \<le> 1 - pow2 (- 42)" by (simp add: e42)
  have m: "of_int (k * 2 ^ 42 - 1) * pow2 (- 42) = of_int k - pow2 (- 42)" by (simp add: e42 field_simps)
  have "\<bar>k * 2 ^ 42 - 1\<bar> \<le> 2 ^ 53" using assms(3) k by simp
  then have ex: "f64 (of_int k - pow2 (- 42)) = of_int k - pow2 (- 42)" using f64_exact [of "k * 2 ^ 42 - 1" "- 42"] m by simp
  have "hours d \<le> hours ?d" using assms(1,2) by (intro hours_mono) auto
  also have "\<dots> = f64 (of_int (k - 1) + f64 (of_int (?H - 1) / of_int ?H))"
    using k by (simp add: hours_nonneg dv md)
  also have "\<dots> \<le> f64 (of_int k - pow2 (- 42))" using frac by (intro f64_mono) simp
  finally show ?thesis using ex by simp
qed

lemma hours_nonpos: assumes "d \<le> 0" shows "hours d \<le> 0"
proof -
  let ?H = "3600000000000 :: int"
  have "d sdiv ?H \<le> 0" using assms by (auto simp: signed_divide_int_def sgn_if div_neg_pos_less0 pos_imp_zdiv_nonneg_iff)
  moreover have "d smod ?H \<le> 0"
  proof -
    have "d smod ?H = - ((- d) mod ?H)"
      using assms by (simp add: signed_modulo_int_def signed_divide_int_def sgn_if minus_div_mult_eq_mod [symmetric])
    then show ?thesis by simp
  qed
  then have "(of_int (d smod ?H) :: rat) / of_int ?H \<le> 0" by (simp add: divide_nonpos_pos)
  then have "f64 (of_int (d smod ?H) / of_int ?H) \<le> f64 0" by (rule f64_mono)
  then have "f64 (of_int (d smod ?H) / of_int ?H) \<le> 0" by simp
  moreover have "(of_int (d sdiv ?H) :: rat) \<le> 0 \<longleftrightarrow> d sdiv ?H \<le> 0" by (rule of_int_le_0_iff)
  ultimately have "of_int (d sdiv ?H) + f64 (of_int (d smod ?H) / of_int ?H) \<le> 0" by linarith
  then have "f64 (of_int (d sdiv ?H) + f64 (of_int (d smod ?H) / of_int ?H)) \<le> f64 0" by (rule f64_mono)
  then show ?thesis by (simp add: hours_def)
qed

end
