(* ===== verification/Go_Time.thy ===== *)
theory Go_Time
  imports Go_Float
begin

text \<open>
  Calendar dates and the two layouts the program formats instants with. A date is found by
  estimating its year from the average length and correcting by one, then walking the months.
\<close>

section \<open>The calendar\<close>

text \<open>Days from 0001-01-01 to the first day of year \<open>y\<close>.\<close>

definition days_before_year :: "int \<Rightarrow> int" where
  "days_before_year y = 365 * (y - 1) + (y - 1) div 4 - (y - 1) div 100 + (y - 1) div 400"

definition leap_year :: "int \<Rightarrow> bool" where
  "leap_year y \<longleftrightarrow> (4 dvd y \<and> \<not> 100 dvd y) \<or> 400 dvd y"

definition month_lengths :: "bool \<Rightarrow> int list" where
  "month_lengths leap = [31, if leap then 29 else 28, 31, 30, 31, 30, 31, 31, 30, 31, 30, 31]"

definition year_of_day :: "int \<Rightarrow> int" where
  "year_of_day z = (let y = 400 * z div 146097 + 1 in
     if z < days_before_year y then y - 1
     else if days_before_year (y + 1) \<le> z then y + 1 else y)"

fun find_month :: "int \<Rightarrow> int list \<Rightarrow> int \<Rightarrow> int \<times> int" where
  "find_month m [] d = (m, d + 1)"
| "find_month m (l # ls) d = (if d < l then (m, d + 1) else find_month (m + 1) ls (d - l))"

definition civil_date :: "int \<Rightarrow> int \<times> int \<times> int" where
  "civil_date z = (let y = year_of_day z in (y, find_month 1 (month_lengths (leap_year y)) (z - days_before_year y)))"

lemma div_pred: assumes "0 < (k::int)" shows "y div k = (y - 1) div k + (if k dvd y then 1 else 0)"
proof -
  define q where "q = y div k"
  define r where "r = y mod k"
  have y: "y = k * q + r" and r: "0 \<le> r" "r < k"
    using assms by (simp_all add: q_def r_def)
  have dvd: "k dvd y \<longleftrightarrow> r = 0" by (simp add: r_def dvd_eq_mod_eq_0)
  show ?thesis
  proof (cases "r = 0")
    case True
    then have "y - 1 = k * (q - 1) + (k - 1)" using y by (simp add: algebra_simps)
    then have "(y - 1) div k = q - 1" using assms by (intro int_div_pos_eq [of _ _ _ "k - 1"]) auto
    then show ?thesis using True dvd q_def by simp
  next
    case False
    then have "y - 1 = k * q + (r - 1)" using y by simp
    then have "(y - 1) div k = q" using r False by (intro int_div_pos_eq [of _ _ _ "r - 1"]) auto
    then show ?thesis using False dvd q_def by simp
  qed
qed

lemma days_before_year_Suc: "days_before_year (y + 1) = days_before_year y + (if leap_year y then 366 else 365)"
proof -
  have "(400::int) dvd y \<Longrightarrow> 100 dvd y" "(100::int) dvd y \<Longrightarrow> 4 dvd y"
    by (auto elim: dvd_trans [rotated])
  then show ?thesis
    using div_pred [of 4 y] div_pred [of 100 y] div_pred [of 400 y]
    by (auto simp: days_before_year_def leap_year_def)
qed

lemma div_bounds: "0 < (k::int) \<Longrightarrow> k * (a div k) \<le> a \<and> a < k * (a div k) + k"
  using pos_mod_bound [of k a] pos_mod_sign [of k a] mult_div_mod_eq [of k a] by linarith

lemma days_before_year_linear:
  "400 * days_before_year y \<le> 146097 * (y - 1) + 396"
  "146097 * (y - 1) - 699 \<le> 400 * days_before_year y"
proof -
  define p a b c where "p = y - 1" and "a = p div 4" and "b = p div 100" and "c = p div 400"
  have "4 * a \<le> p" "p < 4 * a + 4" "100 * b \<le> p" "p < 100 * b + 100" "400 * c \<le> p" "p < 400 * c + 400"
    using div_bounds [of 4 p] div_bounds [of 100 p] div_bounds [of 400 p] by (simp_all add: a_def b_def c_def)
  moreover have "days_before_year y = 365 * p + a - b + c"
    by (simp add: days_before_year_def p_def a_def b_def c_def)
  ultimately show "400 * days_before_year y \<le> 146097 * (y - 1) + 396"
    "146097 * (y - 1) - 699 \<le> 400 * days_before_year y" unfolding p_def [symmetric] by linarith+
qed

lemma year_of_day_bounds:
  "days_before_year (year_of_day z) \<le> z \<and> z < days_before_year (year_of_day z + 1)"
proof -
  define y where "y = 400 * z div 146097 + 1"
  have e: "146097 * (y - 1) \<le> 400 * z" "400 * z < 146097 * (y - 1) + 146097"
    using div_bounds [of 146097 "400 * z"] by (simp_all add: y_def)
  have lo: "days_before_year (y - 1) \<le> z"
    using e days_before_year_linear(1) [of "y - 1"] by (simp add: algebra_simps)
  have hi: "z < days_before_year (y + 2)"
    using e days_before_year_linear(2) [of "y + 2"] by (simp add: algebra_simps)
  show ?thesis unfolding year_of_day_def y_def [symmetric] Let_def
    using lo hi by (auto simp: algebra_simps)
qed

lemma find_month_inverse:
  "find_month m ls d = (m', d') \<Longrightarrow> m \<le> m' \<and> d = sum_list (take (nat (m' - m)) ls) + (d' - 1)"
proof (induction m ls d rule: find_month.induct)
  case (2 m l ls d)
  show ?case
  proof (cases "d < l")
    case True
    then show ?thesis using "2.prems" by auto
  next
    case False
    then have "m + 1 \<le> m'" "d - l = sum_list (take (nat (m' - (m + 1))) ls) + (d' - 1)"
      using "2.IH" "2.prems" by simp_all
    moreover from this(1) have "nat (m' - m) = Suc (nat (m' - (m + 1)))" by simp
    ultimately show ?thesis by simp
  qed
qed auto

lemma find_month_bounds:
  "find_month m ls d = (m', d') \<Longrightarrow> 0 \<le> d \<Longrightarrow> d < sum_list ls \<Longrightarrow> \<forall>l\<in>set ls. l \<le> 31 \<Longrightarrow>
     m \<le> m' \<and> m' < m + int (length ls) \<and> 1 \<le> d' \<and> d' \<le> 31"
proof (induction m ls d rule: find_month.induct)
  case (2 m l ls d)
  then show ?case by (cases "d < l") auto
qed auto

lemma civil_date_bounds:
  assumes "civil_date z = (y, m, d)" shows "1 \<le> m \<and> m \<le> 12 \<and> 1 \<le> d \<and> d \<le> 31"
proof -
  define ls where "ls = month_lengths (leap_year (year_of_day z))"
  have f: "find_month 1 ls (z - days_before_year (year_of_day z)) = (m, d)"
    using assms by (auto simp: civil_date_def Let_def ls_def)
  have "0 \<le> z - days_before_year (year_of_day z)" "z - days_before_year (year_of_day z) < sum_list ls"
    using year_of_day_bounds [of z] days_before_year_Suc [of "year_of_day z"]
    by (auto simp: ls_def month_lengths_def split: if_splits)
  moreover have "\<forall>l\<in>set ls. l \<le> 31" "length ls = 12" by (auto simp: ls_def month_lengths_def)
  ultimately show ?thesis using find_month_bounds [OF f] by simp
qed

lemma civil_date_inject: assumes "civil_date z = civil_date z'" shows "z = z'"
proof -
  obtain y m d where ymd: "civil_date z = (y, m, d)" by (metis prod_cases3)
  have y: "year_of_day z = y" "year_of_day z' = y"
    using ymd assms by (simp_all add: civil_date_def Let_def)
  let ?ls = "month_lengths (leap_year y)"
  have "find_month 1 ?ls (z - days_before_year y) = (m, d)"
    using ymd y(1) by (auto simp: civil_date_def Let_def)
  moreover have "find_month 1 ?ls (z' - days_before_year y) = (m, d)"
    using ymd assms y(2) by (auto simp: civil_date_def Let_def)
  ultimately show ?thesis by (auto dest!: find_month_inverse)
qed

section \<open>Fixed-width numerals\<close>

definition pad :: "nat \<Rightarrow> nat \<Rightarrow> string" where
  "pad w n = replicate (w - length (dec n)) (CHR ''0'') @ dec n"

definition digits_value :: "string \<Rightarrow> nat" where
  "digits_value s = foldl (\<lambda>v c. 10 * v + (of_char c - 48)) 0 s"

lemma digits_value_dec: "digits_value (dec n) = n"
proof (induction n rule: dec.induct)
  case (1 n)
  then show ?case by (cases "n < 10") (simp_all add: dec.simps [of n] digits_value_def)
qed

lemma digits_value_pad: "digits_value (pad w n) = n"
proof -
  have "foldl (\<lambda>v c. 10 * v + (of_char c - 48)) 0 (replicate k (CHR ''0'')) = (0 :: nat)" for k
    by (induction k) simp_all
  then show ?thesis using digits_value_dec [of n] by (simp add: pad_def digits_value_def)
qed

lemma pad_inject: "pad w n = pad w m \<Longrightarrow> n = m"
  by (metis digits_value_pad)

lemma length_dec: "n < 10 ^ w \<Longrightarrow> 0 < w \<Longrightarrow> length (dec n) \<le> w"
proof (induction n arbitrary: w rule: dec.induct)
  case (1 n)
  show ?case
  proof (cases "n < 10")
    case True
    then show ?thesis using "1.prems" by (simp add: dec.simps [of n])
  next
    case False
    obtain v where v: "w = Suc v" "0 < v"
      using "1.prems" False by (cases w rule: nat.exhaust, simp) (case_tac x2, auto)
    then have "n div 10 < 10 ^ v" using "1.prems" by auto
    then have "length (dec (n div 10)) \<le> v" using "1.IH" False v by simp
    then show ?thesis using False v by (simp add: dec.simps [of n])
  qed
qed

lemma length_pad: "n < 10 ^ w \<Longrightarrow> 0 < w \<Longrightarrow> length (pad w n) = w"
  using length_dec [of n w] by (simp add: pad_def)

section \<open>Layouts\<close>

text \<open>The fields of an instant (nanoseconds since 1970-01-01) in UTC.\<close>

definition days_of :: "int \<Rightarrow> int" where
  "days_of t = t div ns_second div 86400 + 719162"

definition clock_of :: "int \<Rightarrow> int" where
  "clock_of t = t div ns_second mod 86400"

definition layout :: "string \<Rightarrow> string \<Rightarrow> int \<Rightarrow> string" where
  "layout colon zone t =
     (case civil_date (days_of t) of (y, m, d) \<Rightarrow>
        pad 4 (nat y) @ ''-'' @ pad 2 (nat m) @ ''-'' @ pad 2 (nat d) @ ''T'' @
        pad 2 (nat (clock_of t div 3600)) @ colon @ pad 2 (nat (clock_of t div 60 mod 60)) @ colon @
        pad 2 (nat (clock_of t mod 60)) @ zone)"

text \<open>\<^verbatim>\<open>t.UTC().Format("2006-01-02T15-04-05Z")\<close>\<close>

definition backup_stamp :: "int \<Rightarrow> string" where
  "backup_stamp t = layout ''-'' ''Z'' t"

text \<open>\<^verbatim>\<open>t.UTC().Format(time.RFC3339)\<close>\<close>

definition rfc3339_utc :: "int \<Rightarrow> string" where
  "rfc3339_utc t = layout '':'' ''Z'' t"

text \<open>\<^verbatim>\<open>t.Format(time.RFC3339)\<close> in a zone that is \<open>off\<close> seconds east of UTC.\<close>

definition rfc3339 :: "int \<Rightarrow> int \<Rightarrow> string" where
  "rfc3339 off t =
     layout '':'' (if off = 0 then ''Z''
                   else (if off < 0 then ''-'' else ''+'') @ pad 2 (nat (\<bar>off\<bar> div 3600)) @ '':'' @
                        pad 2 (nat (\<bar>off\<bar> div 60 mod 60)))
       (t + off * ns_second)"

text \<open>The years whose four digits \<^verbatim>\<open>Format\<close> prints as they are.\<close>

definition printable_year :: "int \<Rightarrow> bool" where
  "printable_year t \<longleftrightarrow> 0 \<le> year_of_day (days_of t) \<and> year_of_day (days_of t) < 10000"

lemma append_pad_inject:
  assumes "pad w a @ xs = pad w b @ ys" and "a < 10 ^ w" and "b < 10 ^ w" and "0 < w"
  shows "a = b \<and> xs = ys"
proof -
  have "length (pad w a) = length (pad w b)" using assms by (simp add: length_pad)
  then show ?thesis using assms(1) pad_inject by auto
qed

text \<open>Two instants with the same stamp are in the same second.\<close>

lemma backup_stamp_inject:
  assumes eq: "backup_stamp t = backup_stamp t'" and "printable_year t" and "printable_year t'"
  shows "t div ns_second = t' div ns_second"
proof -
  obtain y m d where ymd: "civil_date (days_of t) = (y, m, d)" by (metis prod_cases3)
  obtain y' m' d' where ymd': "civil_date (days_of t') = (y', m', d')" by (metis prod_cases3)
  have y: "0 \<le> y" "y < 10000" "0 \<le> y'" "y' < 10000"
    using assms(2,3) ymd ymd' by (auto simp: printable_year_def civil_date_def Let_def)
  have c: "0 \<le> clock_of u" "clock_of u < 86400" for u by (simp_all add: clock_of_def)
  have clock: "clock_of u = 3600 * (clock_of u div 3600) + 60 * (clock_of u div 60 mod 60) + clock_of u mod 60" for u
  proof -
    have "clock_of u div 3600 = clock_of u div 60 div 60" by (simp flip: zdiv_zmult2_eq)
    then show ?thesis using mult_div_mod_eq [of 60 "clock_of u"] mult_div_mod_eq [of 60 "clock_of u div 60"] by linarith
  qed
  note b = civil_date_bounds [OF ymd] civil_date_bounds [OF ymd']
  have h: "nat (clock_of u div 3600) < 10 ^ 2" "nat (clock_of u div 60 mod 60) < 10 ^ 2"
    "nat (clock_of u mod 60) < 10 ^ 2" for u using c [of u] by (auto simp: nat_less_iff)
  from eq have s: "pad 4 (nat y) @ ''-'' @ pad 2 (nat m) @ ''-'' @ pad 2 (nat d) @ ''T'' @
        pad 2 (nat (clock_of t div 3600)) @ ''-'' @ pad 2 (nat (clock_of t div 60 mod 60)) @ ''-'' @
        pad 2 (nat (clock_of t mod 60)) @ ''Z'' =
      pad 4 (nat y') @ ''-'' @ pad 2 (nat m') @ ''-'' @ pad 2 (nat d') @ ''T'' @
        pad 2 (nat (clock_of t' div 3600)) @ ''-'' @ pad 2 (nat (clock_of t' div 60 mod 60)) @ ''-'' @
        pad 2 (nat (clock_of t' mod 60)) @ ''Z''"
    unfolding backup_stamp_def layout_def ymd ymd' by simp
  have 1: "nat y = nat y'" using append_pad_inject [OF s] y by (simp add: nat_less_iff)
  note s2 = s [unfolded 1, unfolded same_append_eq]
  have 2: "nat m = nat m'" using append_pad_inject [OF s2] b by (simp add: nat_less_iff)
  note s3 = s2 [unfolded 2, unfolded same_append_eq]
  have 3: "nat d = nat d'" using append_pad_inject [OF s3] b by (simp add: nat_less_iff)
  note s4 = s3 [unfolded 3, unfolded same_append_eq]
  have 4: "nat (clock_of t div 3600) = nat (clock_of t' div 3600)" using append_pad_inject [OF s4] h by simp
  note s5 = s4 [unfolded 4, unfolded same_append_eq]
  have 5: "nat (clock_of t div 60 mod 60) = nat (clock_of t' div 60 mod 60)" using append_pad_inject [OF s5] h by simp
  note s6 = s5 [unfolded 5, unfolded same_append_eq]
  have 6: "nat (clock_of t mod 60) = nat (clock_of t' mod 60)" using append_pad_inject [OF s6] h by simp
  have "0 \<le> clock_of u div 3600" "0 \<le> clock_of u div 60 mod 60" "0 \<le> clock_of u mod 60" for u
    using c [of u] by (simp_all add: pos_imp_zdiv_nonneg_iff)
  then have "clock_of t div 3600 = clock_of t' div 3600" "clock_of t div 60 mod 60 = clock_of t' div 60 mod 60"
    "clock_of t mod 60 = clock_of t' mod 60"
    using 4 5 6 by (metis nat_0_le)+
  then have "clock_of t = clock_of t'" using clock [of t] clock [of t'] by linarith
  moreover have "days_of t = days_of t'"
    using 1 2 3 y b ymd ymd' by (intro civil_date_inject) (simp add: eq_nat_nat_iff)
  ultimately have "t div ns_second div 86400 = t' div ns_second div 86400"
    "t div ns_second mod 86400 = t' div ns_second mod 86400"
    unfolding days_of_def clock_of_def by linarith+
  then show ?thesis by (metis mult_div_mod_eq)
qed

end
