(* ===== verification/Writer.thy ===== *)
theory Writer
  imports World_Lemmas
begin

text \<open>
  \<^verbatim>\<open>pkg/writer/writer.go\<close>: certificate and key files under the PKI directory, the table of their
  paths, writing a batch of pairs in map order and verifying what was written. The interface a
  batch relies on is the locale \<open>file_store\<close>, which the writer's own pair operation interprets.
\<close>

section \<open>The writer\<close>

record writer =
  writer_pkiDir :: string
  writer_dryRun :: bool

definition writer_New :: "string \<Rightarrow> bool \<Rightarrow> writer" where
  "writer_New pkiDir dryRun = \<lparr>writer_pkiDir = pkiDir, writer_dryRun = dryRun\<rparr>"

definition WriteCert :: "env \<Rightarrow> writer \<Rightarrow> string \<Rightarrow> string \<Rightarrow> unit go" where
  "WriteCert E w relPath certPEM =
     (let fullPath = filepath_Join [writer_pkiDir w, relPath] in
      if writer_dryRun w then ret ()
      else seqE (wrapE (''creating dir for '' @ fullPath) (os_MkdirAll E (filepath_Dir fullPath) 493)) (\<lambda>_.
           wrapE (''writing cert '' @ fullPath) (os_WriteFile E fullPath certPEM 420)))"

definition WriteKey :: "env \<Rightarrow> writer \<Rightarrow> string \<Rightarrow> string \<Rightarrow> unit go" where
  "WriteKey E w relPath keyPEM =
     (let fullPath = filepath_Join [writer_pkiDir w, relPath] in
      if writer_dryRun w then ret ()
      else seqE (wrapE (''creating dir for '' @ fullPath) (os_MkdirAll E (filepath_Dir fullPath) 493)) (\<lambda>_.
           wrapE (''writing key '' @ fullPath) (os_WriteFile E fullPath keyPEM 384)))"

definition WriteCertKeyPair :: "env \<Rightarrow> writer \<Rightarrow> string \<Rightarrow> string \<Rightarrow> string \<Rightarrow> string \<Rightarrow> unit go" where
  "WriteCertKeyPair E w relCertPath relKeyPath certPEM keyPEM =
     seqE (WriteCert E w relCertPath certPEM) (\<lambda>_. WriteKey E w relKeyPath keyPEM)"

definition CertPaths :: "(string \<times> string \<times> string) list" where
  "CertPaths =
     [(''apiserver'', ''apiserver.crt'', ''apiserver.key''),
      (''apiserver-etcd-client'', ''apiserver-etcd-client.crt'', ''apiserver-etcd-client.key''),
      (''apiserver-kubelet-client'', ''apiserver-kubelet-client.crt'', ''apiserver-kubelet-client.key''),
      (''front-proxy-client'', ''front-proxy-client.crt'', ''front-proxy-client.key''),
      (''etcd-server'', ''etcd/server.crt'', ''etcd/server.key''),
      (''etcd-peer'', ''etcd/peer.crt'', ''etcd/peer.key''),
      (''etcd-healthcheck-client'', ''etcd/healthcheck-client.crt'', ''etcd/healthcheck-client.key'')]"

text \<open>The body of the loop of \<^verbatim>\<open>WriteAllCerts\<close>, for one entry of the map.\<close>

definition write_named_pair :: "env \<Rightarrow> writer \<Rightarrow> string \<Rightarrow> string \<times> string \<Rightarrow> unit go" where
  "write_named_pair E w certName pems =
     (case map_of CertPaths certName of
        None \<Rightarrow> fail (ErrMsg (''unknown cert name: '' @ certName))
      | Some (certPath, keyPath) \<Rightarrow>
          wrapE (''writing cert pair for '' @ certName)
            (WriteCertKeyPair E w certPath keyPath (fst pems) (snd pems)))"

definition WriteAllCerts :: "env \<Rightarrow> writer \<Rightarrow> (string \<times> string \<times> string) list \<Rightarrow> unit go" where
  "WriteAllCerts E w pairs =
     seqE (map_range E pairs) (for_each (\<lambda>(certName, pems). write_named_pair E w certName pems))"

definition verify_file :: "env \<Rightarrow> writer \<Rightarrow> string \<Rightarrow> string \<Rightarrow> unit go" where
  "verify_file E w certName relPath =
     (let fullPath = filepath_Join [writer_pkiDir w, relPath] in
      seqE (wrapE (''cert file missing after write ['' @ certName @ '']: '' @ fullPath) (os_Stat E fullPath)) (\<lambda>info.
        if fi_Size info = 0
        then fail (ErrMsg (''cert file empty after write ['' @ certName @ '']: '' @ fullPath))
        else ret ()))"

definition Verify :: "env \<Rightarrow> writer \<Rightarrow> unit go" where
  "Verify E w =
     seqE (map_range E CertPaths) (for_each (\<lambda>(certName, certPath, keyPath).
       for_each (verify_file E w certName) [certPath, keyPath]))"

section \<open>The paths of the table\<close>

definition pair_files :: "string \<Rightarrow> string list" where
  "pair_files name = (case map_of CertPaths name of None \<Rightarrow> [] | Some (c, k) \<Rightarrow> [c, k])"

definition pki_path :: "string \<Rightarrow> string \<Rightarrow> fpath" where
  "pki_path dir rel = below dir (split_slash rel)"

definition plain_rel :: "string \<Rightarrow> bool" where
  "plain_rel rel \<longleftrightarrow> (\<forall>c\<in>set (split_slash rel). plain c)"

lemma resolve_pki: "plain_rel rel \<Longrightarrow> resolve (filepath_Join [dir, rel]) = pki_path dir rel"
  by (simp add: plain_rel_def pki_path_def resolve_Join)

lemma join_split_slash: "join_slash (split_slash s) = s"
proof (induction s)
  case (Cons c s)
  then show ?case by (cases "split_slash s" rule: join_slash.cases) auto
qed simp

lemma split_slash_inject [simp]: "split_slash a = split_slash b \<longleftrightarrow> a = b"
  by (metis join_split_slash)

lemma pki_path_inject [simp]: "pki_path dir a = pki_path dir b \<longleftrightarrow> a = b"
  by (simp add: pki_path_def)

lemma pki_path_not_root [simp]: "snd (pki_path dir rel) \<noteq> []"
  by (simp add: pki_path_def below_def)

lemma CertPaths_plain: "(name, c, k) \<in> set CertPaths \<Longrightarrow> plain_rel c \<and> plain_rel k \<and> c \<noteq> k"
  by (auto simp: CertPaths_def plain_rel_def plain_def)

lemma CertPaths_distinct: "distinct (map fst CertPaths)"
  by (simp add: CertPaths_def)

lemma CertPaths_files_distinct: "distinct (concat (map (\<lambda>(_, c, k). [c, k]) CertPaths))"
  by (simp add: CertPaths_def)

lemma CertPaths_disjoint:
  assumes "(n, c, k) \<in> set CertPaths" and "(n', c', k') \<in> set CertPaths" and "n \<noteq> n'"
  shows "c \<noteq> c' \<and> c \<noteq> k' \<and> k \<noteq> c' \<and> k \<noteq> k'"
  using assms by (auto simp: CertPaths_def)

section \<open>One file\<close>

text \<open>
  The two file operations differ in the permission bits and the error text only: the lemmas are
  shared through \<open>put_file\<close>.
\<close>

definition put_file :: "env \<Rightarrow> string \<Rightarrow> string \<Rightarrow> nat \<Rightarrow> string \<Rightarrow> string \<Rightarrow> unit go" where
  "put_file E what fullPath perm data dirWhat =
     seqE (wrapE dirWhat (os_MkdirAll E (filepath_Dir fullPath) 493)) (\<lambda>_.
       wrapE what (os_WriteFile E fullPath data perm))"

lemma WriteCert_put_file:
  "\<not> writer_dryRun w \<Longrightarrow> WriteCert E w rel data =
     put_file E (''writing cert '' @ filepath_Join [writer_pkiDir w, rel]) (filepath_Join [writer_pkiDir w, rel])
       420 data (''creating dir for '' @ filepath_Join [writer_pkiDir w, rel])"
  by (simp only: WriteCert_def put_file_def Let_def if_False)

lemma WriteKey_put_file:
  "\<not> writer_dryRun w \<Longrightarrow> WriteKey E w rel data =
     put_file E (''writing key '' @ filepath_Join [writer_pkiDir w, rel]) (filepath_Join [writer_pkiDir w, rel])
       384 data (''creating dir for '' @ filepath_Join [writer_pkiDir w, rel])"
  by (simp only: WriteKey_def put_file_def Let_def if_False)

lemma WriteFile_ok_not_dir:
  "os_WriteFile E path data perm w = (Ok u, w') \<Longrightarrow> \<not> is_dir (fs_get (w_fs w) (resolve path))"
  unfolding os_WriteFile_def by (auto simp: ok_iff dest: open_trunc_okD(2))

lemma put_file_okD:
  assumes "put_file E what path perm data dw s = (Ok u, s')"
  shows "fs_get (w_fs s') (resolve path) = Some (Reg data (written_mode E perm (fs_get (w_fs s) (resolve path))))"
    and "\<not> is_dir (fs_get (w_fs s) (resolve path))"
    and "q \<noteq> resolve path \<Longrightarrow> fs_get (w_fs s) q = Some n \<Longrightarrow> fs_get (w_fs s') q = Some n"
    and "q \<noteq> resolve path \<Longrightarrow> \<not> is_dir (fs_get (w_fs s') q) \<Longrightarrow> fs_get (w_fs s') q = fs_get (w_fs s) q"
proof -
  from assms obtain v where m: "os_MkdirAll E (filepath_Dir path) 493 s = (Ok (), v)"
    and wr: "os_WriteFile E path data perm v = (Ok u, s')"
    unfolding put_file_def by (auto simp: ok_iff)
  have adds: "touches {} s v" using keepsD [OF MkdirAll_touches m] .
  have nd: "\<not> is_dir (fs_get (w_fs v) (resolve path))" by (rule WriteFile_ok_not_dir [OF wr])
  have same: "fs_get (w_fs v) (resolve path) = fs_get (w_fs s) (resolve path)"
    using touches_unless_dir [OF adds _ nd] by simp
  show "fs_get (w_fs s') (resolve path) =
      Some (Reg data (written_mode E perm (fs_get (w_fs s) (resolve path))))"
    using WriteFile_okD [OF wr] same by simp
  show "\<not> is_dir (fs_get (w_fs s) (resolve path))" using nd same by simp
  have "touches {resolve path} v s'" using keepsD [OF WriteFile_touches wr, of "{resolve path}"] by simp
  then have only: "touches {resolve path} s s'"
    using touch_frame.kept_trans [OF touches_mono [OF adds]] by blast
  show "fs_get (w_fs s') q = Some n" if "q \<noteq> resolve path" "fs_get (w_fs s) q = Some n"
    using touches_keeps [OF only _ that(2)] that(1) by simp
  show "fs_get (w_fs s') q = fs_get (w_fs s) q" if "q \<noteq> resolve path" "\<not> is_dir (fs_get (w_fs s') q)"
    using touches_unless_dir [OF only _ that(2)] that(1) by simp
qed

section \<open>The interface of a store of files\<close>

text \<open>
  A client that stores values under names, and reads them back later, needs two laws: what was
  put is there, and putting under another name leaves it there.
\<close>

locale file_store =
  fixes valid :: "'k \<Rightarrow> bool"
    and put :: "'k \<Rightarrow> 'v \<Rightarrow> unit go"
    and look :: "'k \<Rightarrow> world \<Rightarrow> 'v option"
  assumes put_look: "valid k \<Longrightarrow> put k v s = (Ok u, s') \<Longrightarrow> look k s' = Some v"
    and put_other: "valid k \<Longrightarrow> valid k' \<Longrightarrow> k' \<noteq> k \<Longrightarrow> put k v s = (Ok u, s') \<Longrightarrow>
      look k' s = Some v' \<Longrightarrow> look k' s' = Some v'"
begin

lemma put_all_keeps:
  assumes "for_each (\<lambda>(k, v). put k v) kvs s = (Ok u, s')"
    and "\<forall>k\<in>fst ` set kvs. valid k" and "valid k'" and "k' \<notin> fst ` set kvs" and "look k' s = Some v'"
  shows "look k' s' = Some v'"
  using assms
proof (induction kvs arbitrary: s)
  case (Cons kv kvs)
  obtain k v where kv: "kv = (k, v)" by (cases kv)
  from Cons.prems(1) kv obtain t where "put k v s = (Ok (), t)"
    and "for_each (\<lambda>(k, v). put k v) kvs t = (Ok u, s')" by (auto simp: ok_iff)
  then show ?case using Cons.IH [of t] Cons.prems kv put_other [of k k' v s "()" t v'] by auto
qed (simp add: ok_iff)

lemma put_all_look:
  assumes "for_each (\<lambda>(k, v). put k v) kvs s = (Ok u, s')"
    and "\<forall>k\<in>fst ` set kvs. valid k" and "distinct (map fst kvs)" and "(k, v) \<in> set kvs"
  shows "look k s' = Some v"
  using assms
proof (induction kvs arbitrary: s)
  case (Cons kv kvs)
  obtain k1 v1 where kv: "kv = (k1, v1)" by (cases kv)
  from Cons.prems(1) kv obtain t where one: "put k1 v1 s = (Ok (), t)"
    and rest: "for_each (\<lambda>(k, v). put k v) kvs t = (Ok u, s')" by (auto simp: ok_iff)
  show ?case
  proof (cases "(k, v) = (k1, v1)")
    case True
    then have "look k t = Some v" using put_look [OF _ one] Cons.prems(2) kv by simp
    moreover have "k \<notin> fst ` set kvs" using Cons.prems(3) kv True by auto
    ultimately show ?thesis using put_all_keeps [OF rest] Cons.prems(2) kv True by simp
  next
    case False
    then show ?thesis using Cons.IH [OF rest] Cons.prems kv by auto
  qed
qed simp

end

text \<open>The writer's pair operation provides it: a name of the table holds a certificate and a key.\<close>

definition stored_pair :: "string \<Rightarrow> string \<Rightarrow> world \<Rightarrow> (string \<times> string) option" where
  "stored_pair dir name s =
     (case map_of CertPaths name of
        None \<Rightarrow> None
      | Some (c, k) \<Rightarrow>
          (case (fs_get (w_fs s) (pki_path dir c), fs_get (w_fs s) (pki_path dir k)) of
             (Some (Reg cd _), Some (Reg kd _)) \<Rightarrow> Some (cd, kd)
           | _ \<Rightarrow> None))"

lemma map_of_CertPaths: "map_of CertPaths name = Some (c, k) \<longleftrightarrow> (name, c, k) \<in> set CertPaths"
  using CertPaths_distinct by (metis Some_eq_map_of_iff)

lemma pair_okD:
  assumes run: "WriteCertKeyPair E (writer_New dir False) rc rk c k s = (Ok u, s')"
    and rel: "plain_rel rc" "plain_rel rk" "rc \<noteq> rk"
  shows "fs_get (w_fs s') (pki_path dir rc) =
           Some (Reg c (written_mode E 420 (fs_get (w_fs s) (pki_path dir rc))))"
    and "fs_get (w_fs s') (pki_path dir rk) =
           Some (Reg k (written_mode E 384 (fs_get (w_fs s) (pki_path dir rk))))"
    and "q \<noteq> pki_path dir rc \<Longrightarrow> q \<noteq> pki_path dir rk \<Longrightarrow> fs_get (w_fs s) q = Some n \<Longrightarrow>
           fs_get (w_fs s') q = Some n"
proof -
  have nd: "\<not> writer_dryRun (writer_New dir False)" "writer_pkiDir (writer_New dir False) = dir"
    by (simp_all add: writer_New_def)
  from run obtain t where
    one: "WriteCert E (writer_New dir False) rc c s = (Ok (), t)" and
    two: "WriteKey E (writer_New dir False) rk k t = (Ok u, s')"
    unfolding WriteCertKeyPair_def by (auto simp: ok_iff)
  note one' = put_file_okD [OF one [unfolded WriteCert_put_file [OF nd(1)]], unfolded nd(2) resolve_pki [OF rel(1)]]
  note two' = put_file_okD [OF two [unfolded WriteKey_put_file [OF nd(1)]], unfolded nd(2) resolve_pki [OF rel(2)]]
  show "fs_get (w_fs s') (pki_path dir rc) =
      Some (Reg c (written_mode E 420 (fs_get (w_fs s) (pki_path dir rc))))"
    using two'(3) [OF _ one'(1)] rel(3) by simp
  show "fs_get (w_fs s') q = Some n"
    if "q \<noteq> pki_path dir rc" "q \<noteq> pki_path dir rk" "fs_get (w_fs s) q = Some n"
    using that one'(3) two'(3) by blast
  have "fs_get (w_fs t) (pki_path dir rk) = fs_get (w_fs s) (pki_path dir rk)"
    using one'(4) [OF _ two'(2)] rel(3) by simp
  then show "fs_get (w_fs s') (pki_path dir rk) =
           Some (Reg k (written_mode E 384 (fs_get (w_fs s) (pki_path dir rk))))"
    using two'(1) by simp
qed

interpretation pki_store: file_store
    "\<lambda>name. name \<in> fst ` set CertPaths" "write_named_pair E (writer_New dir False)" "stored_pair dir" for E dir
proof unfold_locales
  fix name v s u s'
  assume "name \<in> fst ` set CertPaths"
    and run: "write_named_pair E (writer_New dir False) name v s = (Ok u, s')"
  then obtain c k where ck: "(name, c, k) \<in> set CertPaths" by auto
  note rel = CertPaths_plain [OF ck]
  have "WriteCertKeyPair E (writer_New dir False) c k (fst v) (snd v) s = (Ok u, s')"
    using run ck by (simp add: write_named_pair_def map_of_CertPaths [THEN iffD2] ok_iff)
  note ok = pair_okD [OF this]
  show "stored_pair dir name s' = Some v"
    using ok(1,2) rel ck by (simp add: stored_pair_def map_of_CertPaths [THEN iffD2])
next
  fix name name' v s u s' v'
  assume valid: "name \<in> fst ` set CertPaths" "name' \<in> fst ` set CertPaths" "name' \<noteq> name"
    and run: "write_named_pair E (writer_New dir False) name v s = (Ok u, s')"
    and old: "stored_pair dir name' s = Some v'"
  from valid obtain c k c' k' where ck: "(name, c, k) \<in> set CertPaths" "(name', c', k') \<in> set CertPaths"
    by auto
  note rel = CertPaths_plain [OF ck(1)] CertPaths_disjoint [OF ck(2,1) valid(3)]
  have "WriteCertKeyPair E (writer_New dir False) c k (fst v) (snd v) s = (Ok u, s')"
    using run ck(1) by (simp add: write_named_pair_def map_of_CertPaths [THEN iffD2] ok_iff)
  note ok = pair_okD(3) [OF this]
  show "stored_pair dir name' s' = Some v'"
    using old ok rel ck(2)
    by (auto simp: stored_pair_def map_of_CertPaths [THEN iffD2] split: option.splits fnode.splits)
qed

section \<open>Writing and verifying the batch\<close>

lemma write_named_pair_known:
  "write_named_pair E w name v s = (Ok u, s') \<Longrightarrow> name \<in> fst ` set CertPaths"
  unfolding write_named_pair_def
  by (cases "map_of CertPaths name") (auto simp: ok_iff map_of_CertPaths intro: rev_image_eqI)

lemma for_each_valid:
  assumes "for_each f xs s = (Ok u, s')" and "\<And>x t t' u. f x t = (Ok u, t') \<Longrightarrow> P x" and "x \<in> set xs"
  shows "P x"
  using assms by (induction xs arbitrary: s) (auto simp: ok_iff)

lemma WriteAllCerts_order:
  assumes "WriteAllCerts E w pairs s = (Ok u, s')"
  obtains kvs t where "mset kvs = mset pairs"
    and "for_each (\<lambda>(certName, pems). write_named_pair E w certName pems) kvs t = (Ok u, s')"
    and "w_fs t = w_fs s"
proof -
  from assms obtain t where
    "for_each (\<lambda>(certName, pems). write_named_pair E w certName pems)
       (shuffle (env_pick E (w_tick s)) pairs) t = (Ok u, s')" "w_fs t = w_fs s"
    unfolding WriteAllCerts_def map_range_def by (auto simp: ok_iff tick_def)
  then show ?thesis by (intro that [of "shuffle (env_pick E (w_tick s)) pairs" t]) simp_all
qed

text \<open>
  C19. A batch that \<^verbatim>\<open>WriteAllCerts\<close> wrote without an error is on disk afterwards: every entry
  of the map, whatever order the iteration took, has its certificate and its key in the two files
  of the path table; and every name of the map was a known one.\<close>

theorem WriteAllCerts_stores:
  assumes "WriteAllCerts E (writer_New dir False) pairs s = (Ok u, s')"
    and "distinct (map fst pairs)"
    and "(name, c, k) \<in> set pairs"
  shows "stored_pair dir name s' = Some (c, k) \<and> name \<in> fst ` set CertPaths"
proof -
  from assms(1) obtain kvs t where kvs: "mset kvs = mset pairs"
    and run: "for_each (\<lambda>(n, v). write_named_pair E (writer_New dir False) n v) kvs t = (Ok u, s')"
    by (rule WriteAllCerts_order)
  have set: "set kvs = set pairs" using kvs by (rule mset_eq_setD)
  have known: "\<forall>n\<in>fst ` set kvs. n \<in> fst ` set CertPaths"
    using for_each_valid [OF run, of "\<lambda>x. fst x \<in> fst ` set CertPaths"]
    by (force dest: write_named_pair_known)
  have "distinct (map fst kvs)"
    using assms(2) kvs by (metis mset_eq_imp_distinct_iff mset_map)
  then have "stored_pair dir name s' = Some (c, k)"
    using pki_store.put_all_look [OF run known] assms(3) set by simp
  then show ?thesis using known set assms(3) by force
qed

text \<open>\<^verbatim>\<open>Verify\<close> accepts an entry that exists and is not an empty file.\<close>

definition present :: "world \<Rightarrow> fpath \<Rightarrow> bool" where
  "present s p \<longleftrightarrow> (case fs_get (w_fs s) p of None \<Rightarrow> False | Some (Dir _) \<Rightarrow> True | Some (Reg d _) \<Rightarrow> d \<noteq> [])"

lemma Stat_nf:
  assumes "no_faults E"
  shows "os_Stat E p s = (case fs_get (w_fs s) (resolve p) of
      None \<Rightarrow> (Err (PathError ''stat'' p (missing_errno (w_fs s) (resolve p))), s\<lparr>w_tick := Suc (w_tick s)\<rparr>)
    | Some n \<Rightarrow> (Ok \<lparr>fi_Size = (case n of Dir _ \<Rightarrow> 4096 | Reg data _ \<Rightarrow> int (length data)),
         fi_Mode = node_mode n, fi_ModTime = env_mtime E (Suc (w_tick s)) p, fi_IsDir = is_dir (Some n)\<rparr>,
         s\<lparr>w_tick := w_tick s + 2\<rparr>))"
  using assms by (simp add: os_Stat_def syscall_nf go_run get_fs_def tick_def split: option.split)

lemma verify_file_nf:
  assumes "no_faults E" and "plain_rel rel"
  shows "\<exists>r s'. verify_file E (writer_New dir False) n rel s = (r, s') \<and> w_fs s' = w_fs s \<and>
           (r = Ok () \<longleftrightarrow> present s (pki_path dir rel))"
  using assms
  by (simp add: verify_file_def go_run Let_def Stat_nf resolve_pki present_def writer_New_def
      split: option.split fnode.split)

lemma for_each_check:
  assumes "\<And>x t. x \<in> set xs \<Longrightarrow> w_fs t = fs \<Longrightarrow> \<exists>r t'. f x t = (r, t') \<and> w_fs t' = fs \<and> (r = Ok () \<longleftrightarrow> P x)"
    and "w_fs s = fs"
  shows "\<exists>r s'. for_each f xs s = (r, s') \<and> w_fs s' = fs \<and> (r = Ok () \<longleftrightarrow> (\<forall>x\<in>set xs. P x))"
  using assms
proof (induction xs arbitrary: s)
  case (Cons x xs)
  have "\<exists>r t. f x s = (r, t) \<and> w_fs t = fs \<and> (r = Ok () \<longleftrightarrow> P x)"
    by (rule Cons.prems(1)) (simp_all add: Cons.prems(2))
  then obtain r t where x: "f x s = (r, t)" "w_fs t = fs" "r = Ok () \<longleftrightarrow> P x" by blast
  from Cons.IH [OF _ x(2)] Cons.prems(1) obtain r' t' where
    "for_each f xs t = (r', t')" "w_fs t' = fs" "r' = Ok () \<longleftrightarrow> (\<forall>x\<in>set xs. P x)"
    by (metis list.set_intros(2))
  with x show ?case by (cases r) (auto simp: seqE_run)
qed simp

text \<open>
  \<^verbatim>\<open>Verify\<close> decides its postcondition: when no system call fails it returns nil exactly
  when each of the fourteen files of the path table exists and is not empty, and it changes nothing.\<close>

theorem Verify_correct:
  assumes "no_faults E"
  shows "\<exists>r s'. Verify E (writer_New dir False) s = (r, s') \<and> w_fs s' = w_fs s \<and>
           (r = Ok () \<longleftrightarrow> (\<forall>(name, c, k)\<in>set CertPaths. present s (pki_path dir c) \<and> present s (pki_path dir k)))"
proof -
  define t where "t = s\<lparr>w_tick := Suc (w_tick s)\<rparr>"
  define xs where "xs = shuffle (env_pick E (w_tick s)) CertPaths"
  have set: "set xs = set CertPaths" by (simp add: xs_def)
  have present_cong: "present v p \<longleftrightarrow> present s p" if "w_fs v = w_fs s" for v p
    using that by (simp add: present_def)
  have body: "\<exists>r v'. (case x of (n, c, k) \<Rightarrow> for_each (verify_file E (writer_New dir False) n) [c, k]) v = (r, v')
      \<and> w_fs v' = w_fs s \<and> (r = Ok () \<longleftrightarrow> (case x of (n, c, k) \<Rightarrow> present s (pki_path dir c) \<and> present s (pki_path dir k)))"
    if x: "x \<in> set xs" and v: "w_fs v = w_fs s" for x v
  proof -
    obtain n c k where nck: "x = (n, c, k)" by (cases x)
    have "plain_rel c" "plain_rel k" using CertPaths_plain x set nck by blast+
    then have "\<exists>r v'. verify_file E (writer_New dir False) n rel u = (r, v') \<and> w_fs v' = w_fs s \<and>
        (r = Ok () \<longleftrightarrow> present s (pki_path dir rel))" if "rel \<in> set [c, k]" "w_fs u = w_fs s" for rel u
      using verify_file_nf [OF assms, of rel dir n u] that present_cong [OF that(2)] by auto
    from for_each_check [of "[c, k]" "w_fs s" "verify_file E (writer_New dir False) n"
        "\<lambda>rel. present s (pki_path dir rel)" v, OF this v]
    show ?thesis unfolding nck by simp
  qed
  have "w_fs t = w_fs s" by (simp add: t_def)
  from for_each_check [of xs "w_fs s" "\<lambda>(n, c, k). for_each (verify_file E (writer_New dir False) n) [c, k]"
      "\<lambda>(n, c, k). present s (pki_path dir c) \<and> present s (pki_path dir k)", OF body this]
  show ?thesis
    by (simp only: Verify_def map_range_def seqE_run tick_def ret_run t_def [symmetric] xs_def [symmetric]
        set prod.case outcome.case)
qed

text \<open>
  The permission bits of a key file: a key that \<^verbatim>\<open>WriteCertKeyPair\<close> creates gets 0600 (less
  the umask), but a key file that already existed keeps the bits it had. So replacing a
  world-readable key leaves the new key world-readable, whatever the log line about 0600 says.\<close>

theorem key_file_mode:
  assumes "WriteCertKeyPair E (writer_New dir False) rc rk c k s = (Ok u, s')"
    and "plain_rel rc" "plain_rel rk" "rc \<noteq> rk"
  shows "(\<forall>d m. fs_get (w_fs s) (pki_path dir rk) = Some (Reg d m) \<longrightarrow>
            fs_get (w_fs s') (pki_path dir rk) = Some (Reg k m)) \<and>
         (fs_get (w_fs s) (pki_path dir rk) = None \<longrightarrow>
            fs_get (w_fs s') (pki_path dir rk) = Some (Reg k (384 - (384 AND env_umask E))))"
  using pair_okD(2) [OF assms] by (simp add: written_mode_def apply_umask_def)

end
