(* ===== verification/Backup.thy ===== *)
theory Backup
  imports World_Lemmas Go_Time Writer
begin

text \<open>
  \<^verbatim>\<open>pkg/backup/backup.go\<close>: copying the PKI and kubeconfig files of a node into a directory named
  after the node and the time, copying them back, and removing old copies. A file that does not
  exist is skipped in both directions, any other error ends the operation.
\<close>

section \<open>The manager and its operations\<close>

definition pkiFiles :: "string list" where
  "pkiFiles =
     [''ca.crt'', ''ca.key'',
      ''apiserver.crt'', ''apiserver.key'',
      ''apiserver-etcd-client.crt'', ''apiserver-etcd-client.key'',
      ''apiserver-kubelet-client.crt'', ''apiserver-kubelet-client.key'',
      ''front-proxy-ca.crt'', ''front-proxy-ca.key'',
      ''front-proxy-client.crt'', ''front-proxy-client.key'',
      ''etcd/ca.crt'', ''etcd/ca.key'',
      ''etcd/server.crt'', ''etcd/server.key'',
      ''etcd/peer.crt'', ''etcd/peer.key'',
      ''etcd/healthcheck-client.crt'', ''etcd/healthcheck-client.key'']"

definition kubeconfigFiles :: "string list" where
  "kubeconfigFiles = [''admin.conf'', ''controller-manager.conf'', ''scheduler.conf'', ''super-admin.conf'']"

record backup =
  Backup_Node :: string
  BackupPath :: string
  CreatedAt :: int

record backup_manager =
  bm_backupDir :: string
  bm_pkiDir :: string
  bm_kubeconfigDir :: string

definition backup_New :: "string \<Rightarrow> string \<Rightarrow> string \<Rightarrow> backup_manager" where
  "backup_New backupDir pkiDir kubeconfigDir =
     \<lparr>bm_backupDir = backupDir, bm_pkiDir = pkiDir, bm_kubeconfigDir = kubeconfigDir\<rparr>"

definition copyFile :: "env \<Rightarrow> string \<Rightarrow> string \<Rightarrow> unit go" where
  "copyFile E src dst =
     seqE (os_Open E src) (\<lambda>_.
     seqE (file_Mode E src) (\<lambda>mode.
     seqE (open_trunc E dst mode) (\<lambda>_.
     io_Copy E dst src)))"

text \<open>The copy as the loops call it: a missing file is skipped, another error returned.\<close>

definition copy_or_skip :: "env \<Rightarrow> string \<Rightarrow> string \<Rightarrow> string \<Rightarrow> unit go" where
  "copy_or_skip E what src dst =
     bindE (copyFile E src dst)
       (\<lambda>e. if is_not_exist e then ret () else fail (Wrapf what e)) ret"

text \<open>\<^verbatim>\<open>Create\<close>: once the path is chosen from the clock, \<open>create_at\<close> is the rest of its body.\<close>

definition create_at :: "env \<Rightarrow> backup_manager \<Rightarrow> string \<Rightarrow> string \<Rightarrow> backup go" where
  "create_at E m node backupPath =
     (let pkiBackup = filepath_Join [backupPath, ''pki''];
          kubeconfigBackup = filepath_Join [backupPath, ''kubeconfigs''] in
       seqE (wrapE ''creating pki backup dir'' (os_MkdirAll E pkiBackup 448)) (\<lambda>_.
       seqE (wrapE ''creating kubeconfig backup dir'' (os_MkdirAll E kubeconfigBackup 448)) (\<lambda>_.
       seqE (for_each (\<lambda>rel.
               let src = filepath_Join [bm_pkiDir m, rel]; dst = filepath_Join [pkiBackup, rel] in
               seqE (wrapE (''creating subdir for '' @ rel) (os_MkdirAll E (filepath_Dir dst) 448)) (\<lambda>_.
               copy_or_skip E (''backing up '' @ rel) src dst)) pkiFiles) (\<lambda>_.
       seqE (for_each (\<lambda>filename.
               let src = filepath_Join [bm_kubeconfigDir m, filename];
                   dst = filepath_Join [kubeconfigBackup, filename] in
               copy_or_skip E (''backing up kubeconfig '' @ filename) src dst) kubeconfigFiles) (\<lambda>_.
       seqE (time_now E) (\<lambda>created.
       ret \<lparr>Backup_Node = node, BackupPath = backupPath, CreatedAt = created\<rparr>))))))"

definition backup_Create :: "env \<Rightarrow> backup_manager \<Rightarrow> string \<Rightarrow> backup go" where
  "backup_Create E m node =
     seqE (time_now E) (\<lambda>now. create_at E m node (filepath_Join [bm_backupDir m, node, backup_stamp now]))"

definition backup_Restore :: "env \<Rightarrow> backup_manager \<Rightarrow> string \<Rightarrow> unit go" where
  "backup_Restore E m backupPath =
     (let pkiBackup = filepath_Join [backupPath, ''pki''];
          kubeconfigBackup = filepath_Join [backupPath, ''kubeconfigs''] in
      seqE (for_each (\<lambda>rel.
              let src = filepath_Join [pkiBackup, rel]; dst = filepath_Join [bm_pkiDir m, rel] in
              seqE (wrapE (''creating pki subdir for restore '' @ rel) (os_MkdirAll E (filepath_Dir dst) 448)) (\<lambda>_.
              copy_or_skip E (''restoring '' @ rel) src dst)) pkiFiles) (\<lambda>_.
      for_each (\<lambda>filename.
              let src = filepath_Join [kubeconfigBackup, filename];
                  dst = filepath_Join [bm_kubeconfigDir m, filename] in
              copy_or_skip E (''restoring kubeconfig '' @ filename) src dst) kubeconfigFiles))"

text \<open>
  \<^verbatim>\<open>time.Now().AddDate(0, 0, n)\<close> goes \<open>n\<close> days on the local calendar and keeps the time of day there: the
  seconds that the local clock shows are moved, and turned back into an instant with the offset of
  the zone that \<^verbatim>\<open>time.Date\<close> finds, in 64-bit seconds counted from year 1. In a zone with one offset a day is
  24 hours.
\<close>

definition unix_to_internal :: int where
  "unix_to_internal = 62135596800"

definition add_days :: "env \<Rightarrow> int \<Rightarrow> int \<Rightarrow> int" where
  "add_days E t n =
     (let local = wrap64 (t div ns_second + env_zone E t + n * 86400);
          guess = env_zone E (local * ns_second);
          offset = env_zone E ((local - guess) * ns_second)
      in (wrap64 (local - offset + unix_to_internal) - unix_to_internal) * ns_second + t mod ns_second)"

definition in_range :: "int \<Rightarrow> bool" where
  "in_range sec \<longleftrightarrow> \<bar>sec\<bar> < 2 ^ 62"

lemma add_days_fixed_zone:
  assumes "\<And>s. env_zone E s = z" and "in_range (t div ns_second + z + n * 86400)" and "\<bar>z\<bar> \<le> 86400"
  shows "add_days E t n = t + n * 86400 * ns_second"
proof -
  let ?x = "t div ns_second + z + n * 86400"
  have "wrap64 ?x = ?x" and "wrap64 (?x - z + unix_to_internal) = ?x - z + unix_to_internal"
    using assms(2,3) by (intro wrap64_id; simp add: in_range_def unix_to_internal_def)+
  then have "add_days E t n = (t div ns_second + n * 86400) * ns_second + t mod ns_second"
    by (simp add: add_days_def assms(1) Let_def)
  also have "\<dots> = t div ns_second * ns_second + t mod ns_second + n * 86400 * ns_second" by (simp add: algebra_simps)
  finally show ?thesis by simp
qed

text \<open>
  Old backups are removed by modification time; errors of \<^verbatim>\<open>entry.Info()\<close> (an \<^verbatim>\<open>lstat\<close> of the
  entry) skip the entry, those of \<^verbatim>\<open>os.RemoveAll\<close> are ignored.
\<close>

definition cleanup_entry :: "env \<Rightarrow> backup_manager \<Rightarrow> string \<Rightarrow> int \<Rightarrow> string \<Rightarrow> unit go" where
  "cleanup_entry E m node cutoff name =
     (let path = filepath_Join [filepath_Join [bm_backupDir m, node], name] in
      bindE (os_Stat E path) (\<lambda>_. ret ()) (\<lambda>info.
        if fi_ModTime info < cutoff
        then bindE (os_RemoveAll E path) (\<lambda>_. ret ()) (\<lambda>_. ret ())
        else ret ()))"

definition backup_Cleanup :: "env \<Rightarrow> backup_manager \<Rightarrow> string \<Rightarrow> int \<Rightarrow> unit go" where
  "backup_Cleanup E m node keepDays =
     bindE (os_ReadDir E (filepath_Join [bm_backupDir m, node]))
       (\<lambda>e. if is_not_exist e then ret () else fail e)
       (\<lambda>entries. seqE (time_now E) (\<lambda>now.
          for_each (cleanup_entry E m node (add_days E now (- keepDays))) entries))"

section \<open>Copying one file\<close>

lemma copyFile_touches [keeps_intro]: "resolve dst \<in> A \<Longrightarrow> keeps (touches A) (copyFile E src dst)"
  unfolding copyFile_def
  by (intro touch_frame.keeps_seqE touch_frame.keeps_Open touch_frame.keeps_file_Mode
      open_trunc_touches touch_frame.keeps_io_Copy write_data_touches)

lemma copy_or_skip_touches [keeps_intro]: "resolve dst \<in> A \<Longrightarrow> keeps (touches A) (copy_or_skip E what src dst)"
  unfolding copy_or_skip_def
  by (intro touch_frame.keeps_bindE copyFile_touches)
     (auto intro: touch_frame.keeps_ret touch_frame.keeps_fail)

lemma Open_cases:
  assumes "os_Open E p s = (r, s')"
  shows "w_fs s' = w_fs s"
    and "r = Ok u \<Longrightarrow> fs_get (w_fs s) (resolve p) \<noteq> None"
    and "r = Err e \<Longrightarrow> is_not_exist e \<Longrightarrow> fs_get (w_fs s) (resolve p) = None"
  using assms
  by (auto simp: os_Open_def syscall_def go_run tick_def get_fs_def split: option.splits)

lemma file_Mode_cases:
  assumes "file_Mode E p s = (r, s')" and "fs_get (w_fs s) (resolve p) = Some n"
  shows "w_fs s' = w_fs s" and "r = Ok md \<Longrightarrow> md = node_mode n" and "r = Err e \<Longrightarrow> \<not> is_not_exist e"
    and "r \<noteq> Panic q"
  using assms
  by (auto simp: file_Mode_def syscall_def go_run tick_def get_fs_def split: option.splits)

lemma open_trunc_err:
  assumes "open_trunc E path perm s = (Err e, s')" and "is_not_exist e"
  shows "fs_get (w_fs s) (resolve path) = None \<and> \<not> is_dir (fs_get (w_fs s) (parent (resolve path)))"
  using assms
  by (auto simp: open_trunc_def go_run syscall_def tick_def get_fs_def put_fs_def emit_def Let_def
      split: option.splits fnode.splits if_splits)

lemma write_data_okD:
  "write_data E path data s = (Ok u, s') \<Longrightarrow> w_fs s' = set_content (resolve path) data (w_fs s)"
  by (auto simp: write_data_def go_run tick_def get_fs_def put_fs_def split: option.splits)

lemma write_data_err: "write_data E path data s = (Err e, s') \<Longrightarrow> \<not> is_not_exist e"
  by (auto simp: write_data_def go_run tick_def get_fs_def put_fs_def split: option.splits)

lemma copyFile_cases:
  assumes run: "copyFile E src dst s = (r, s')" and "resolve src \<noteq> resolve dst"
    and src: "fs_get (w_fs s) (resolve src) = Some (Reg d m)"
  shows "r = Ok u \<Longrightarrow> fs_get (w_fs s') (resolve dst) = Some (Reg d (written_mode E m (fs_get (w_fs s) (resolve dst))))"
    and "r = Err e \<Longrightarrow> is_not_exist e \<Longrightarrow>
           fs_get (w_fs s) (resolve dst) = None \<and> \<not> is_dir (fs_get (w_fs s) (parent (resolve dst)))"
proof -
  obtain r1 s1 where o: "os_Open E src s = (r1, s1)" by (cases "os_Open E src s")
  obtain r2 s2 where g: "file_Mode E src s1 = (r2, s2)" by (cases "file_Mode E src s1")
  have f1: "w_fs s1 = w_fs s" using Open_cases(1) [OF o] .
  have f2: "w_fs s2 = w_fs s" using file_Mode_cases(1) [OF g] f1 src by simp
  have src': "fs_get (w_fs t) (resolve src) = Some (Reg d m)"
    if "open_trunc E dst md s2 = (q, t)" for md q t
    using keepsD [OF open_trunc_keeps_fs that, of "{resolve dst}"] assms(2) src f2
    by (simp add: changes_only_def del: split_paired_All)
  have mode: "md = m" if "r2 = Ok md" for md
    using file_Mode_cases(2) [OF g _ that, of "Reg d m"] f1 src by simp
  { assume "r = Ok u"
    with run o g obtain md t where t0: "r2 = Ok md" "open_trunc E dst md s2 = (Ok (), t)" "io_Copy E dst src t = (Ok u, s')"
      unfolding copyFile_def by (auto simp: ok_iff)
    then have t: "open_trunc E dst m s2 = (Ok (), t)" "io_Copy E dst src t = (Ok u, s')" using mode by simp_all
    then have "write_data E dst d t = (Ok u, s')"
      using src' by (simp add: io_Copy_def go_run get_fs_def)
    from write_data_okD [OF this] open_trunc_okD(1) [OF t(1)]
    show "fs_get (w_fs s') (resolve dst) = Some (Reg d (written_mode E m (fs_get (w_fs s) (resolve dst))))"
      by (simp add: fs_get_set_content f2) }
  { assume "r = Err e" "is_not_exist e"
    have "\<exists>t. open_trunc E dst m s2 = (Err e, t)"
    proof (cases r1)
      case (Ok a)
      show ?thesis
      proof (cases r2)
        case (Ok md)
        then have md: "md = m" by (rule mode)
        obtain r3 t where t: "open_trunc E dst m s2 = (r3, t)" by (cases "open_trunc E dst m s2")
        show ?thesis
        proof (cases r3)
          case (Ok b)
          then have "write_data E dst d t = (Err e, s')"
            using run o g t \<open>r1 = outcome.Ok a\<close> \<open>r2 = outcome.Ok md\<close> md src' [OF t] \<open>r = Err e\<close>
            by (simp add: copyFile_def io_Copy_def go_run get_fs_def)
          then show ?thesis using write_data_err \<open>is_not_exist e\<close> by blast
        qed (use run o g t \<open>r1 = outcome.Ok a\<close> \<open>r2 = outcome.Ok md\<close> md \<open>r = Err e\<close>
             in \<open>simp_all add: copyFile_def go_run\<close>)
      next
        case (Err e')
        then have "e' = e" using run o g Ok \<open>r = outcome.Err e\<close> by (simp add: copyFile_def go_run)
        then show ?thesis using file_Mode_cases(3) [OF g] f1 src Err \<open>is_not_exist e\<close> by simp
      qed (use run o g Ok \<open>r = Err e\<close> in \<open>simp add: copyFile_def go_run\<close>)
    next
      case (Err e')
      then have "e' = e" using run o \<open>r = outcome.Err e\<close> by (simp add: copyFile_def go_run)
      then show ?thesis using Open_cases(3) [OF o] Err src \<open>is_not_exist e\<close> by simp
    qed (use run o \<open>r = Err e\<close> in \<open>simp add: copyFile_def go_run\<close>)
    then show "fs_get (w_fs s) (resolve dst) = None \<and> \<not> is_dir (fs_get (w_fs s) (parent (resolve dst)))"
      using open_trunc_err \<open>is_not_exist e\<close> f2 by metis }
qed

lemma copy_or_skip_okD:
  assumes "copy_or_skip E what src dst s = (Ok u, s')" and "resolve src \<noteq> resolve dst"
    and "fs_get (w_fs s) (resolve src) = Some (Reg d m)"
    and "is_dir (fs_get (w_fs s) (parent (resolve dst)))"
  shows "\<exists>m'. fs_get (w_fs s') (resolve dst) = Some (Reg d m')"
proof -
  obtain r t where c: "copyFile E src dst s = (r, t)" by (cases "copyFile E src dst s")
  show ?thesis
  proof (cases r)
    case (Ok v)
    then show ?thesis using assms c copyFile_cases(1) [OF c assms(2,3)] by (simp add: copy_or_skip_def go_run)
  next
    case (Err e)
    then show ?thesis using assms c copyFile_cases(2) [OF c assms(2,3)]
      by (auto simp: copy_or_skip_def go_run split: if_splits)
  qed (use assms c in \<open>simp add: copy_or_skip_def go_run\<close>)
qed

lemma copy_or_skip_kinds [keeps_intro]: "keeps keeps_kinds (copy_or_skip E what src dst)"
  unfolding copy_or_skip_def copyFile_def
  by (intro kind_frame.keeps_bindE kind_frame.keeps_seqE kind_frame.keeps_Open kind_frame.keeps_file_Mode
      open_trunc_kinds kind_frame.keeps_io_Copy write_data_kinds)
     (auto intro: kind_frame.keeps_ret kind_frame.keeps_fail)

section \<open>Copying many files\<close>

text \<open>
  The four loops of \<^verbatim>\<open>Create\<close> and \<^verbatim>\<open>Restore\<close> in one lemma: when the destinations are different
  from each other and from the sources, and each destination's directory is there when it is
  copied to, then a loop that returns nil has copied every source that is a file.
\<close>

definition copy_body :: "env \<Rightarrow> ('x \<Rightarrow> unit go) \<Rightarrow> ('x \<Rightarrow> string) \<Rightarrow> ('x \<Rightarrow> string) \<Rightarrow> ('x \<Rightarrow> string) \<Rightarrow> 'x \<Rightarrow> unit go" where
  "copy_body E pre what src dst x = seqE (pre x) (\<lambda>_. copy_or_skip E (what x) (src x) (dst x))"

lemma copy_body_touches:
  "keeps (touches {}) (pre x) \<Longrightarrow> resolve (dst x) \<in> A \<Longrightarrow> keeps (touches A) (copy_body E pre what src dst x)"
  unfolding copy_body_def
  by (intro touch_frame.keeps_seqE copy_or_skip_touches) (auto elim!: keeps_mono touches_mono)

lemma copy_loop:
  assumes run: "for_each (copy_body E pre what src dst) xs s = (Ok u, s')"
    and pre: "\<And>x. x \<in> set xs \<Longrightarrow> keeps (touches {}) (pre x)"
    and dir: "\<And>x t t'. x \<in> set xs \<Longrightarrow> touches ((\<lambda>x. resolve (dst x)) ` set xs) s t \<Longrightarrow> keeps_kinds s t \<Longrightarrow>
      pre x t = (Ok (), t') \<Longrightarrow> is_dir (fs_get (w_fs t') (parent (resolve (dst x))))"
    and kinds: "\<And>x. x \<in> set xs \<Longrightarrow> keeps keeps_kinds (pre x)"
    and inj: "\<And>x y. x \<in> set xs \<Longrightarrow> y \<in> set xs \<Longrightarrow> x \<noteq> y \<Longrightarrow> resolve (dst x) \<noteq> resolve (dst y)"
    and sep: "\<And>x y. x \<in> set xs \<Longrightarrow> y \<in> set xs \<Longrightarrow> resolve (src x) \<noteq> resolve (dst y)"
  shows "touches ((\<lambda>x. resolve (dst x)) ` set xs) s s'" and "keeps_kinds s s'"
    and "\<And>x d m. x \<in> set xs \<Longrightarrow> fs_get (w_fs s) (resolve (src x)) = Some (Reg d m) \<Longrightarrow>
           \<exists>m'. fs_get (w_fs s') (resolve (dst x)) = Some (Reg d m')"
proof -
  let ?D = "(\<lambda>x. resolve (dst x)) ` set xs"
  let ?I = "\<lambda>t. touches ?D s t \<and> keeps_kinds s t"
  let ?Q = "\<lambda>x t. \<forall>d m. fs_get (w_fs s) (resolve (src x)) = Some (Reg d m) \<longrightarrow>
    (\<exists>m'. fs_get (w_fs t) (resolve (dst x)) = Some (Reg d m'))"
  let ?body = "copy_body E pre what src dst"
  have body_touch: "touches {resolve (dst x)} t t'" if x: "x \<in> set xs" and b: "?body x t = (Ok (), t')" for x t t'
    by (rule keepsD [where m = "?body x", OF copy_body_touches b]) (simp_all add: pre x)
  have body_kinds: "keeps_kinds t t'" if x: "x \<in> set xs" and b: "?body x t = (Ok (), t')" for x t t'
    by (rule keepsD [where m = "?body x", OF _ b], unfold copy_body_def)
       (intro kind_frame.keeps_seqE copy_or_skip_kinds kinds x)
  have copied: "?Q x t'" if x: "x \<in> set xs" and I: "?I t" and b: "?body x t = (Ok (), t')" for x t t'
  proof (intro allI impI)
    fix d m assume d: "fs_get (w_fs s) (resolve (src x)) = Some (Reg d m)"
    from b obtain v where p: "pre x t = (Ok (), v)" and c: "copy_or_skip E (what x) (src x) (dst x) v = (Ok (), t')"
      unfolding copy_body_def by (auto simp: ok_iff)
    have "resolve (src x) \<notin> ?D" using sep x by blast
    then have "fs_get (w_fs t) (resolve (src x)) = Some (Reg d m)" using touches_keeps I d by blast
    then have "fs_get (w_fs v) (resolve (src x)) = Some (Reg d m)"
      using touches_keeps [OF keepsD [OF pre [OF x] p]] by blast
    then show "\<exists>m'. fs_get (w_fs t') (resolve (dst x)) = Some (Reg d m')"
      using copy_or_skip_okD [OF c] sep [OF x x] dir [OF x _ _ p] I by blast
  qed
  have "?I s' \<and> (\<forall>x\<in>set xs. ?Q x s')"
  proof (rule for_each_okD [OF run])
    show "?I s" by (simp add: touch_frame.kept_refl kind_frame.kept_refl)
    show "?I t' \<and> ?Q x t'" if x: "x \<in> set xs" and I: "?I t" and b: "?body x t = (Ok (), t')" for x t t'
    proof -
      have "touches ?D t t'" by (rule touches_mono [OF body_touch [OF x b]]) (simp add: x)
      then have "?I t'"
        using I touch_frame.kept_trans [of ?D s t t'] kind_frame.kept_trans [OF _ body_kinds [OF x b], of s] by simp
      then show ?thesis using copied [OF x I b] by blast
    qed
    show "?Q x t'" if x: "x \<in> set xs" and y: "y \<in> set xs" and I: "?I t" and Q: "?Q x t"
      and b: "?body y t = (Ok (), t')" for x y t t'
    proof (cases "x = y")
      case True
      then show ?thesis using copied [OF x I] b by blast
    next
      case False
      then have "resolve (dst x) \<notin> {resolve (dst y)}" using inj x y by simp
      then show ?thesis using Q touches_keeps [OF body_touch [OF y b]] by blast
    qed
  qed
  then show "touches ?D s s'" "keeps_kinds s s'"
    and "\<And>x d m. x \<in> set xs \<Longrightarrow> fs_get (w_fs s) (resolve (src x)) = Some (Reg d m) \<Longrightarrow>
           \<exists>m'. fs_get (w_fs s') (resolve (dst x)) = Some (Reg d m')" by blast+
qed

section \<open>The paths of a backup\<close>

definition source_paths :: "backup_manager \<Rightarrow> fpath set" where
  "source_paths m = pki_path (bm_pkiDir m) ` set pkiFiles \<union> pki_path (bm_kubeconfigDir m) ` set kubeconfigFiles"

definition pki_copy :: "string \<Rightarrow> string \<Rightarrow> fpath" where
  "pki_copy backupPath rel = below backupPath (''pki'' # split_slash rel)"

definition kube_copy :: "string \<Rightarrow> string \<Rightarrow> fpath" where
  "kube_copy backupPath f = below backupPath (''kubeconfigs'' # split_slash f)"

definition backup_paths :: "string \<Rightarrow> fpath set" where
  "backup_paths bp = pki_copy bp ` set pkiFiles \<union> kube_copy bp ` set kubeconfigFiles"

text \<open>No file is its own backup: the backup directory does not lie on the files it saves.\<close>

definition separate :: "backup_manager \<Rightarrow> string \<Rightarrow> bool" where
  "separate m bp \<longleftrightarrow> source_paths m \<inter> backup_paths bp = {}"

lemma plain_pkiFiles: "rel \<in> set pkiFiles \<Longrightarrow> plain_rel rel"
  by (auto simp: pkiFiles_def plain_rel_def plain_def)

lemma plain_kubeconfigFiles: "f \<in> set kubeconfigFiles \<Longrightarrow> plain_rel f \<and> split_slash f = [f]"
  by (auto simp: kubeconfigFiles_def plain_rel_def plain_def)

lemma last_components_differ:
  "rel \<in> set pkiFiles \<Longrightarrow> f \<in> set kubeconfigFiles \<Longrightarrow> last (split_slash rel) \<noteq> last (split_slash f)"
  by (auto simp: pkiFiles_def kubeconfigFiles_def)

lemma last_pki_path: "last (snd (pki_path d rel)) = last (split_slash rel)"
  by (simp add: pki_path_def below_def)

lemma pki_not_kube: "rel \<in> set pkiFiles \<Longrightarrow> f \<in> set kubeconfigFiles \<Longrightarrow> pki_path d rel \<noteq> pki_path d' f"
  using last_components_differ [of rel f] last_pki_path by metis

lemma pki_copy_not_kube_copy [simp]: "pki_copy bp rel \<noteq> kube_copy bp f" "kube_copy bp f \<noteq> pki_copy bp rel"
  by (simp_all add: pki_copy_def kube_copy_def)

lemma copies_inject [simp]:
  "pki_copy bp a = pki_copy bp b \<longleftrightarrow> a = b" "kube_copy bp a = kube_copy bp b \<longleftrightarrow> a = b"
  by (simp_all add: pki_copy_def kube_copy_def)

lemma below_sub:
  assumes "plain sub" shows "below (filepath_Join [bp, sub]) cs = below bp (sub # cs)"
proof -
  have "split_slash sub = [sub]" using assms by (simp add: plain_def split_slash_plain)
  then show ?thesis using assms below_Join [of sub bp cs] by simp
qed

lemma plain_subdirs: "plain ''pki''" "plain ''kubeconfigs''"
  by (simp_all add: plain_def)

lemma resolve_pki_copy:
  "plain_rel rel \<Longrightarrow> resolve (filepath_Join [filepath_Join [bp, ''pki''], rel]) = pki_copy bp rel"
  by (simp add: resolve_pki pki_path_def pki_copy_def below_sub plain_subdirs)

lemma resolve_kube_copy:
  "plain_rel rel \<Longrightarrow> resolve (filepath_Join [filepath_Join [bp, ''kubeconfigs''], rel]) = kube_copy bp rel"
  by (simp add: resolve_pki pki_path_def kube_copy_def below_sub plain_subdirs)

text \<open>\<^verbatim>\<open>filepath.Dir\<close> of a file under a directory is the parent of its path.\<close>

lemma resolve_Dir_Join:
  assumes "plain_rel rel"
  shows "resolve (filepath_Dir (filepath_Join [d, rel])) = parent (resolve (filepath_Join [d, rel]))"
proof -
  have p: "resolve (filepath_Join [d, rel]) = below d (split_slash rel)"
    using assms by (simp add: plain_rel_def resolve_Join)
  obtain cs c where cs: "split_slash rel = cs @ [c]" by (metis split_slash_nonempty rev_exhaust)
  have c: "plain c" using assms cs by (simp add: plain_rel_def)
  have "rel \<noteq> []"
  proof
    assume "rel = []"
    then show False using assms by (simp add: plain_rel_def plain_def)
  qed
  then have j: "filepath_Join [d, rel] = render (fst (resolve d), (snd (resolve d) @ cs) @ [c])"
    using Join_render [of rel d] unfolding p by (simp add: below_def cs)
  have "wf_fpath (fst (resolve d), (snd (resolve d) @ cs) @ [c])"
    using wf_below [of "split_slash rel" d] assms by (simp add: plain_rel_def below_def cs)
  from resolve_Dir [OF this c]
  have "resolve (filepath_Dir (filepath_Join [d, rel])) = (fst (resolve d), snd (resolve d) @ cs)"
    unfolding j .
  then show ?thesis unfolding p by (simp add: parent_def butlast_append below_def cs)
qed

lemma parent_single: "split_slash f = [f] \<Longrightarrow> parent (pki_path d f) = resolve d"
  by (simp add: parent_def pki_path_def below_def)

section \<open>The loops of Create and Restore\<close>

lemma seqE_ret [simp]: "seqE (ret x) k = k x"
  by (rule ext) (simp add: seqE_run)

lemma wrap_MkdirAll_touches: "keeps (touches A) (wrapE c (os_MkdirAll E path perm))"
  by (intro touch_frame.keeps_wrapE MkdirAll_touches)

lemma wrap_MkdirAll_kinds: "keeps keeps_kinds (wrapE c (os_MkdirAll E path perm))"
  by (intro kind_frame.keeps_wrapE MkdirAll_kinds)

lemma pki_copy_loop:
  assumes run: "for_each (\<lambda>rel.
       let src = filepath_Join [sd, rel]; dst = filepath_Join [dd, rel] in
       seqE (wrapE (c rel) (os_MkdirAll E (filepath_Dir dst) perm)) (\<lambda>_. copy_or_skip E (what rel) src dst)) pkiFiles s
     = (Ok u, s')"
    and sep: "pki_path sd ` set pkiFiles \<inter> pki_path dd ` set pkiFiles = {}"
  shows "touches (pki_path dd ` set pkiFiles) s s'" and "keeps_kinds s s'"
    and "rel \<in> set pkiFiles \<Longrightarrow> fs_get (w_fs s) (pki_path sd rel) = Some (Reg d m) \<Longrightarrow>
           \<exists>m'. fs_get (w_fs s') (pki_path dd rel) = Some (Reg d m')"
proof -
  define src where "src = (\<lambda>rel. filepath_Join [sd, rel])"
  define dst where "dst = (\<lambda>rel. filepath_Join [dd, rel])"
  define pre where "pre = (\<lambda>rel. wrapE (c rel) (os_MkdirAll E (filepath_Dir (dst rel)) perm))"
  have path: "resolve (src rel) = pki_path sd rel" "resolve (dst rel) = pki_path dd rel"
    if "rel \<in> set pkiFiles" for rel
    using resolve_pki [OF plain_pkiFiles [OF that]] by (simp_all add: src_def dst_def)
  have dsts: "(\<lambda>rel. resolve (dst rel)) ` set pkiFiles = pki_path dd ` set pkiFiles"
    by (rule image_cong) (simp_all add: path)
  have run': "for_each (copy_body E pre what src dst) pkiFiles s = (Ok u, s')"
    using run by (simp add: copy_body_def [abs_def] pre_def src_def dst_def Let_def)
  have dir: "is_dir (fs_get (w_fs t') (parent (resolve (dst rel))))"
    if rel: "rel \<in> set pkiFiles" and p: "pre rel t = (Ok (), t')" for rel t t'
    using MkdirAll_okD [of E "filepath_Dir (filepath_Join [dd, rel])" perm t "()" t'] p
      resolve_Dir_Join [OF plain_pkiFiles [OF rel], of dd]
    by (simp add: pre_def dst_def ok_iff)
  have no_overlap: "resolve (src x) \<noteq> resolve (dst y)" if "x \<in> set pkiFiles" "y \<in> set pkiFiles" for x y
    using that sep path by auto
  have pres: "keeps (touches {}) (pre x)" "keeps keeps_kinds (pre x)" for x
    by (simp_all add: pre_def wrap_MkdirAll_touches wrap_MkdirAll_kinds)
  have inj: "resolve (dst x) \<noteq> resolve (dst y)" if "x \<in> set pkiFiles" "y \<in> set pkiFiles" "x \<noteq> y" for x y
    using that path by simp
  have dir': "is_dir (fs_get (w_fs t') (parent (resolve (dst x))))"
    if "x \<in> set pkiFiles" "touches ((\<lambda>x. resolve (dst x)) ` set pkiFiles) s t" "keeps_kinds s t" "pre x t = (Ok (), t')"
    for x t t' using dir that(1,4) .
  note loop = copy_loop [where pre = pre, OF run' pres(1) dir' pres(2) inj no_overlap]
  show "touches (pki_path dd ` set pkiFiles) s s'"
    by (subst dsts [symmetric], rule loop(1)) assumption+
  show "keeps_kinds s s'" by (rule loop(2)) assumption+
  show "\<exists>m'. fs_get (w_fs s') (pki_path dd rel) = Some (Reg d m')"
    if "rel \<in> set pkiFiles" "fs_get (w_fs s) (pki_path sd rel) = Some (Reg d m)"
    unfolding path(2) [OF that(1), symmetric]
    by (rule loop(3)) (assumption | rule that(1) | simp add: path that)+
qed

lemma kube_copy_loop:
  assumes run: "for_each (\<lambda>f.
       let src = filepath_Join [sd, f]; dst = filepath_Join [dd, f] in copy_or_skip E (what f) src dst) kubeconfigFiles s
     = (Ok u, s')"
    and sep: "pki_path sd ` set kubeconfigFiles \<inter> pki_path dd ` set kubeconfigFiles = {}"
    and dir: "is_dir (fs_get (w_fs s) (resolve dd))"
  shows "touches (pki_path dd ` set kubeconfigFiles) s s'" and "keeps_kinds s s'"
    and "f \<in> set kubeconfigFiles \<Longrightarrow> fs_get (w_fs s) (pki_path sd f) = Some (Reg d m) \<Longrightarrow>
           \<exists>m'. fs_get (w_fs s') (pki_path dd f) = Some (Reg d m')"
proof -
  define src where "src = (\<lambda>rel. filepath_Join [sd, rel])"
  define dst where "dst = (\<lambda>rel. filepath_Join [dd, rel])"
  define pre :: "string \<Rightarrow> unit go" where "pre = (\<lambda>_. ret ())"
  have path: "resolve (src f) = pki_path sd f" "resolve (dst f) = pki_path dd f" "parent (pki_path dd f) = resolve dd"
    if "f \<in> set kubeconfigFiles" for f
    using resolve_pki [of f] plain_kubeconfigFiles [OF that] parent_single by (simp_all add: src_def dst_def)
  have dsts: "(\<lambda>rel. resolve (dst rel)) ` set kubeconfigFiles = pki_path dd ` set kubeconfigFiles"
    by (rule image_cong) (simp_all add: path)
  have run': "for_each (copy_body E pre what src dst) kubeconfigFiles s = (Ok u, s')"
    using run by (simp add: copy_body_def [abs_def] pre_def src_def dst_def Let_def)
  have dir': "is_dir (fs_get (w_fs t') (parent (resolve (dst f))))"
    if f: "f \<in> set kubeconfigFiles" and "touches ((\<lambda>x. resolve (dst x)) ` set kubeconfigFiles) s t"
      and k: "keeps_kinds s t" and p: "pre f t = (Ok (), t')" for f t t'
    using keeps_kinds_dir [OF k dir] p path [OF f] by (simp add: pre_def)
  have no_overlap: "resolve (src x) \<noteq> resolve (dst y)" if "x \<in> set kubeconfigFiles" "y \<in> set kubeconfigFiles" for x y
    using that sep path by auto
  have pres: "keeps (touches {}) (pre x)" "keeps keeps_kinds (pre x)" for x
    by (simp_all add: pre_def touch_frame.keeps_ret kind_frame.keeps_ret)
  have inj: "resolve (dst x) \<noteq> resolve (dst y)"
    if "x \<in> set kubeconfigFiles" "y \<in> set kubeconfigFiles" "x \<noteq> y" for x y
    using that path by simp
  note loop = copy_loop [where pre = pre, OF run' pres(1) dir' pres(2) inj no_overlap]
  show "touches (pki_path dd ` set kubeconfigFiles) s s'"
    by (subst dsts [symmetric], rule loop(1)) assumption+
  show "keeps_kinds s s'" by (rule loop(2)) assumption+
  show "\<exists>m'. fs_get (w_fs s') (pki_path dd f) = Some (Reg d m')"
    if "f \<in> set kubeconfigFiles" "fs_get (w_fs s) (pki_path sd f) = Some (Reg d m)"
    unfolding path(2) [OF that(1), symmetric]
    by (rule loop(3)) (assumption | rule that(1) | simp add: path that)+
qed

section \<open>Create and Restore\<close>

lemma pki_path_sub: "plain sub \<Longrightarrow> pki_path (filepath_Join [bp, sub]) rel = below bp (sub # split_slash rel)"
  by (simp add: pki_path_def below_sub)

lemma copies_are_paths:
  "pki_path (filepath_Join [bp, ''pki'']) rel = pki_copy bp rel"
  "pki_path (filepath_Join [bp, ''kubeconfigs'']) f = kube_copy bp f"
  by (simp_all add: pki_path_sub plain_subdirs pki_copy_def kube_copy_def)

lemma image_copies:
  "pki_path (filepath_Join [bp, ''pki'']) ` X = pki_copy bp ` X"
  "pki_path (filepath_Join [bp, ''kubeconfigs'']) ` X = kube_copy bp ` X"
  by (simp_all add: copies_are_paths)

lemma Create_okD:
  assumes run: "backup_Create E m node s = (Ok b, s')" and sep: "separate m (BackupPath b)"
  shows "rel \<in> set pkiFiles \<Longrightarrow> fs_get (w_fs s) (pki_path (bm_pkiDir m) rel) = Some (Reg d md) \<Longrightarrow>
      \<exists>md'. fs_get (w_fs s') (pki_copy (BackupPath b) rel) = Some (Reg d md')"
    and "f \<in> set kubeconfigFiles \<Longrightarrow> fs_get (w_fs s) (pki_path (bm_kubeconfigDir m) f) = Some (Reg d md) \<Longrightarrow>
      \<exists>md'. fs_get (w_fs s') (kube_copy (BackupPath b) f) = Some (Reg d md')"
proof -
  let ?bp = "BackupPath b"
  let ?pki = "filepath_Join [?bp, ''pki'']" and ?kube = "filepath_Join [?bp, ''kubeconfigs'']"
  from run obtain now s1 s2 s3 s4 s5 created where
    n: "time_now E s = (Ok now, s1)" and
    m1: "os_MkdirAll E ?pki 448 s1 = (Ok (), s2)" and
    m2: "os_MkdirAll E ?kube 448 s2 = (Ok (), s3)" and
    l1: "for_each (\<lambda>rel.
       let src = filepath_Join [bm_pkiDir m, rel]; dst = filepath_Join [?pki, rel] in
       seqE (wrapE (''creating subdir for '' @ rel) (os_MkdirAll E (filepath_Dir dst) 448))
         (\<lambda>_. copy_or_skip E (''backing up '' @ rel) src dst)) pkiFiles s3 = (Ok (), s4)" and
    l2: "for_each (\<lambda>f.
       let src = filepath_Join [bm_kubeconfigDir m, f]; dst = filepath_Join [?kube, f] in
       copy_or_skip E (''backing up kubeconfig '' @ f) src dst) kubeconfigFiles s4 = (Ok (), s5)" and
    n': "time_now E s5 = (Ok created, s')"
    unfolding backup_Create_def create_at_def by (auto simp: ok_iff Let_def)
  have sep1: "pki_path (bm_pkiDir m) ` set pkiFiles \<inter> pki_path ?pki ` set pkiFiles = {}"
    and sep2: "pki_path (bm_kubeconfigDir m) ` set kubeconfigFiles \<inter> pki_path ?kube ` set kubeconfigFiles = {}"
    using sep unfolding image_copies by (auto simp: separate_def source_paths_def backup_paths_def)
  have before: "fs_get (w_fs s3) p = Some (Reg d md)" if "fs_get (w_fs s) p = Some (Reg d md)" for p d md
    using touches_keeps [OF keepsD [OF touch_frame.keeps_time_now n]] that
      touches_keeps [OF keepsD [OF MkdirAll_touches m1]] touches_keeps [OF keepsD [OF MkdirAll_touches m2]]
    by (metis empty_iff)
  have dir: "is_dir (fs_get (w_fs s4) (resolve ?kube))"
    using keeps_kinds_dir [OF pki_copy_loop(2) [OF l1 sep1]] MkdirAll_okD [OF m2] by blast
  have t2: "touches (kube_copy ?bp ` set kubeconfigFiles) s4 s5"
    using kube_copy_loop(1) [OF l2 sep2 dir] unfolding image_copies .
  have after: "fs_get (w_fs s') p = fs_get (w_fs s5) p" for p
    using keepsD [OF fs_frame.keeps_time_now [of "{}"] n'] by (cases p) (simp add: changes_only_def)
  { assume rel: "rel \<in> set pkiFiles" and d: "fs_get (w_fs s) (pki_path (bm_pkiDir m) rel) = Some (Reg d md)"
    from pki_copy_loop(3) [OF l1 sep1 rel before [OF d]]
    obtain md' where "fs_get (w_fs s4) (pki_copy ?bp rel) = Some (Reg d md')" unfolding copies_are_paths by blast
    then have "fs_get (w_fs s5) (pki_copy ?bp rel) = Some (Reg d md')"
      by (rule touches_keeps [OF t2, rotated]) auto
    then show "\<exists>md'. fs_get (w_fs s') (pki_copy ?bp rel) = Some (Reg d md')" unfolding after by blast }
  { assume f: "f \<in> set kubeconfigFiles" and d: "fs_get (w_fs s) (pki_path (bm_kubeconfigDir m) f) = Some (Reg d md)"
    have "pki_path (bm_kubeconfigDir m) f \<notin> pki_copy ?bp ` set pkiFiles"
      using sep f by (auto simp: separate_def source_paths_def backup_paths_def)
    then have "fs_get (w_fs s4) (pki_path (bm_kubeconfigDir m) f) = Some (Reg d md)"
      using touches_keeps [OF pki_copy_loop(1) [OF l1 sep1] _ before [OF d]] unfolding image_copies by blast
    from kube_copy_loop(3) [OF l2 sep2 dir f this]
    show "\<exists>md'. fs_get (w_fs s') (kube_copy ?bp f) = Some (Reg d md')"
      unfolding after copies_are_paths . }
qed

lemma Restore_okD:
  assumes run: "backup_Restore E m bp s = (Ok u, s')" and sep: "separate m bp"
    and kube_dir: "is_dir (fs_get (w_fs s) (resolve (bm_kubeconfigDir m)))"
  shows "rel \<in> set pkiFiles \<Longrightarrow> fs_get (w_fs s) (pki_copy bp rel) = Some (Reg d md) \<Longrightarrow>
      \<exists>md'. fs_get (w_fs s') (pki_path (bm_pkiDir m) rel) = Some (Reg d md')"
    and "f \<in> set kubeconfigFiles \<Longrightarrow> fs_get (w_fs s) (kube_copy bp f) = Some (Reg d md) \<Longrightarrow>
      \<exists>md'. fs_get (w_fs s') (pki_path (bm_kubeconfigDir m) f) = Some (Reg d md')"
proof -
  let ?pki = "filepath_Join [bp, ''pki'']" and ?kube = "filepath_Join [bp, ''kubeconfigs'']"
  let ?P = "pki_path (bm_pkiDir m)" and ?K = "pki_path (bm_kubeconfigDir m)"
  from run obtain s1 where
    l1: "for_each (\<lambda>rel.
       let src = filepath_Join [?pki, rel]; dst = filepath_Join [bm_pkiDir m, rel] in
       seqE (wrapE (''creating pki subdir for restore '' @ rel) (os_MkdirAll E (filepath_Dir dst) 448))
         (\<lambda>_. copy_or_skip E (''restoring '' @ rel) src dst)) pkiFiles s = (Ok (), s1)" and
    l2: "for_each (\<lambda>f.
       let src = filepath_Join [?kube, f]; dst = filepath_Join [bm_kubeconfigDir m, f] in
       copy_or_skip E (''restoring kubeconfig '' @ f) src dst) kubeconfigFiles s1 = (Ok u, s')"
    unfolding backup_Restore_def by (auto simp: ok_iff Let_def)
  have sep1: "pki_path ?pki ` set pkiFiles \<inter> ?P ` set pkiFiles = {}"
    and sep2: "pki_path ?kube ` set kubeconfigFiles \<inter> ?K ` set kubeconfigFiles = {}"
    using sep unfolding image_copies by (auto simp: separate_def source_paths_def backup_paths_def)
  have dir: "is_dir (fs_get (w_fs s1) (resolve (bm_kubeconfigDir m)))"
    using keeps_kinds_dir [OF pki_copy_loop(2) [OF l1 sep1] kube_dir] .
  { assume rel: "rel \<in> set pkiFiles" and d: "fs_get (w_fs s) (pki_copy bp rel) = Some (Reg d md)"
    from pki_copy_loop(3) [OF l1 sep1 rel] d
    obtain md' where "fs_get (w_fs s1) (?P rel) = Some (Reg d md')" unfolding copies_are_paths by blast
    moreover have "?P rel \<notin> ?K ` set kubeconfigFiles" using pki_not_kube [OF rel] by blast
    ultimately show "\<exists>md'. fs_get (w_fs s') (?P rel) = Some (Reg d md')"
      using touches_keeps [OF kube_copy_loop(1) [OF l2 sep2 dir]] by blast }
  { assume f: "f \<in> set kubeconfigFiles" and d: "fs_get (w_fs s) (kube_copy bp f) = Some (Reg d md)"
    have "kube_copy bp f \<notin> ?P ` set pkiFiles"
      using sep f by (auto simp: separate_def source_paths_def backup_paths_def)
    then have "fs_get (w_fs s1) (pki_path ?kube f) = Some (Reg d md)"
      using touches_keeps [OF pki_copy_loop(1) [OF l1 sep1] _ d] unfolding copies_are_paths by blast
    from kube_copy_loop(3) [OF l2 sep2 dir f this]
    show "\<exists>md'. fs_get (w_fs s') (?K f) = Some (Reg d md')" . }
qed

lemma restore_brings_back:
  assumes "backup_Create E m node s0 = (Ok b, s1)" and "separate m (BackupPath b)"
    and same: "\<And>p d md. p \<in> backup_paths (BackupPath b) \<Longrightarrow> fs_get (w_fs s1) p = Some (Reg d md) \<Longrightarrow>
      fs_get (w_fs s2) p = Some (Reg d md)"
    and "is_dir (fs_get (w_fs s2) (resolve (bm_kubeconfigDir m)))"
    and "backup_Restore E' m (BackupPath b) s2 = (Ok u, s3)"
    and p: "p \<in> source_paths m" and d: "fs_get (w_fs s0) p = Some (Reg d md)"
  shows "\<exists>md'. fs_get (w_fs s3) p = Some (Reg d md')"
proof -
  from p consider rel where "rel \<in> set pkiFiles" "p = pki_path (bm_pkiDir m) rel"
    | f where "f \<in> set kubeconfigFiles" "p = pki_path (bm_kubeconfigDir m) f"
    unfolding source_paths_def by blast
  then show ?thesis
  proof cases
    case 1
    from Create_okD(1) [OF assms(1,2) 1(1)] d 1(2) same [of "pki_copy (BackupPath b) rel"] 1(1)
    obtain md' where "fs_get (w_fs s2) (pki_copy (BackupPath b) rel) = Some (Reg d md')"
      by (auto simp: backup_paths_def)
    from Restore_okD(1) [OF assms(5,2,4) 1(1) this] show ?thesis unfolding 1(2) .
  next
    case 2
    from Create_okD(2) [OF assms(1,2) 2(1)] d 2(2) same [of "kube_copy (BackupPath b) f"] 2(1)
    obtain md' where "fs_get (w_fs s2) (kube_copy (BackupPath b) f) = Some (Reg d md')"
      by (auto simp: backup_paths_def)
    from Restore_okD(2) [OF assms(5,2,4) 2(1) this] show ?thesis unfolding 2(2) .
  qed
qed

text \<open>
  C6. A backup that \<^verbatim>\<open>Create\<close> made brings back what it saved: after any change to the node that
  leaves the backup alone and the kubeconfig directory in place, a \<^verbatim>\<open>Restore\<close> from it that returns
  nil gives every PKI and kubeconfig file that existed when the backup was made its old content.
\<close>

theorem backup_restore_roundtrip:
  assumes "backup_Create E m node s0 = (Ok b, s1)" and "separate m (BackupPath b)"
    and "\<forall>p\<in>backup_paths (BackupPath b). fs_get (w_fs s2) p = fs_get (w_fs s1) p"
    and "is_dir (fs_get (w_fs s2) (resolve (bm_kubeconfigDir m)))"
    and "backup_Restore E' m (BackupPath b) s2 = (Ok u, s3)"
  shows "(\<forall>p\<in>source_paths m. \<forall>d md. fs_get (w_fs s0) p = Some (Reg d md) \<longrightarrow>
           (\<exists>md'. fs_get (w_fs s3) p = Some (Reg d md')))"
  using restore_brings_back [OF assms(1,2) _ assms(4,5)] assms(3) by auto

section \<open>What the operations leave alone\<close>

lemma pki_targets: "rel \<in> set pkiFiles \<Longrightarrow> resolve (filepath_Join [d, rel]) = pki_path d rel"
  by (rule resolve_pki [OF plain_pkiFiles])

lemma kube_targets: "f \<in> set kubeconfigFiles \<Longrightarrow> resolve (filepath_Join [d, f]) = pki_path d f"
  by (rule resolve_pki) (simp add: plain_kubeconfigFiles)

lemma Restore_touches: "keeps (touches (source_paths m)) (backup_Restore E m bp)"
  unfolding backup_Restore_def Let_def
  by (intro touch_frame.keeps_seqE touch_frame.keeps_for_each wrap_MkdirAll_touches copy_or_skip_touches)
     (simp_all add: pki_targets kube_targets source_paths_def)

text \<open>
  C33. Whatever happens, a fault in the middle included, \<^verbatim>\<open>Restore\<close> changes, creates or removes no
  regular file outside the list of PKI and kubeconfig files.
\<close>

theorem Restore_frame:
  assumes "p \<notin> source_paths m"
  shows "fs_get (w_fs (snd (backup_Restore E m bp s))) p = Some (Reg d md) \<longleftrightarrow> fs_get (w_fs s) p = Some (Reg d md)"
  by (rule touches_reg_iff [OF keepsD [OF Restore_touches] assms])
     (rule surjective_pairing)

lemma create_at_touches: "keeps (touches (backup_paths bp)) (create_at E m node bp)"
  unfolding create_at_def Let_def
  by (intro touch_frame.keeps_seqE touch_frame.keeps_for_each touch_frame.keeps_time_now touch_frame.keeps_ret
      wrap_MkdirAll_touches copy_or_skip_touches)
     (simp_all add: pki_targets kube_targets copies_are_paths backup_paths_def)

lemma time_now_run [go_run]: "time_now E s = (Ok (env_now E (w_tick s)), s\<lparr>w_tick := Suc (w_tick s)\<rparr>)"
  by (simp add: time_now_def tick_def go_run)

text \<open>
  Making a backup never harms what it saves: on every outcome of \<^verbatim>\<open>Create\<close>, each file of the
  node that is not one of the copies in the new backup directory is as it was.
\<close>

theorem Create_frame:
  assumes "p \<notin> backup_paths (filepath_Join [bm_backupDir m, node, backup_stamp (env_now E (w_tick s))])"
  shows "fs_get (w_fs (snd (backup_Create E m node s))) p = Some (Reg d md) \<longleftrightarrow> fs_get (w_fs s) p = Some (Reg d md)"
proof -
  have eq: "backup_Create E m node s = create_at E m node
      (filepath_Join [bm_backupDir m, node, backup_stamp (env_now E (w_tick s))]) (s\<lparr>w_tick := Suc (w_tick s)\<rparr>)"
    by (simp add: backup_Create_def seqE_run time_now_run)
  from touches_reg_iff [OF keepsD [OF create_at_touches surjective_pairing] assms]
  show ?thesis unfolding eq by simp
qed

section \<open>A restore with nothing to restore\<close>

definition dir_exists :: "(fpath, fnode) fmap \<Rightarrow> string \<Rightarrow> bool" where
  "dir_exists fs path \<longleftrightarrow> (\<forall>q\<in>set (ancestors (resolve path)). is_dir (fs_get fs q))"

lemma MkdirAll_existing: "dir_exists (w_fs s) path \<Longrightarrow> os_MkdirAll E path perm s = (Ok (), s)"
proof -
  have one: "mkdir_one E perm p s = (Ok (), s)" if "is_dir (fs_get (w_fs s) p)" for p
    using that by (cases "fs_get (w_fs s) p" rule: is_dir.cases) (auto simp: mkdir_one_def go_run get_fs_def)
  have "for_each (mkdir_one E perm) ps s = (Ok (), s)" if "\<forall>q\<in>set ps. is_dir (fs_get (w_fs s) q)" for ps
    using that by (induction ps) (simp_all add: one go_run)
  then show "dir_exists (w_fs s) path \<Longrightarrow> os_MkdirAll E path perm s = (Ok (), s)"
    by (simp add: os_MkdirAll_def dir_exists_def)
qed

lemma copy_or_skip_missing:
  "no_faults E \<Longrightarrow> fs_get (w_fs s) (resolve src) = None \<Longrightarrow> missing_errno (w_fs s) (resolve src) = ENOENT \<Longrightarrow>
     copy_or_skip E what src dst s = (Ok (), s\<lparr>w_tick := Suc (w_tick s)\<rparr>)"
  by (simp add: copy_or_skip_def copyFile_def os_Open_def syscall_nf go_run get_fs_def)

lemma Restore_dir: "rel \<in> set pkiFiles \<Longrightarrow> filepath_Dir rel = ''.'' \<or> filepath_Dir rel = ''etcd''"
  by (auto simp: pkiFiles_def filepath_Dir_def filepath_Clean_def resolve_def path_step_def is_rooted_def)

text \<open>
  C40. \<^verbatim>\<open>Restore\<close> cannot tell an empty or deleted backup from a complete one: when nothing is left
  at any path of the backup, it returns nil and the file system is as it was.
\<close>

theorem restore_missing_backup:
  assumes "no_faults E" and "\<forall>p\<in>backup_paths bp. fs_get (w_fs s) p = None \<and> missing_errno (w_fs s) p = ENOENT"
    and "\<forall>rel\<in>set pkiFiles. dir_exists (w_fs s) (filepath_Dir (filepath_Join [bm_pkiDir m, rel]))"
  shows "\<exists>s'. backup_Restore E m bp s = (Ok (), s') \<and> w_fs s' = w_fs s"
proof -
  let ?I = "\<lambda>t. w_fs t = w_fs s"
  let ?pki = "filepath_Join [bp, ''pki'']" and ?kube = "filepath_Join [bp, ''kubeconfigs'']"
  have skip: "copy_or_skip E what src dst t = (Ok (), t\<lparr>w_tick := Suc (w_tick t)\<rparr>)"
    if "resolve src \<in> backup_paths bp" "?I t" for what src dst t
    using copy_or_skip_missing [OF assms(1)] assms(2) that by auto
  have a: "\<exists>t. for_each (\<lambda>rel.
              let src = filepath_Join [?pki, rel]; dst = filepath_Join [bm_pkiDir m, rel] in
              seqE (wrapE (''creating pki subdir for restore '' @ rel) (os_MkdirAll E (filepath_Dir dst) 448)) (\<lambda>_.
              copy_or_skip E (''restoring '' @ rel) src dst)) pkiFiles s = (Ok (), t) \<and> ?I t"
  proof (rule for_each_ok_total, goal_cases)
    case (2 rel t)
    then have "resolve (filepath_Join [?pki, rel]) \<in> backup_paths bp"
      by (simp add: pki_targets copies_are_paths backup_paths_def)
    moreover have "os_MkdirAll E (filepath_Dir (filepath_Join [bm_pkiDir m, rel])) 448 t = (Ok (), t)"
      using MkdirAll_existing 2 assms(3) by simp
    ultimately show ?case using skip 2 by (simp add: go_run Let_def)
  qed simp
  have b: "\<exists>t'. for_each (\<lambda>f.
              let src = filepath_Join [?kube, f]; dst = filepath_Join [bm_kubeconfigDir m, f] in
              copy_or_skip E (''restoring kubeconfig '' @ f) src dst) kubeconfigFiles t = (Ok (), t') \<and> ?I t'"
    if "?I t" for t
  proof (rule for_each_ok_total, goal_cases)
    case (2 f t)
    then have "resolve (filepath_Join [?kube, f]) \<in> backup_paths bp"
      by (simp add: kube_targets copies_are_paths backup_paths_def)
    then show ?case using skip 2 by (simp add: Let_def)
  qed (rule that)
  from a b show ?thesis unfolding backup_Restore_def Let_def by (fastforce simp: seqE_run)
qed

section \<open>Two backups, and removing old ones\<close>

lemma Join_three: "n \<noteq> [] \<Longrightarrow> filepath_Join [d, n, s] = filepath_Join [d, n @ CHR ''/'' # s]"
  by (simp add: filepath_Join_def)

lemma set_dec: "c \<in> set (dec n) \<Longrightarrow> c \<noteq> CHR ''/''"
proof (induction n rule: dec.induct)
  case (1 n)
  have "digit_char k \<noteq> CHR ''/''" if "k < 10" for k
  proof
    assume "digit_char k = CHR ''/''"
    then have "(of_char (digit_char k) :: nat) = of_char (CHR ''/'')" by simp
    then show False using that by (simp add: digit_char_def)
  qed
  from this [of n] this [of "n mod 10"] 1 show ?case by (subst (asm) (2) dec.simps) (auto split: if_splits)
qed

lemma plain_stamp: "plain (backup_stamp t)"
proof -
  have pad: "c \<noteq> CHR ''/''" if "c \<in> set (pad w n)" for c w n
    using that set_dec by (auto simp: pad_def)
  have "CHR ''/'' \<notin> set (backup_stamp t)"
    using pad by (auto simp: backup_stamp_def layout_def split: prod.splits)
  moreover have "length (backup_stamp t) > 2"
    by (auto simp: backup_stamp_def layout_def split: prod.splits)
  ultimately show ?thesis by (auto simp: plain_def)
qed

lemma below_stamp:
  assumes "plain node"
  shows "below (filepath_Join [bd, node, backup_stamp t]) cs = below bd (node # backup_stamp t # cs)"
proof -
  have "split_slash (node @ CHR ''/'' # backup_stamp t) = [node, backup_stamp t]"
    using assms plain_stamp [of t] by (simp add: split_slash_app split_slash_plain plain_def)
  moreover have "node \<noteq> []" using assms by (simp add: plain_def)
  ultimately show ?thesis
    using assms plain_stamp [of t] below_Join [of "node @ CHR ''/'' # backup_stamp t" bd cs] by (simp add: Join_three)
qed

lemma stamped_disjoint:
  assumes "printable_year t" and "printable_year t'" and "t div ns_second \<noteq> t' div ns_second"
    and "plain node"
  shows "backup_paths (filepath_Join [bd, node, backup_stamp t]) \<inter> backup_paths (filepath_Join [bd, node, backup_stamp t']) = {}"
proof -
  have "backup_stamp t \<noteq> backup_stamp t'" using backup_stamp_inject [OF _ assms(1,2)] assms(3) by blast
  then show ?thesis
    by (auto simp: backup_paths_def pki_copy_def kube_copy_def below_stamp [OF assms(4)])
qed

lemma Create_path:
  "backup_Create E m node s = (Ok b, s') \<Longrightarrow>
     BackupPath b = filepath_Join [bm_backupDir m, node, backup_stamp (env_now E (w_tick s))]"
  by (auto simp: backup_Create_def create_at_def ok_iff time_now_run Let_def)

text \<open>
  C34. A later backup never harms an earlier one: when \<^verbatim>\<open>Create\<close> runs again for the node in another
  second, in any environment and on any later state of the node, then on every outcome each file that
  the earlier backup holds is as it was, a backup it returns has no path in common with
  the earlier one, and a \<^verbatim>\<open>Restore\<close> from the earlier backup still brings back every file that existed when
  that was made (for plain node names and years that the stamp prints in four digits).
\<close>

theorem later_backup_harmless:
  assumes "backup_Create E m node s0 = (Ok b, s1)" and "backup_Create E' m node w = (r, w')"
    and "env_now E (w_tick s0) div ns_second \<noteq> env_now E' (w_tick w) div ns_second"
    and "printable_year (env_now E (w_tick s0))" and "printable_year (env_now E' (w_tick w))" and "plain node"
  shows "(\<forall>p\<in>backup_paths (BackupPath b). \<forall>d md.
      fs_get (w_fs w') p = Some (Reg d md) \<longleftrightarrow> fs_get (w_fs w) p = Some (Reg d md)) \<and>
    (\<forall>b'. r = Ok b' \<longrightarrow> backup_paths (BackupPath b') \<inter> backup_paths (BackupPath b) = {}) \<and>
    (\<forall>E'' u w''. separate m (BackupPath b) \<and> is_dir (fs_get (w_fs w') (resolve (bm_kubeconfigDir m))) \<and>
      (\<forall>p\<in>backup_paths (BackupPath b). fs_get (w_fs w) p = fs_get (w_fs s1) p) \<and>
      backup_Restore E'' m (BackupPath b) w' = (Ok u, w'') \<longrightarrow>
      (\<forall>p\<in>source_paths m. \<forall>d md. fs_get (w_fs s0) p = Some (Reg d md) \<longrightarrow>
        (\<exists>md'. fs_get (w_fs w'') p = Some (Reg d md'))))" (is "?kept \<and> ?apart \<and> ?restored")
proof -
  let ?later = "filepath_Join [bm_backupDir m, node, backup_stamp (env_now E' (w_tick w))]"
  have apart: "backup_paths ?later \<inter> backup_paths (BackupPath b) = {}"
    unfolding Create_path [OF assms(1)] using stamped_disjoint [OF assms(5,4) _ assms(6)] assms(3) by simp
  have kept: "fs_get (w_fs w') p = Some (Reg d md) \<longleftrightarrow> fs_get (w_fs w) p = Some (Reg d md)"
    if "p \<in> backup_paths (BackupPath b)" for p d md
  proof -
    have "p \<notin> backup_paths ?later" using apart that by blast
    from Create_frame [OF this] show ?thesis using assms(2) by simp
  qed
  have ?apart using apart assms(2) Create_path by metis
  moreover have ?restored
  proof (intro allI impI, elim conjE)
    fix E'' u w'' assume run: "separate m (BackupPath b)" "is_dir (fs_get (w_fs w') (resolve (bm_kubeconfigDir m)))"
      "\<forall>p\<in>backup_paths (BackupPath b). fs_get (w_fs w) p = fs_get (w_fs s1) p"
      "backup_Restore E'' m (BackupPath b) w' = (Ok u, w'')"
    show "\<forall>p\<in>source_paths m. \<forall>d md. fs_get (w_fs s0) p = Some (Reg d md) \<longrightarrow>
        (\<exists>md'. fs_get (w_fs w'') p = Some (Reg d md'))"
      using restore_brings_back [OF assms(1) run(1) _ run(2,4)] kept run(3) by auto
  qed
  ultimately show ?thesis using kept by blast
qed

definition entry_path :: "backup_manager \<Rightarrow> string \<Rightarrow> string \<Rightarrow> fpath" where
  "entry_path m node name = resolve (filepath_Join [filepath_Join [bm_backupDir m, node], name])"

lemma inside_trans: "inside p q \<Longrightarrow> inside q r \<Longrightarrow> inside p r"
  by (auto simp: inside_def)

lemma inside_refl [simp]: "inside p p"
  by (simp add: inside_def)

lemma fs_get_filter: "snd p \<noteq> [] \<Longrightarrow> fs_get (fmfilter P fs) p = (if P p then fs_get fs p else None)"
  by (simp add: fs_get_def)

text \<open>There, or nothing at or below the path.\<close>

definition there_or_gone :: "(fpath, fnode) fmap \<Rightarrow> fpath \<Rightarrow> bool" where
  "there_or_gone fs p \<longleftrightarrow> fs_get fs p \<noteq> None \<or> (\<forall>q. inside p q \<longrightarrow> fmlookup fs q = None)"

lemma there_or_gone_filter:
  assumes "there_or_gone fs p" and "snd p \<noteq> []" shows "there_or_gone (fmfilter (\<lambda>q. \<not> inside r q) fs) p"
  using assms inside_trans [of r p] unfolding there_or_gone_def by (auto simp: fs_get_filter)

lemma cleanup_entry_run:
  assumes "no_faults E" and mtime: "\<And>t. env_mtime E t (filepath_Join [filepath_Join [bm_backupDir m, node], name]) = mt"
    and "there_or_gone (w_fs s) (entry_path m node name)" and "snd (entry_path m node name) \<noteq> []"
  shows "\<exists>s'. cleanup_entry E m node cutoff name s = (Ok (), s') \<and>
    w_fs s' = (if mt < cutoff then fmfilter (\<lambda>q. \<not> inside (entry_path m node name) q) (w_fs s) else w_fs s)"
proof (cases "fs_get (w_fs s) (entry_path m node name)")
  case None
  then have "fmfilter (\<lambda>q. \<not> inside (entry_path m node name) q) (w_fs s) = w_fs s"
    using assms(3) by (intro fmap_ext) (auto simp: there_or_gone_def)
  then show ?thesis using None assms(1)
    by (simp add: cleanup_entry_def Let_def bindE_run os_Stat_def syscall_nf seqE_run get_fs_def entry_path_def)
next
  case (Some n)
  then show ?thesis using assms(1)
    by (simp add: cleanup_entry_def Let_def bindE_run os_Stat_def syscall_nf seqE_run get_fs_def entry_path_def
        tick_def mtime os_RemoveAll_def emit_def put_fs_def)
qed

lemma cleanup_entries:
  assumes "no_faults E"
    and mtime: "\<And>t name. name \<in> set names \<Longrightarrow>
      env_mtime E t (filepath_Join [filepath_Join [bm_backupDir m, node], name]) = mt name"
    and "\<And>name. name \<in> set names \<Longrightarrow> there_or_gone (w_fs s) (entry_path m node name)"
    and ne: "\<And>name. name \<in> set names \<Longrightarrow> snd (entry_path m node name) \<noteq> []"
  shows "\<exists>s'. for_each (cleanup_entry E m node cutoff) names s = (Ok (), s') \<and>
    w_fs s' = fmfilter (\<lambda>q. \<not> (\<exists>name\<in>set names. mt name < cutoff \<and> inside (entry_path m node name) q)) (w_fs s)"
  using assms
proof (induction names arbitrary: s)
  case (Cons x xs)
  have "x \<in> set (x # xs)" by simp
  from cleanup_entry_run [OF Cons.prems(1) Cons.prems(2) [OF this] Cons.prems(3) [OF this] Cons.prems(4) [OF this]]
  obtain s1 where
    s1: "cleanup_entry E m node cutoff x s = (Ok (), s1)"
      "w_fs s1 = (if mt x < cutoff then fmfilter (\<lambda>q. \<not> inside (entry_path m node x) q) (w_fs s) else w_fs s)"
    by auto
  have "\<exists>s'. for_each (cleanup_entry E m node cutoff) xs s1 = (Ok (), s') \<and>
    w_fs s' = fmfilter (\<lambda>q. \<not> (\<exists>name\<in>set xs. mt name < cutoff \<and> inside (entry_path m node name) q)) (w_fs s1)"
    using Cons.prems s1(2) by (intro Cons.IH) (simp_all add: there_or_gone_filter)
  then show ?case using s1 by (fastforce simp: go_run intro!: fmap_ext)
qed (simp add: fmap_ext)

lemma dir_entries_path:
  assumes "name \<in> set (dir_entries fs d)"
  shows "(fst d, snd d @ [name]) |\<in>| fmdom fs"
proof -
  from assms obtain q where q: "q |\<in>| fmdom fs" "snd q \<noteq> []" "parent q = d" "name = last (snd q)"
    by (auto simp: dir_entries_def)
  then have "q = (fst d, snd d @ [name])" by (cases q) (auto simp: parent_def)
  then show ?thesis using q(1) by simp
qed

text \<open>
  C32. \<^verbatim>\<open>Cleanup\<close> removes exactly the expired backups: on a file system that does not fail it
  returns nil, every entry of the node's backup directory that is older than the retention period
  (in days of the local calendar) is gone with all that is below it, and every other path is as it was (clock and modification
  times standing still during the call; the names in the directory are file names).
\<close>

theorem Cleanup_exact:
  fixes E m node keepDays now
  defines "cutoff \<equiv> add_days E now (- keepDays)"
    and "dir \<equiv> filepath_Join [bm_backupDir m, node]"
  assumes "no_faults E" and "\<forall>t. env_now E t = now" and "\<forall>t name. env_mtime E t (filepath_Join [dir, name]) = mt name"
    and "is_dir (fs_get (w_fs s) (resolve dir))" and "\<forall>name\<in>set (dir_entries (w_fs s) (resolve dir)). plain name"
  shows "\<exists>s'. backup_Cleanup E m node keepDays s = (Ok (), s') \<and>
    w_fs s' = fmfilter (\<lambda>q. \<not> (\<exists>name\<in>set (dir_entries (w_fs s) (resolve dir)).
      mt name < cutoff \<and> inside (below dir [name]) q)) (w_fs s)"
proof -
  let ?ns = "dir_entries (w_fs s) (resolve dir)"
  have path: "entry_path m node name = below dir [name]" if "name \<in> set ?ns" for name
    using assms(7) that resolve_Join [of name dir] by (simp add: entry_path_def dir_def plain_def split_slash_plain)
  have there: "there_or_gone (w_fs s) (entry_path m node name)" if "name \<in> set ?ns" for name
    using dir_entries_path [OF that] path [OF that]
    by (auto simp: there_or_gone_def below_def fs_get_def fmlookup_dom_iff)
  obtain s1 where s1: "os_ReadDir E dir s = (Ok ?ns, s1)" "w_fs s1 = w_fs s"
    using assms(3,6) by (cases "fs_get (w_fs s) (resolve dir)" rule: is_dir.cases)
      (auto simp: os_ReadDir_def syscall_nf go_run get_fs_def)
  obtain s2 where s2: "time_now E s1 = (Ok now, s2)" "w_fs s2 = w_fs s"
    using assms(4) s1(2) by (simp add: time_now_run)
  have "\<exists>s'. for_each (cleanup_entry E m node cutoff) ?ns s2 = (Ok (), s') \<and>
    w_fs s' = fmfilter (\<lambda>q. \<not> (\<exists>name\<in>set ?ns. mt name < cutoff \<and> inside (entry_path m node name) q)) (w_fs s2)"
    by (rule cleanup_entries) (use assms(3,5) there path s2(2) in \<open>simp_all add: dir_def below_def\<close>)
  then obtain s' where s': "for_each (cleanup_entry E m node cutoff) ?ns s2 = (Ok (), s')"
    "w_fs s' = fmfilter (\<lambda>q. \<not> (\<exists>name\<in>set ?ns. mt name < cutoff \<and> inside (entry_path m node name) q)) (w_fs s)"
    unfolding s2(2) by blast
  have eq: "(\<lambda>q. \<not> (\<exists>name\<in>set ?ns. mt name < cutoff \<and> inside (entry_path m node name) q)) =
    (\<lambda>q. \<not> (\<exists>name\<in>set ?ns. mt name < cutoff \<and> inside (below dir [name]) q))"
    using path by (intro ext) auto
  have "backup_Cleanup E m node keepDays s = (Ok (), s')"
    using s1(1) s2(1) s'(1) unfolding backup_Cleanup_def dir_def cutoff_def by (simp add: bindE_run seqE_run)
  then show ?thesis using s'(2) unfolding eq by blast
qed

end
