(* ===== verification/Witnesses_Files.thy ===== *)
theory Witnesses_Files
  imports Scenario Backup
begin

text \<open>
  Each theorem with hypotheses, applied on the node of \<open>Scenario\<close>: the run is evaluated, and what
  the theorem says of it is the statement here.
\<close>

section \<open>Writer\<close>

definition one_pair :: "(string \<times> string \<times> string) list" where
  "one_pair = [(''apiserver'', ''Pc'', ''Pk'')]"

theorem WriteAllCerts_stores_witness:
  "stored_pair pki_dir ''apiserver'' (snd (WriteAllCerts calm (writer_New pki_dir False) one_pair node_world))
     = Some (''Pc'', ''Pk'')"
proof -
  have "fst (WriteAllCerts calm (writer_New pki_dir False) one_pair node_world) = Ok ()" by code_simp
  from WriteAllCerts_stores [OF run_eq [OF this], of "''apiserver''" "''Pc''" "''Pk''"] show ?thesis
    by (simp add: one_pair_def)
qed

theorem Verify_correct_witness:
  "\<exists>r s'. Verify calm (writer_New pki_dir False) node_world = (r, s') \<and> w_fs s' = node_fs \<and> r = Ok ()"
proof -
  have "\<forall>(name, c, k)\<in>set CertPaths. present node_world (pki_path pki_dir c) \<and> present node_world (pki_path pki_dir k)"
    by code_simp
  then show ?thesis using Verify_correct [OF calm_no_faults(1), of pki_dir node_world]
    by (auto simp: node_world_def)
qed

section \<open>Backup\<close>

definition small_mgr :: backup_manager where
  "small_mgr = backup_New ''/b'' ''/p'' ''/k''"

definition backup_dir :: string where
  "backup_dir = filepath_Join [''/b'', ''n'', backup_stamp base_time]"

lemma backup_dir_eq: "backup_dir = ''/b/n/2023-11-14T22-13-20Z''"
proof -
  have "backup_stamp base_time = ''2023-11-14T22-13-20Z''" by code_simp
  then show ?thesis unfolding backup_dir_def by simp code_simp
qed

text \<open>The node after the backup, then with the saved certificate damaged, then restored.\<close>

definition saved_run :: "backup outcome \<times> world" where
  "saved_run = create_at frozen small_mgr ''n'' ''/b/n/2023-11-14T22-13-20Z'' (small_world\<lparr>w_tick := 1\<rparr>)"

lemma Create_saved: "backup_Create frozen small_mgr ''n'' small_world = saved_run"
  using backup_dir_eq unfolding backup_dir_def saved_run_def
  by (simp add: backup_Create_def seqE_run time_now_run frozen_def small_mgr_def backup_New_def small_world_def blank_world_def)

text \<open>The node after the backup, with the saved certificate damaged.\<close>

definition damaged_world :: world where
  "damaged_world = blank_world\<lparr>w_fs := fmap_of_list
     [((True, [''p'']), Dir 493), ((True, [''p'', ''etcd'']), Dir 493), ((True, [''k'']), Dir 493),
      ((True, [''p'', ''ca.crt'']), Reg ''bad'' 420), ((True, [''k'', ''admin.conf'']), Reg ''Pd'' 384),
      ((True, [''b'', ''n'', ''2023-11-14T22-13-20Z'', ''pki'', ''ca.crt'']), Reg ''Pd'' 384),
      ((True, [''b'', ''n'', ''2023-11-14T22-13-20Z'', ''kubeconfigs'', ''admin.conf'']), Reg ''Pd'' 384)]\<rparr>"

text \<open>It is tried out on a world that has seen two ticks.\<close>

definition restore_run :: "unit outcome \<times> world" where
  "restore_run = backup_Restore frozen small_mgr ''/b/n/2023-11-14T22-13-20Z'' (damaged_world\<lparr>w_tick := 2\<rparr>)"

lemma saved_result:
  "case saved_run of (r, s1) \<Rightarrow> r = Ok \<lparr>Backup_Node = ''n'', BackupPath = ''/b/n/2023-11-14T22-13-20Z'', CreatedAt = base_time\<rparr> \<and>
     list_all (\<lambda>rel. fs_get (w_fs damaged_world) (pki_copy ''/b/n/2023-11-14T22-13-20Z'' rel) =
        fs_get (w_fs s1) (pki_copy ''/b/n/2023-11-14T22-13-20Z'' rel)) pkiFiles \<and>
     list_all (\<lambda>f. fs_get (w_fs damaged_world) (kube_copy ''/b/n/2023-11-14T22-13-20Z'' f) =
        fs_get (w_fs s1) (kube_copy ''/b/n/2023-11-14T22-13-20Z'' f)) kubeconfigFiles"
  by code_simp

lemma saved_okD:
  "\<exists>b s1. saved_run = (Ok b, s1) \<and> BackupPath b = ''/b/n/2023-11-14T22-13-20Z'' \<and>
     (\<forall>p\<in>backup_paths ''/b/n/2023-11-14T22-13-20Z''. fs_get (w_fs damaged_world) p = fs_get (w_fs s1) p)"
proof -
  obtain r s1 where run: "saved_run = (r, s1)" by (rule prod.exhaust)
  show ?thesis using saved_result unfolding run prod.case
    by (intro exI [of _ s1] exI [of _ "\<lparr>Backup_Node = ''n'', BackupPath = ''/b/n/2023-11-14T22-13-20Z'', CreatedAt = base_time\<rparr>"])
       (auto simp: list_all_iff backup_paths_def)
qed

lemma restore_result: "fst restore_run = Ok ()"
  by code_simp

theorem backup_restore_roundtrip_witness:
  "\<exists>md. fs_get (w_fs (snd restore_run)) (True, [''p'', ''ca.crt'']) = Some (Reg ''Pd'' md)"
proof -
  let ?bp = "''/b/n/2023-11-14T22-13-20Z''"
  obtain b s1 where s1: "saved_run = (Ok b, s1)" "BackupPath b = ?bp"
    "\<forall>p\<in>backup_paths ?bp. fs_get (w_fs damaged_world) p = fs_get (w_fs s1) p"
    using saved_okD by blast
  have k: "is_dir (fs_get (w_fs (damaged_world\<lparr>w_tick := 2\<rparr>)) (resolve (bm_kubeconfigDir small_mgr)))" and sep: "separate small_mgr ?bp"
    and p: "(True, [''p'', ''ca.crt'']) \<in> source_paths small_mgr"
    and d: "fs_get (w_fs small_world) (True, [''p'', ''ca.crt'']) = Some (Reg ''Pd'' 384)" by code_simp+
  have same: "\<forall>p\<in>backup_paths ?bp. fs_get (w_fs (damaged_world\<lparr>w_tick := 2\<rparr>)) p = fs_get (w_fs s1) p"
    using s1(3) by simp
  have r: "backup_Restore frozen small_mgr (BackupPath b) (damaged_world\<lparr>w_tick := 2\<rparr>) = (Ok (), snd restore_run)"
    unfolding s1(2) restore_run_def by (rule run_eq) (use restore_result in \<open>simp add: restore_run_def\<close>)
  have "\<forall>p\<in>source_paths small_mgr. \<forall>d md. fs_get (w_fs small_world) p = Some (Reg d md) \<longrightarrow>
      (\<exists>md'. fs_get (w_fs (snd restore_run)) p = Some (Reg d md'))"
    by (rule backup_restore_roundtrip [OF Create_saved [unfolded s1(1)] sep [folded s1(2)] same [folded s1(2)] k r])
  from bspec [OF this p, rule_format, OF d] show ?thesis .
qed

theorem Restore_frame_witness:
  "fs_get (w_fs (snd (backup_Restore calm small_mgr ''/b/x'' small_world))) (True, [''p'', ''sa.key'']) = Some (Reg [] 0)
    \<longleftrightarrow> False"
proof -
  have "(True, [''p'', ''sa.key'']) \<notin> source_paths small_mgr" and "fs_get (w_fs small_world) (True, [''p'', ''sa.key'']) = None"
    by code_simp+
  then show ?thesis using Restore_frame [of "(True, [''p'', ''sa.key''])" small_mgr calm "''/b/x''" small_world "[]" 0] by simp
qed

theorem Create_frame_witness:
  "fs_get (w_fs (snd (backup_Create frozen small_mgr ''n'' small_world))) (True, [''p'', ''ca.crt'']) = Some (Reg ''Pd'' 384)"
proof -
  have "(True, [''p'', ''ca.crt'']) \<notin> backup_paths ''/b/n/2023-11-14T22-13-20Z''"
    and d: "fs_get (w_fs small_world) (True, [''p'', ''ca.crt'']) = Some (Reg ''Pd'' 384)" by code_simp+
  moreover have "filepath_Join [bm_backupDir small_mgr, ''n'', backup_stamp (env_now frozen (w_tick small_world))] = ''/b/n/2023-11-14T22-13-20Z''"
    using backup_dir_eq by (simp add: backup_dir_def small_mgr_def backup_New_def frozen_def)
  ultimately show ?thesis using Create_frame [of "(True, [''p'', ''ca.crt''])" small_mgr "''n''" frozen small_world] by simp
qed

theorem restore_missing_backup_witness:
  "\<exists>s'. backup_Restore calm small_mgr ''/b/gone'' small_world = (Ok (), s') \<and> w_fs s' = w_fs small_world"
proof (rule restore_missing_backup [OF calm_no_faults(1)])
  show "\<forall>p\<in>backup_paths ''/b/gone''. fs_get (w_fs small_world) p = None \<and> missing_errno (w_fs small_world) p = ENOENT"
    by code_simp
  show "\<forall>rel\<in>set pkiFiles. dir_exists (w_fs small_world) (filepath_Dir (filepath_Join [bm_pkiDir small_mgr, rel]))"
    by code_simp
qed

text \<open>
  A second later the damaged node is backed up too; once this succeeds, once it fails at the first
  directory, and the node is then restored from the first backup.
\<close>

definition second_later :: env where
  "second_later = frozen\<lparr>env_now := (\<lambda>_. base_time + 1000000000)\<rparr>"

definition disk_full :: env where
  "disk_full = second_later\<lparr>env_fault := (\<lambda>_. Some ENOSPC)\<rparr>"

lemma Create_later:
  assumes "E = second_later \<or> E = disk_full"
  shows "backup_Create E small_mgr ''n'' damaged_world =
    create_at E small_mgr ''n'' ''/b/n/2023-11-14T22-13-21Z'' (damaged_world\<lparr>w_tick := 1\<rparr>)"
proof -
  have "backup_stamp (base_time + 1000000000) = ''2023-11-14T22-13-21Z''" by code_simp
  moreover have "filepath_Join [''/b'', ''n'', ''2023-11-14T22-13-21Z''] = ''/b/n/2023-11-14T22-13-21Z''" by code_simp
  ultimately show ?thesis using assms
    by (auto simp: backup_Create_def seqE_run time_now_run disk_full_def second_later_def small_mgr_def backup_New_def
        damaged_world_def blank_world_def)
qed

lemma disk_full_result: "snd (backup_Create disk_full small_mgr ''n'' damaged_world) = damaged_world\<lparr>w_tick := 2\<rparr>"
  unfolding Create_later [OF disjI2 [OF refl]] by code_simp

theorem later_backup_harmless_witness:
  "fs_get (w_fs (snd (backup_Create second_later small_mgr ''n'' damaged_world)))
     (pki_copy ''/b/n/2023-11-14T22-13-20Z'' ''ca.crt'') = Some (Reg ''Pd'' 384) \<and>
   (\<exists>md. fs_get (w_fs (snd restore_run)) (True, [''p'', ''ca.crt'']) = Some (Reg ''Pd'' md))"
proof -
  let ?bp = "''/b/n/2023-11-14T22-13-20Z''"
  obtain b s1 where s1: "saved_run = (Ok b, s1)" "BackupPath b = ?bp"
    "\<forall>p\<in>backup_paths ?bp. fs_get (w_fs damaged_world) p = fs_get (w_fs s1) p"
    using saved_okD by blast
  have seconds: "env_now frozen (w_tick small_world) div ns_second \<noteq> env_now second_later (w_tick damaged_world) div ns_second"
      "env_now frozen (w_tick small_world) div ns_second \<noteq> env_now disk_full (w_tick damaged_world) div ns_second"
    and years: "printable_year (env_now frozen (w_tick small_world))" "printable_year (env_now second_later (w_tick damaged_world))"
      "printable_year (env_now disk_full (w_tick damaged_world))"
    and n: "plain ''n''" and sep: "separate small_mgr ?bp"
    and k: "is_dir (fs_get (w_fs (damaged_world\<lparr>w_tick := 2\<rparr>)) (resolve (bm_kubeconfigDir small_mgr)))"
    and q: "pki_copy ?bp ''ca.crt'' \<in> backup_paths ?bp"
    and dq: "fs_get (w_fs damaged_world) (pki_copy ?bp ''ca.crt'') = Some (Reg ''Pd'' 384)"
    and p: "(True, [''p'', ''ca.crt'']) \<in> source_paths small_mgr"
    and d: "fs_get (w_fs small_world) (True, [''p'', ''ca.crt'']) = Some (Reg ''Pd'' 384)" by code_simp+
  note saved = Create_saved [unfolded s1(1)]
  have "fs_get (w_fs (snd (backup_Create second_later small_mgr ''n'' damaged_world))) (pki_copy ?bp ''ca.crt'') = Some (Reg ''Pd'' 384)"
    using later_backup_harmless [OF saved surjective_pairing seconds(1) years(1,2) n, unfolded s1(2), THEN conjunct1] q dq
    by blast
  moreover have "backup_Restore frozen small_mgr ?bp (snd (backup_Create disk_full small_mgr ''n'' damaged_world)) = (Ok (), snd restore_run)"
    unfolding disk_full_result restore_run_def by (rule run_eq) (use restore_result in \<open>simp add: restore_run_def\<close>)
  then have "\<exists>md. fs_get (w_fs (snd restore_run)) (True, [''p'', ''ca.crt'']) = Some (Reg ''Pd'' md)"
    using later_backup_harmless [OF saved surjective_pairing seconds(2) years(1,3) n, unfolded s1(2), THEN conjunct2, THEN conjunct2]
      sep s1(3) p d k [folded disk_full_result] by blast
  ultimately show ?thesis by blast
qed

definition old_backups :: world where
  "old_backups = small_world\<lparr>w_fs := fmap_of_list [((True, [''b'']), Dir 493), ((True, [''b'', ''n'']), Dir 493),
     ((True, [''b'', ''n'', ''old'']), Dir 448), ((True, [''b'', ''n'', ''old'', ''ca.crt'']), Reg ''Pd'' 384),
     ((True, [''b'', ''n'', ''new'']), Dir 448)]\<rparr>"

definition aged :: env where
  "aged = frozen\<lparr>env_mtime := (\<lambda>_ p. if p = ''/b/n/old'' then 0 else base_time)\<rparr>"

theorem Cleanup_exact_witness:
  "\<exists>s'. backup_Cleanup aged small_mgr ''n'' 30 old_backups = (Ok (), s') \<and>
     fs_get (w_fs s') (True, [''b'', ''n'', ''old'', ''ca.crt'']) = None \<and>
     fs_get (w_fs s') (True, [''b'', ''n'', ''new'']) = Some (Dir 448)"
proof -
  have dir: "filepath_Join [bm_backupDir small_mgr, ''n''] = ''/b/n''" by code_simp
  have entries: "set (dir_entries (w_fs old_backups) (resolve ''/b/n'')) = {''old'', ''new''}" by code_simp
  have paths: "below ''/b/n'' [''old''] = (True, [''b'', ''n'', ''old''])" "below ''/b/n'' [''new''] = (True, [''b'', ''n'', ''new''])"
    "filepath_Join [''/b/n'', ''old''] = ''/b/n/old''" by code_simp+
  have d: "is_dir (fs_get (w_fs old_backups) (resolve ''/b/n''))" by code_simp
  have cut: "add_days aged base_time (- 30) = base_time + - 30 * 86400 * ns_second"
    by (rule add_days_fixed_zone [where z = 0]) (simp_all add: aged_def frozen_def calm_def in_range_def base_time_def ns_second_def)
  let ?mt = "\<lambda>name. if filepath_Join [''/b/n'', name] = ''/b/n/old'' then 0 else base_time"
  obtain s' where s': "backup_Cleanup aged small_mgr ''n'' 30 old_backups = (Ok (), s')"
    "w_fs s' = fmfilter (\<lambda>q. \<not> (\<exists>name\<in>{''old'', ''new''}.
        ?mt name < add_days aged base_time (- 30) \<and> inside (below ''/b/n'' [name]) q)) (w_fs old_backups)"
    using Cleanup_exact [of aged base_time small_mgr "''n''" ?mt old_backups 30] d
    unfolding dir entries by (auto simp: aged_def frozen_def calm_def no_faults_def plain_def)
  have new: "filepath_Join [''/b/n'', ''new''] \<noteq> ''/b/n/old''" by code_simp
  have "fs_get (w_fs s') (True, [''b'', ''n'', ''old'', ''ca.crt'']) = None"
    unfolding s'(2) using paths new cut
    by (simp add: fs_get_def inside_def base_time_def ns_second_def)
  moreover have "fs_get (w_fs s') (True, [''b'', ''n'', ''new'']) = Some (Dir 448)"
    unfolding s'(2) using paths new cut
    by (simp add: fs_get_def inside_def base_time_def ns_second_def old_backups_def small_world_def)
  ultimately show ?thesis using s'(1) by blast
qed

end
