(* ===== verification/Detector.thy ===== *)
theory Detector
  imports Go_Base64 World_Lemmas Go_Time
begin

text \<open>
  \<^verbatim>\<open>pkg/detector/detector.go\<close>: reading every control plane certificate from disk, how many days
  each has left, and the status that decides whether it is renewed.
\<close>

section \<open>Status and residual days\<close>

text \<open>\<open>StatusUnset\<close> is the empty string a \<^verbatim>\<open>CertInfo\<close> carries before \<^verbatim>\<open>classify\<close> sets it.\<close>

datatype cert_status = StatusUnset | StatusOK | StatusApproaching | StatusExpired

fun status_string :: "cert_status \<Rightarrow> string" where
  "status_string StatusUnset = ''''"
| "status_string StatusOK = ''OK''"
| "status_string StatusApproaching = ''APPROACHING''"
| "status_string StatusExpired = ''EXPIRED''"

text \<open>The statuses are ordered by urgency.\<close>

fun urgency :: "cert_status \<Rightarrow> nat" where
  "urgency StatusUnset = 0"
| "urgency StatusOK = 1"
| "urgency StatusApproaching = 2"
| "urgency StatusExpired = 3"

lemma urgency_inject [simp]: "urgency a = urgency b \<longleftrightarrow> a = b"
  by (cases a; cases b) simp_all

instantiation cert_status :: linorder
begin

definition less_eq_cert_status :: "cert_status \<Rightarrow> cert_status \<Rightarrow> bool" where
  "a \<le> b \<longleftrightarrow> urgency a \<le> urgency b"

definition less_cert_status :: "cert_status \<Rightarrow> cert_status \<Rightarrow> bool" where
  "a < b \<longleftrightarrow> urgency a < urgency b"

instance
  by standard (auto simp: less_eq_cert_status_def less_cert_status_def)

end

text \<open>\<^verbatim>\<open>int(cert.NotAfter.Sub(now).Hours() / 24)\<close>\<close>

definition residual_days :: "int \<Rightarrow> int \<Rightarrow> int" where
  "residual_days notAfter now = trunc (f64 (hours (time_sub notAfter now) / 24))"

record detector =
  pkiDir :: string
  kubeconfigDir :: string
  thresholdDays :: int

definition detector_New :: "string \<Rightarrow> string \<Rightarrow> int \<Rightarrow> detector" where
  "detector_New pki kubeconfig threshold =
     \<lparr>pkiDir = pki, kubeconfigDir = kubeconfig, thresholdDays = threshold\<rparr>"

definition classify :: "detector \<Rightarrow> int \<Rightarrow> cert_status" where
  "classify d residualDays =
     (if residualDays \<le> 0 then StatusExpired
      else if residualDays \<le> thresholdDays d then StatusApproaching
      else StatusOK)"

record cert_info =
  ci_Name :: string
  ci_Path :: string
  ci_Expiry :: int
  ci_ResidualDays :: int
  ci_Status :: cert_status
  ci_Subject :: string
  ci_DNSNames :: "string list"
  ci_IPAddresses :: "string list"

record detection_result =
  dr_Node :: string
  dr_Certs :: "cert_info list"

section \<open>Reading certificates\<close>

definition certFiles :: "(string \<times> string) list" where
  "certFiles =
     [(''apiserver'', ''apiserver.crt''),
      (''apiserver-etcd-client'', ''apiserver-etcd-client.crt''),
      (''apiserver-kubelet-client'', ''apiserver-kubelet-client.crt''),
      (''front-proxy-client'', ''front-proxy-client.crt''),
      (''etcd-server'', ''etcd/server.crt''),
      (''etcd-peer'', ''etcd/peer.crt''),
      (''etcd-healthcheck-client'', ''etcd/healthcheck-client.crt'')]"

definition kubeconfigCerts :: "(string \<times> string) list" where
  "kubeconfigCerts =
     [(''admin.conf'', ''admin.conf''),
      (''controller-manager.conf'', ''controller-manager.conf''),
      (''scheduler.conf'', ''scheduler.conf''),
      (''super-admin.conf'', ''super-admin.conf'')]"

definition parsePEMCert :: "env \<Rightarrow> string \<Rightarrow> string \<Rightarrow> string \<Rightarrow> cert_info go" where
  "parsePEMCert E name path data =
     (case env_pem_decode E data of
        None \<Rightarrow> fail (ErrMsg (''no PEM block found in '' @ path))
      | Some (_, bytes) \<Rightarrow>
          (case env_parse_cert E bytes of
             Inl e \<Rightarrow> fail (Wrapf (''parsing certificate '' @ path) e)
           | Inr cert \<Rightarrow>
               seqE (time_now E) (\<lambda>now. ret
                 \<lparr>ci_Name = name, ci_Path = path, ci_Expiry = NotAfter cert,
                  ci_ResidualDays = residual_days (NotAfter cert) now, ci_Status = StatusUnset,
                  ci_Subject = CommonName (Subject cert), ci_DNSNames = DNSNames cert,
                  ci_IPAddresses = IPAddresses cert\<rparr>)))"

definition parseCert :: "env \<Rightarrow> string \<Rightarrow> string \<Rightarrow> cert_info go" where
  "parseCert E name path = seqE (os_ReadFile E path) (parsePEMCert E name path)"

text \<open>
  \<^verbatim>\<open>extractClientCertData\<close>: the users in order, the two spellings of the key in order, the first
  value that is a non-empty string.
\<close>

definition cert_keys :: "string list" where
  "cert_keys = [''client-certificate-data'', ''clientCertificateData'']"

fun scan_keys :: "json_map \<Rightarrow> string list \<Rightarrow> string option" where
  "scan_keys userInfo [] = None"
| "scan_keys userInfo (key # keys) =
     (case map_of userInfo key of
        Some (JStr certStr) \<Rightarrow> if certStr \<noteq> '''' then Some certStr else scan_keys userInfo keys
      | _ \<Rightarrow> scan_keys userInfo keys)"

definition user_info :: "json \<Rightarrow> json_map option" where
  "user_info u = Option.bind (as_map u) (\<lambda>userMap. Option.bind (map_of userMap ''user'') as_map)"

fun scan_users :: "json list \<Rightarrow> string" where
  "scan_users [] = ''''"
| "scan_users (u # us) =
     (case user_info u of
        None \<Rightarrow> scan_users us
      | Some userInfo \<Rightarrow>
          (case scan_keys userInfo cert_keys of Some certStr \<Rightarrow> certStr | None \<Rightarrow> scan_users us))"

definition extractClientCertData :: "json_map option \<Rightarrow> string \<Rightarrow> goerr + string" where
  "extractClientCertData raw path =
     (case map_get raw ''users'' of
        None \<Rightarrow> Inl (ErrMsg (''no users field in kubeconfig '' @ path))
      | Some usersRaw \<Rightarrow>
          (case as_list usersRaw of
             None \<Rightarrow> Inl (ErrMsg (''users field is not a list in kubeconfig '' @ path))
           | Some users \<Rightarrow> Inr (scan_users users)))"

definition yaml_unmarshal_map :: "env \<Rightarrow> string \<Rightarrow> goerr + json_map option" where
  "yaml_unmarshal_map E data = (case env_yaml_to_json E data of Inl e \<Rightarrow> Inl e | Inr j \<Rightarrow> unmarshal_map j)"

text \<open>What a kubeconfig's text says about its certificate, before the clock is read.\<close>

definition kubeconfig_cert :: "env \<Rightarrow> string \<Rightarrow> string \<Rightarrow> goerr + certificate" where
  "kubeconfig_cert E path data =
     (case yaml_unmarshal_map E data of
        Inl e \<Rightarrow> Inl (Wrapf (''parsing kubeconfig '' @ path) e)
      | Inr raw \<Rightarrow>
     (case extractClientCertData raw path of
        Inl e \<Rightarrow> Inl e
      | Inr certData \<Rightarrow>
          if certData = '''' then Inl (ErrMsg (''no client certificate found in kubeconfig '' @ path))
          else
     (case base64_decode certData of
        Inl e \<Rightarrow> Inl (Wrapf (''decoding cert from kubeconfig '' @ path) e)
      | Inr decoded \<Rightarrow>
          let certDER = (case env_pem_decode E decoded of Some (_, bytes) \<Rightarrow> bytes | None \<Rightarrow> decoded) in
     (case env_parse_cert E certDER of
        Inl e \<Rightarrow> Inl (Wrapf (''parsing cert from kubeconfig '' @ path) e)
      | Inr cert \<Rightarrow> Inr cert))))"

definition parseKubeconfigCert :: "env \<Rightarrow> string \<Rightarrow> string \<Rightarrow> cert_info option go" where
  "parseKubeconfigCert E name path =
     bindE (os_ReadFile E path)
       (\<lambda>e. if is_not_exist e then ret None else fail e)
       (\<lambda>data.
         case kubeconfig_cert E path data of
           Inl e \<Rightarrow> fail e
         | Inr cert \<Rightarrow>
             seqE (time_now E) (\<lambda>now. ret (Some
               \<lparr>ci_Name = name, ci_Path = path, ci_Expiry = NotAfter cert,
                ci_ResidualDays = residual_days (NotAfter cert) now, ci_Status = StatusUnset,
                ci_Subject = CommonName (Subject cert), ci_DNSNames = [], ci_IPAddresses = []\<rparr>)))"

section \<open>Detection\<close>

definition classified :: "detector \<Rightarrow> cert_info \<Rightarrow> cert_info" where
  "classified d info = info\<lparr>ci_Status := classify d (ci_ResidualDays info)\<rparr>"

text \<open>The bodies of the two loops: a missing kubeconfig is skipped, any other error ends the call.\<close>

definition detect_pki :: "env \<Rightarrow> detector \<Rightarrow> cert_info list \<Rightarrow> string \<times> string \<Rightarrow> cert_info list go" where
  "detect_pki E d certs entry = (case entry of (name, relPath) \<Rightarrow>
     let fullPath = filepath_Join [pkiDir d, relPath] in
     seqE (wrapE (''reading cert '' @ name @ '' at '' @ fullPath) (parseCert E name fullPath)) (\<lambda>info.
     ret (certs @ [classified d info])))"

definition detect_kubeconfig :: "env \<Rightarrow> detector \<Rightarrow> cert_info list \<Rightarrow> string \<times> string \<Rightarrow> cert_info list go" where
  "detect_kubeconfig E d certs entry = (case entry of (name, filename) \<Rightarrow>
     let fullPath = filepath_Join [kubeconfigDir d, filename] in
     seqE (wrapE (''reading kubeconfig cert '' @ name @ '' at '' @ fullPath) (parseKubeconfigCert E name fullPath)) (\<lambda>info.
     case info of
       None \<Rightarrow> ret certs
     | Some i \<Rightarrow> ret (certs @ [classified d i])))"

definition Detect :: "env \<Rightarrow> detector \<Rightarrow> string \<Rightarrow> detection_result go" where
  "Detect E d node =
     seqE (map_range E certFiles) (\<lambda>pki.
     seqE (fold_go (detect_pki E d) [] pki) (\<lambda>certs.
     seqE (map_range E kubeconfigCerts) (\<lambda>kubeconfigs.
     seqE (fold_go (detect_kubeconfig E d) certs kubeconfigs) (\<lambda>certs.
     ret \<lparr>dr_Node = node, dr_Certs = certs\<rparr>))))"

definition NeedsRenewal :: "detection_result \<Rightarrow> bool" where
  "NeedsRenewal r \<longleftrightarrow> (\<exists>c\<in>set (dr_Certs r). ci_Status c \<noteq> StatusOK)"

definition IsUrgent :: "detection_result \<Rightarrow> bool" where
  "IsUrgent r \<longleftrightarrow> (\<exists>c\<in>set (dr_Certs r). ci_Status c = StatusExpired)"

text \<open>The line of a certificate in \<^verbatim>\<open>Summary()\<close>; the dash is the three bytes of its UTF-8 form.\<close>

definition detector_Summary :: "detection_result \<Rightarrow> string list" where
  "detector_Summary r = map (\<lambda>c.
     ''['' @ dr_Node r @ ''] '' @ ci_Name c @ '' '' @ em_dash @ '' expiry: '' @ rfc3339_utc (ci_Expiry c) @
     '', residual: '' @ dec_int (ci_ResidualDays c) @ '' days, status: '' @ status_string (ci_Status c)) (dr_Certs r)"

section \<open>The days left\<close>

definition ns_day :: int where "ns_day = 24 * ns_hour"

text \<open>The double-precision quotient never moves a certificate across a day boundary, up to 64 days.\<close>

lemma days_of_hours_le:
  assumes "0 \<le> d" and "d < (q + 1) * ns_day" and "0 \<le> q" and "q \<le> 63"
  shows "trunc (f64 (hours d / 24)) \<le> q"
proof -
  have e42: "pow2 (- 42) = 1 / 4398046511104" and e47: "pow2 (- 47) = 1 / 140737488355328"
    by (simp_all add: pow2_def)
  have "hours d \<le> of_int (24 * (q + 1)) - pow2 (- 42)"
    using assms by (intro hours_below) (simp_all add: ns_day_def)
  then have "hours d / 24 \<le> of_int ((q + 1) * 2 ^ 47 - 1) * pow2 (- 47)" unfolding e42 e47 by (simp add: field_simps)
  then have "f64 (hours d / 24) \<le> of_int ((q + 1) * 2 ^ 47 - 1) * pow2 (- 47)"
    using f64_mono f64_exact [of "(q + 1) * 2 ^ 47 - 1" "- 47"] assms(3,4) by fastforce
  then have "f64 (hours d / 24) < of_int (q + 1)" unfolding e47 by (simp add: field_simps)
  then show ?thesis using assms(3) by (auto simp: trunc_def floor_less_iff not_le) linarith+
qed

lemma days_of_hours_ge:
  assumes "q * ns_day \<le> d" and "0 \<le> q" and "q \<le> 10 ^ 6"
  shows "q \<le> trunc (f64 (hours d / 24))"
proof -
  have "of_int (24 * q) \<le> hours d"
    using hours_whole [of "24 * q"] hours_mono [of "q * ns_day" d] assms by (simp add: ns_day_def mult.commute)
  then have "of_int q \<le> hours d / 24" by simp
  then have "of_int q \<le> f64 (hours d / 24)" using f64_mono f64_of_int [of q] assms(2,3) by fastforce
  then show ?thesis using assms(2) by (auto simp: trunc_def le_floor_iff not_le)
qed

lemma days_of_hours_nonpos: "d \<le> 0 \<Longrightarrow> trunc (f64 (hours d / 24)) \<le> 0"
  using hours_nonpos [of d] f64_mono [of "hours d / 24" 0] by (auto simp: trunc_def)

lemma residual_days_le_iff:
  assumes "0 \<le> q" and "q \<le> 63"
  shows "residual_days na now \<le> q \<longleftrightarrow> na - now < (q + 1) * ns_day"
proof -
  let ?d = "time_sub na now"
  have "?d < (q + 1) * ns_day \<longleftrightarrow> na - now < (q + 1) * ns_day"
    using assms by (auto simp: time_sub_def ns_day_def)
  moreover have "residual_days na now \<le> q" if "?d < (q + 1) * ns_day"
    using days_of_hours_le [OF _ that assms] days_of_hours_nonpos [of ?d] assms(1)
    by (cases "0 \<le> ?d") (auto simp: residual_days_def)
  moreover have "q + 1 \<le> residual_days na now" if "(q + 1) * ns_day \<le> ?d"
    using days_of_hours_ge [OF that] assms by (simp add: residual_days_def)
  ultimately show ?thesis by linarith
qed

text \<open>
  C21. What the status of a certificate means on the clock: with a threshold of up to 63 days, a
  certificate is EXPIRED exactly when less than 24 hours remain until its \<^verbatim>\<open>NotAfter\<close>,
  APPROACHING exactly when at least 24 hours but less than threshold + 1 days remain, and OK
  otherwise. The rounding of the two divisions in double precision never changes the answer.
\<close>

theorem status_by_clock:
  assumes "0 \<le> thresholdDays d" and "thresholdDays d \<le> 63"
  shows "classify d (residual_days na now) =
    (if na - now < ns_day then StatusExpired
     else if na - now < (thresholdDays d + 1) * ns_day then StatusApproaching
     else StatusOK)"
  using residual_days_le_iff [of 0 na now] residual_days_le_iff [OF assms, of na now]
  by (simp add: classify_def)

text \<open>
  The status only ever gets more urgent as time passes: of two readings of the same
  certificate the later is at least as urgent, whatever the threshold up to 63 days.
\<close>

theorem urgency_grows:
  assumes "0 \<le> thresholdDays d" and "thresholdDays d \<le> 63" and "now \<le> later"
  shows "classify d (residual_days na now) \<le> classify d (residual_days na later)"
proof -
  have "residual_days na now \<le> q \<Longrightarrow> residual_days na later \<le> q" if "0 \<le> q" "q \<le> 63" for q
    using residual_days_le_iff [OF that] assms(3) by simp
  from this [of 0] this [OF assms(1,2)] show ?thesis
    by (auto simp: classify_def less_eq_cert_status_def)
qed

section \<open>Finding the certificate in a kubeconfig\<close>

definition embedded_cert :: "json \<Rightarrow> string \<Rightarrow> string \<Rightarrow> bool" where
  "embedded_cert u key certStr \<longleftrightarrow>
     (\<exists>userMap userInfo. u = JObj userMap \<and> map_of userMap ''user'' = Some (JObj userInfo) \<and>
        map_of userInfo key = Some (JStr certStr))"

lemma scan_keys_None: "scan_keys m keys = None \<longleftrightarrow> (\<forall>k\<in>set keys. \<forall>c. map_of m k = Some (JStr c) \<longrightarrow> c = '''')"
  by (induction keys) (auto split: option.splits json.splits)

lemma scan_keys_Some: "scan_keys m keys = Some c \<Longrightarrow> c \<noteq> '''' \<and> (\<exists>k\<in>set keys. map_of m k = Some (JStr c))"
  by (induction keys) (auto split: option.splits json.splits if_splits)

lemma user_info_Some: "user_info u = Some i \<longleftrightarrow> (\<exists>m. u = JObj m \<and> map_of m ''user'' = Some (JObj i))"
  by (auto simp: user_info_def bind_eq_Some_conv)

lemma scan_users_found: "scan_users us \<noteq> '''' \<Longrightarrow> \<exists>u\<in>set us. \<exists>k\<in>set cert_keys. embedded_cert u k (scan_users us)"
proof (induction us)
  case (Cons a us)
  show ?case
  proof (cases "user_info a")
    case None
    then show ?thesis using Cons by simp
  next
    case (Some i)
    show ?thesis
    proof (cases "scan_keys i cert_keys")
      case None
      then show ?thesis using Cons Some by simp
    next
      case (Some c)
      from \<open>user_info a = option.Some i\<close> obtain m where "a = JObj m" "map_of m ''user'' = option.Some (JObj i)"
        unfolding user_info_Some by blast
      then show ?thesis using scan_keys_Some [OF Some] Some \<open>user_info a = option.Some i\<close>
        by (auto simp: embedded_cert_def)
    qed
  qed
qed simp

lemma scan_users_none:
  "scan_users us = '''' \<Longrightarrow> u \<in> set us \<Longrightarrow> k \<in> set cert_keys \<Longrightarrow> embedded_cert u k c \<Longrightarrow> c = ''''"
proof (induction us)
  case (Cons a us)
  show ?case
  proof (cases "user_info a")
    case None
    then show ?thesis using Cons by (auto simp: embedded_cert_def user_info_def)
  next
    case (Some i)
    then have "scan_keys i cert_keys = None \<and> scan_users us = ''''"
      using Cons.prems(1) scan_keys_Some by (fastforce split: option.splits)
    then show ?thesis using Cons Some
      by (auto simp: embedded_cert_def user_info_def scan_keys_None)
  qed
qed simp

text \<open>
  The search for the client certificate of a kubeconfig is complete: it returns a non-empty
  text exactly when some user carries one under either spelling of the key, and then returns one
  of them; it never fails on malformed users, it steps over them.
\<close>

theorem extract_correct:
  "map_of m ''users'' = Some (JArr us) \<Longrightarrow>
     \<exists>c. extractClientCertData (Some m) path = Inr c \<and>
       (c \<noteq> '''' \<longleftrightarrow> (\<exists>u\<in>set us. \<exists>k\<in>set cert_keys. \<exists>c'. c' \<noteq> '''' \<and> embedded_cert u k c')) \<and>
       (c \<noteq> '''' \<longrightarrow> (\<exists>u\<in>set us. \<exists>k\<in>set cert_keys. embedded_cert u k c))"
  using scan_users_found scan_users_none
  by (fastforce simp: extractClientCertData_def)

section \<open>What Detect reports\<close>

text \<open>
  The specification, from the files alone: no value for a file that cannot be read as a
  certificate, no entry for a kubeconfig that does not exist, one entry otherwise.
\<close>

definition pki_report :: "env \<Rightarrow> detector \<Rightarrow> (fpath, fnode) fmap \<Rightarrow> int \<Rightarrow> string \<times> string \<Rightarrow> cert_info list option" where
  "pki_report E d fs now = (\<lambda>(name, rel).
     let path = filepath_Join [pkiDir d, rel] in
     case fs_get fs (resolve path) of
       Some (Reg data _) \<Rightarrow>
         (case env_pem_decode E data of
            None \<Rightarrow> None
          | Some (_, bytes) \<Rightarrow>
              (case env_parse_cert E bytes of
                 Inl _ \<Rightarrow> None
               | Inr cert \<Rightarrow> Some
                   [\<lparr>ci_Name = name, ci_Path = path, ci_Expiry = NotAfter cert,
                     ci_ResidualDays = residual_days (NotAfter cert) now,
                     ci_Status = classify d (residual_days (NotAfter cert) now),
                     ci_Subject = CommonName (Subject cert), ci_DNSNames = DNSNames cert,
                     ci_IPAddresses = IPAddresses cert\<rparr>]))
     | _ \<Rightarrow> None)"

definition kubeconfig_report :: "env \<Rightarrow> detector \<Rightarrow> (fpath, fnode) fmap \<Rightarrow> int \<Rightarrow> string \<times> string \<Rightarrow> cert_info list option" where
  "kubeconfig_report E d fs now = (\<lambda>(name, filename).
     let path = filepath_Join [kubeconfigDir d, filename] in
     case fs_get fs (resolve path) of
       Some (Reg data _) \<Rightarrow>
         (case kubeconfig_cert E path data of
            Inl _ \<Rightarrow> None
          | Inr cert \<Rightarrow> Some
              [\<lparr>ci_Name = name, ci_Path = path, ci_Expiry = NotAfter cert,
                ci_ResidualDays = residual_days (NotAfter cert) now,
                ci_Status = classify d (residual_days (NotAfter cert) now),
                ci_Subject = CommonName (Subject cert), ci_DNSNames = [], ci_IPAddresses = []\<rparr>])
     | Some (Dir _) \<Rightarrow> None
     | None \<Rightarrow> if missing_errno fs (resolve path) = ENOENT then Some [] else None)"

definition expected_reports :: "env \<Rightarrow> detector \<Rightarrow> (fpath, fnode) fmap \<Rightarrow> int \<Rightarrow> cert_info list option list" where
  "expected_reports E d fs now =
     map (pki_report E d fs now) certFiles @ map (kubeconfig_report E d fs now) kubeconfigCerts"

lemma collect_loop:
  assumes step: "\<And>acc x t. x \<in> set xs \<Longrightarrow> w_fs t = fs \<Longrightarrow> \<exists>t'. w_fs t' = fs \<and>
      (case R x of Some l \<Rightarrow> f acc x t = (Ok (acc @ l), t') | None \<Rightarrow> \<exists>e. f acc x t = (Err e, t'))"
    and "w_fs s = fs"
  shows "\<exists>s'. w_fs s' = fs \<and>
    (if \<forall>x\<in>set xs. R x \<noteq> None then fold_go f acc xs s = (Ok (acc @ concat (map (\<lambda>x. the (R x)) xs)), s')
     else \<exists>e. fold_go f acc xs s = (Err e, s'))"
  using assms
proof (induction xs arbitrary: acc s)
  case (Cons x xs)
  from Cons.prems(1) [of x s acc] Cons.prems(2) obtain t where t: "w_fs t = fs"
    "case R x of Some l \<Rightarrow> f acc x s = (Ok (acc @ l), t) | None \<Rightarrow> \<exists>e. f acc x s = (Err e, t)" by auto
  show ?case
  proof (cases "R x")
    case None
    then show ?thesis using t by (auto simp: seqE_run)
  next
    case (Some l)
    have "\<exists>s'. w_fs s' = fs \<and>
      (if \<forall>x\<in>set xs. R x \<noteq> None then fold_go f (acc @ l) xs t = (Ok ((acc @ l) @ concat (map (\<lambda>x. the (R x)) xs)), s')
       else \<exists>e. fold_go f (acc @ l) xs t = (Err e, s'))"
      by (rule Cons.IH [OF _ t(1)]) (rule Cons.prems(1), simp_all)
    then obtain s' where s': "w_fs s' = fs" "if \<forall>x\<in>set xs. R x \<noteq> None
      then fold_go f (acc @ l) xs t = (Ok ((acc @ l) @ concat (map (\<lambda>x. the (R x)) xs)), s')
      else \<exists>e. fold_go f (acc @ l) xs t = (Err e, s')" by blast
    show ?thesis
    proof (cases "\<forall>x\<in>set xs. R x \<noteq> None")
      case True
      then show ?thesis using t Some s' by (auto simp: seqE_run)
    next
      case False
      then have "\<exists>e. fold_go f (acc @ l) xs t = (Err e, s')" using s'(2) by presburger
      then show ?thesis using False t Some s'(1) by (auto simp: seqE_run intro!: exI [of _ s'])
    qed
  qed
qed simp

lemma ReadFile_cases_nf:
  assumes "no_faults E"
  shows "\<exists>t. w_fs t = w_fs s \<and> os_ReadFile E path s = (case fs_get (w_fs s) (resolve path) of
      Some (Reg data _) \<Rightarrow> Ok data
    | Some (Dir _) \<Rightarrow> Err (PathError ''read'' path EISDIR)
    | None \<Rightarrow> Err (PathError ''open'' path (missing_errno (w_fs s) (resolve path))), t)"
  using assms by (auto simp: os_ReadFile_def syscall_nf go_run get_fs_def split: option.splits fnode.splits)

lemma parsePEMCert_run:
  assumes "\<forall>t. env_now E t = now"
  shows "\<exists>t. w_fs t = w_fs s \<and> parsePEMCert E name path data s = (case env_pem_decode E data of
      None \<Rightarrow> Err (ErrMsg (''no PEM block found in '' @ path))
    | Some (_, bytes) \<Rightarrow> (case env_parse_cert E bytes of
        Inl e \<Rightarrow> Err (Wrapf (''parsing certificate '' @ path) e)
      | Inr cert \<Rightarrow> Ok \<lparr>ci_Name = name, ci_Path = path, ci_Expiry = NotAfter cert,
          ci_ResidualDays = residual_days (NotAfter cert) now, ci_Status = StatusUnset,
          ci_Subject = CommonName (Subject cert), ci_DNSNames = DNSNames cert, ci_IPAddresses = IPAddresses cert\<rparr>), t)"
  using assms by (auto simp: parsePEMCert_def go_run time_now_def tick_def split: option.splits sum.splits)

lemma pki_step:
  assumes "no_faults E" and "\<forall>t. env_now E t = now" and "w_fs t = fs"
  shows "\<exists>t'. w_fs t' = fs \<and> (case pki_report E d fs now (name, rel) of
      Some l \<Rightarrow> detect_pki E d acc (name, rel) t = (Ok (acc @ l), t')
    | None \<Rightarrow> \<exists>e. detect_pki E d acc (name, rel) t = (Err e, t'))"
proof -
  let ?path = "filepath_Join [pkiDir d, rel]"
  obtain t1 where t1: "w_fs t1 = fs" "os_ReadFile E ?path t = (case fs_get fs (resolve ?path) of
      Some (Reg data _) \<Rightarrow> Ok data
    | Some (Dir _) \<Rightarrow> Err (PathError ''read'' ?path EISDIR)
    | None \<Rightarrow> Err (PathError ''open'' ?path (missing_errno fs (resolve ?path))), t1)"
    using ReadFile_cases_nf [OF assms(1)] assms(3) by metis
  show ?thesis
  proof (cases "\<exists>data m. fs_get fs (resolve ?path) = Some (Reg data m)")
    case True
    then obtain data m where d: "fs_get fs (resolve ?path) = Some (Reg data m)" by blast
    show ?thesis using parsePEMCert_run [OF assms(2), of t1 name ?path data] t1 d
      by (auto simp: detect_pki_def parseCert_def pki_report_def go_run classified_def Let_def split: option.splits sum.splits)
  next
    case False
    then show ?thesis using t1
      by (auto simp: detect_pki_def parseCert_def pki_report_def go_run Let_def split: option.splits fnode.splits)
  qed
qed

lemma kubeconfig_step:
  assumes "no_faults E" and "\<forall>t. env_now E t = now" and "w_fs t = fs"
  shows "\<exists>t'. w_fs t' = fs \<and> (case kubeconfig_report E d fs now (name, f) of
      Some l \<Rightarrow> detect_kubeconfig E d acc (name, f) t = (Ok (acc @ l), t')
    | None \<Rightarrow> \<exists>e. detect_kubeconfig E d acc (name, f) t = (Err e, t'))"
proof -
  let ?path = "filepath_Join [kubeconfigDir d, f]"
  obtain t1 where t1: "w_fs t1 = fs" "os_ReadFile E ?path t = (case fs_get fs (resolve ?path) of
      Some (Reg data _) \<Rightarrow> Ok data
    | Some (Dir _) \<Rightarrow> Err (PathError ''read'' ?path EISDIR)
    | None \<Rightarrow> Err (PathError ''open'' ?path (missing_errno fs (resolve ?path))), t1)"
    using ReadFile_cases_nf [OF assms(1)] assms(3) by metis
  have missing: "is_not_exist (PathError ''open'' ?path (missing_errno fs p)) \<longleftrightarrow> missing_errno fs p = ENOENT" for p
    by (simp add: missing_errno_def)
  show ?thesis using t1 assms(2)
    by (auto simp: detect_kubeconfig_def Let_def parseKubeconfigCert_def kubeconfig_report_def go_run classified_def time_now_def tick_def missing
        split: option.splits fnode.splits sum.splits)
qed

lemma mset_concat_map_cong:
  assumes "mset ys = mset xs"
  shows "mset (concat (map f ys)) = mset (concat (map f xs))"
proof -
  have "mset (concat (map f zs)) = sum_mset (image_mset (\<lambda>x. mset (f x)) (mset zs))" for zs
    by (induction zs) simp_all
  then show ?thesis using assms by simp
qed

lemma map_range_run: "map_range E xs s = (Ok (shuffle (env_pick E (w_tick s)) xs), s\<lparr>w_tick := Suc (w_tick s)\<rparr>)"
  by (simp add: map_range_def go_run tick_def)

text \<open>One loop over a map in an unspecified order: all the reports, or the error of the first that has none.\<close>

lemma map_loop:
  assumes step: "\<And>acc x t. w_fs t = fs \<Longrightarrow> \<exists>t'. w_fs t' = fs \<and>
      (case R x of Some l \<Rightarrow> f acc x t = (Ok (acc @ l), t') | None \<Rightarrow> \<exists>e. f acc x t = (Err e, t'))"
    and "w_fs s = fs"
  shows "\<exists>s'. w_fs s' = fs \<and>
    (if None \<notin> set (map R xs)
     then \<exists>l. seqE (map_range E xs) (fold_go f acc) s = (Ok (acc @ l), s') \<and> mset l = mset (concat (map the (map R xs)))
     else \<exists>e. seqE (map_range E xs) (fold_go f acc) s = (Err e, s'))"
proof -
  obtain ys s1 where s1: "map_range E xs s = (Ok ys, s1)" "w_fs s1 = fs" "mset ys = mset xs"
    using assms(2) by (simp add: map_range_run)
  have "set ys = set xs" by (rule mset_eq_setD [OF s1(3)])
  then have none: "None \<notin> set (map R xs) \<longleftrightarrow> (\<forall>y\<in>set ys. R y \<noteq> None)" by force
  have "\<exists>s'. w_fs s' = fs \<and> (if \<forall>y\<in>set ys. R y \<noteq> None
      then fold_go f acc ys s1 = (Ok (acc @ concat (map (\<lambda>x. the (R x)) ys)), s')
      else \<exists>e. fold_go f acc ys s1 = (Err e, s'))"
    by (rule collect_loop [OF step s1(2)])
  then obtain s' where s': "w_fs s' = fs" "if \<forall>y\<in>set ys. R y \<noteq> None
      then fold_go f acc ys s1 = (Ok (acc @ concat (map (\<lambda>x. the (R x)) ys)), s')
      else \<exists>e. fold_go f acc ys s1 = (Err e, s')" by blast
  have m: "mset (concat (map (\<lambda>x. the (R x)) ys)) = mset (concat (map the (map R xs)))"
    using mset_concat_map_cong [OF s1(3), of "\<lambda>x. the (R x)"] by (simp add: comp_def)
  show ?thesis unfolding none seqE_run s1(1) prod.case outcome.case
  proof (intro exI [of _ s'] conjI s'(1), cases "\<forall>y\<in>set ys. R y \<noteq> None")
    case True
    then show "if \<forall>y\<in>set ys. R y \<noteq> None then \<exists>l. fold_go f acc ys s1 = (Ok (acc @ l), s') \<and> mset l = mset (concat (map the (map R xs)))
        else \<exists>e. fold_go f acc ys s1 = (Err e, s')" using s'(2) m unfolding if_P [OF True] by blast
  next
    case False
    then show "if \<forall>y\<in>set ys. R y \<noteq> None then \<exists>l. fold_go f acc ys s1 = (Ok (acc @ l), s') \<and> mset l = mset (concat (map the (map R xs)))
        else \<exists>e. fold_go f acc ys s1 = (Err e, s')" using s'(2) unfolding if_not_P [OF False] by blast
  qed
qed

lemma Detect_run:
  assumes "no_faults E" and "\<forall>t. env_now E t = now"
  shows "\<exists>s'. w_fs s' = w_fs s \<and>
    (if None \<notin> set (expected_reports E d (w_fs s) now)
     then \<exists>r. Detect E d node s = (Ok r, s') \<and> dr_Node r = node \<and>
            mset (dr_Certs r) = mset (concat (map the (expected_reports E d (w_fs s) now)))
     else \<exists>e. Detect E d node s = (Err e, s'))"
proof -
  let ?R = "pki_report E d (w_fs s) now" and ?K = "kubeconfig_report E d (w_fs s) now"
  let ?f = "\<lambda>acc. seqE (map_range E certFiles) (fold_go (detect_pki E d) acc)"
  let ?g = "\<lambda>acc. seqE (map_range E kubeconfigCerts) (fold_go (detect_kubeconfig E d) acc)"
  have Detect: "Detect E d node = seqE (?f []) (\<lambda>certs. seqE (?g certs) (\<lambda>certs. ret \<lparr>dr_Node = node, dr_Certs = certs\<rparr>))"
    by (rule ext) (simp add: Detect_def seqE_run split: prod.split outcome.split)
  have pki: "\<exists>t'. w_fs t' = w_fs s \<and> (case ?R x of Some l \<Rightarrow> detect_pki E d acc x t = (Ok (acc @ l), t')
      | None \<Rightarrow> \<exists>e. detect_pki E d acc x t = (Err e, t'))" if "w_fs t = w_fs s" for acc x t
    using pki_step [OF assms that, where d = d and name = "fst x" and rel = "snd x" and acc = acc] by (simp only: prod.collapse)
  have kube: "\<exists>t'. w_fs t' = w_fs s \<and> (case ?K x of Some l \<Rightarrow> detect_kubeconfig E d acc x t = (Ok (acc @ l), t')
      | None \<Rightarrow> \<exists>e. detect_kubeconfig E d acc x t = (Err e, t'))" if "w_fs t = w_fs s" for acc x t
    using kubeconfig_step [OF assms that, where d = d and name = "fst x" and f = "snd x" and acc = acc] by (simp only: prod.collapse)
  obtain s1 where s1: "w_fs s1 = w_fs s" "if None \<notin> set (map ?R certFiles)
      then \<exists>l. ?f [] s = (Ok ([] @ l), s1) \<and> mset l = mset (concat (map the (map ?R certFiles)))
      else \<exists>e. ?f [] s = (Err e, s1)"
    using map_loop [where R = ?R and f = "detect_pki E d", OF pki refl] by blast
  show ?thesis
  proof (cases "None \<in> set (map ?R certFiles)")
    case True
    then obtain e where "?f [] s = (Err e, s1)" using s1(2) by (simp only: not_True_eq_False if_False) blast
    then have "Detect E d node s = (Err e, s1)" unfolding Detect by (simp add: seqE_run [of "?f []"])
    then show ?thesis using s1(1) True by (intro exI [of _ s1]) (simp add: expected_reports_def)
  next
    case False
    then obtain l where l: "?f [] s = (Ok l, s1)" "mset l = mset (concat (map the (map ?R certFiles)))"
      using s1(2) by (simp only: not_False_eq_True if_True append_Nil) blast
    obtain s2 where s2: "w_fs s2 = w_fs s" "if None \<notin> set (map ?K kubeconfigCerts)
        then \<exists>k. ?g l s1 = (Ok (l @ k), s2) \<and> mset k = mset (concat (map the (map ?K kubeconfigCerts)))
        else \<exists>e. ?g l s1 = (Err e, s2)"
      using map_loop [where R = ?K and f = "detect_kubeconfig E d", OF kube s1(1)] by blast
    have then_kube: "Detect E d node s = seqE (?g l) (\<lambda>certs. ret \<lparr>dr_Node = node, dr_Certs = certs\<rparr>) s1"
      using l(1) unfolding Detect by (simp add: seqE_run [of "?f []"])
    show ?thesis
    proof (cases "None \<in> set (map ?K kubeconfigCerts)")
      case True
      then obtain e where "?g l s1 = (Err e, s2)" using s2(2) by (simp only: not_True_eq_False if_False) blast
      then have "Detect E d node s = (Err e, s2)" unfolding then_kube by (simp add: seqE_run [of "?g l"])
      then show ?thesis using s2(1) True by (intro exI [of _ s2]) (simp add: expected_reports_def)
    next
      case ks: False
      then obtain k where k: "?g l s1 = (Ok (l @ k), s2)" "mset k = mset (concat (map the (map ?K kubeconfigCerts)))"
        using s2(2) by (simp only: not_False_eq_True if_True) blast
      then have "Detect E d node s = (Ok \<lparr>dr_Node = node, dr_Certs = l @ k\<rparr>, s2)"
        unfolding then_kube by (simp add: seqE_run [of "?g l"] ret_run)
      then show ?thesis using s2(1) False ks l(2) k(2) by (intro exI [of _ s2]) (simp add: expected_reports_def)
    qed
  qed
qed

text \<open>
  C10. \<^verbatim>\<open>Detect\<close> reports exactly what is on disk, whatever order the two maps are visited in: it
  changes no file; if one of the seven PKI files, or a kubeconfig that exists, cannot be read as a
  certificate it returns an error and no partial result; otherwise its list is, up to order, one
  entry per PKI certificate and per existing kubeconfig, with the expiry, days left and status of
  the certificate in that file (no I/O faults, clock standing still during the call).
\<close>

theorem Detect_refines:
  assumes "no_faults E" and "\<forall>t. env_now E t = now"
  shows "\<exists>s'. w_fs s' = w_fs s \<and>
    (if None \<notin> set (expected_reports E d (w_fs s) now)
     then \<exists>r. Detect E d node s = (Ok r, s') \<and> dr_Node r = node \<and>
            mset (dr_Certs r) = mset (concat (map the (expected_reports E d (w_fs s) now)))
     else \<exists>e. Detect E d node s = (Err e, s'))"
  using Detect_run [OF assms] .

end
