(* ===== verification/Generator.thy ===== *)
theory Generator
  imports Detector
begin

text \<open>
  \<^verbatim>\<open>pkg/generator/generator.go\<close>: loading certificates and CA keys, generating a key, and the template
  of the renewed certificate. Parsing, PEM, the random numbers and RSA are the environment's.
\<close>

section \<open>Templates\<close>

definition certValidity :: int where
  "certValidity = 365 * 24 * ns_hour"

definition handled_oids :: "string list" where
  "handled_oids = [''2.5.29.17'', ''2.5.29.15'', ''2.5.29.37'', ''2.5.29.19'', ''2.5.29.14'', ''2.5.29.35'']"

definition filterExtensions :: "certificate \<Rightarrow> pkix_extension list" where
  "filterExtensions cert = filter (\<lambda>ext. oid_string (ext_Id ext) \<notin> set handled_oids) (Extensions cert)"

definition GenerateKey :: "env \<Rightarrow> rsa_key go" where
  "GenerateKey E =
     seqE tick (\<lambda>t. case env_gen_key E t of
         Inl e \<Rightarrow> fail (Wrapf ''generating RSA key'' e)
       | Inr key \<Rightarrow> ret key)"

text \<open>\<^verbatim>\<open>BuildTemplate\<close>; the first reading of the clock is for the log line.\<close>

definition BuildTemplate :: "env \<Rightarrow> certificate \<Rightarrow> certificate go" where
  "BuildTemplate E existing =
     seqE (time_now E) (\<lambda>_.
     seqE tick (\<lambda>t.
       case env_rand_serial E t of
         Inl e \<Rightarrow> fail (Wrapf ''generating serial number'' e)
       | Inr serial \<Rightarrow>
           seqE (time_now E) (\<lambda>now. ret (zero_certificate
             \<lparr>SerialNumber := serial,
              Subject := zero_name
                \<lparr>CommonName := CommonName (Subject existing),
                 Organization := Organization (Subject existing),
                 OrganizationalUnit := OrganizationalUnit (Subject existing),
                 Country := Country (Subject existing)\<rparr>,
              NotBefore := now - 10 * ns_minute,
              NotAfter := now + certValidity,
              DNSNames := DNSNames existing,
              IPAddresses := IPAddresses existing,
              URIs := URIs existing,
              KeyUsage := KeyUsage existing,
              ExtKeyUsage := ExtKeyUsage existing,
              IsCA := IsCA existing,
              BasicConstraintsValid := BasicConstraintsValid existing,
              ExtraExtensions := filterExtensions existing\<rparr>))))"

definition readPEMFile :: "env \<Rightarrow> string \<Rightarrow> string go" where
  "readPEMFile E path = wrapE (''reading file '' @ path) (os_ReadFile E path)"

definition LoadExistingCert :: "env \<Rightarrow> string \<Rightarrow> certificate go" where
  "LoadExistingCert E certPath =
     seqE (wrapE (''reading cert '' @ certPath) (readPEMFile E certPath)) (\<lambda>data.
       case env_pem_decode E data of
         None \<Rightarrow> fail (ErrMsg (''no PEM block in '' @ certPath))
       | Some (_, bytes) \<Rightarrow>
           (case env_parse_cert E bytes of
              Inl e \<Rightarrow> fail (Wrapf (''parsing cert '' @ certPath) e)
            | Inr cert \<Rightarrow> ret cert))"

definition EncodeKeyPEM :: "env \<Rightarrow> rsa_key \<Rightarrow> string" where
  "EncodeKeyPEM E key = env_pem_encode E ''RSA PRIVATE KEY'' (env_marshal_pkcs1 E key)"

definition EncodeCertPEM :: "env \<Rightarrow> string \<Rightarrow> string" where
  "EncodeCertPEM E certDER = env_pem_encode E ''CERTIFICATE'' certDER"

text \<open>\<^verbatim>\<open>LoadCAKey\<close>: PKCS#1 first, then PKCS#8; both failing reports the first error.\<close>

definition LoadCAKey :: "env \<Rightarrow> string \<Rightarrow> rsa_key go" where
  "LoadCAKey E keyPath =
     seqE (wrapE (''reading CA key '' @ keyPath) (readPEMFile E keyPath)) (\<lambda>data.
       case env_pem_decode E data of
         None \<Rightarrow> fail (ErrMsg (''no PEM block in CA key '' @ keyPath))
       | Some (_, bytes) \<Rightarrow>
           (case env_parse_pkcs1 E bytes of
              Inr key \<Rightarrow> ret key
            | Inl err \<Rightarrow>
                (case env_parse_pkcs8 E bytes of
                   Inl _ \<Rightarrow> fail (Wrapf (''parsing CA key '' @ keyPath @ '' (tried PKCS1 and PKCS8)'') err)
                 | Inr None \<Rightarrow> fail (ErrMsg (''CA key '' @ keyPath @ '' is not RSA''))
                 | Inr (Some rsaKey) \<Rightarrow> ret rsaKey)))"

definition LoadCACert :: "env \<Rightarrow> string \<Rightarrow> certificate go" where
  "LoadCACert E certPath = LoadExistingCert E certPath"

section \<open>What a template mirrors\<close>

definition mirrors :: "certificate \<Rightarrow> certificate \<Rightarrow> bool" where
  "mirrors existing template \<longleftrightarrow>
     DNSNames template = DNSNames existing \<and> IPAddresses template = IPAddresses existing \<and>
     URIs template = URIs existing \<and> KeyUsage template = KeyUsage existing \<and>
     ExtKeyUsage template = ExtKeyUsage existing \<and> IsCA template = IsCA existing \<and>
     BasicConstraintsValid template = BasicConstraintsValid existing \<and>
     CommonName (Subject template) = CommonName (Subject existing) \<and>
     Organization (Subject template) = Organization (Subject existing) \<and>
     OrganizationalUnit (Subject template) = OrganizationalUnit (Subject existing) \<and>
     Country (Subject template) = Country (Subject existing)"

lemma BuildTemplate_okD:
  assumes "BuildTemplate E c s = (Ok t, s')"
  shows "mirrors c t" and "ExtraExtensions t = filterExtensions c"
    and "EmailAddresses t = []" and "UnknownExtKeyUsage t = []" and "MaxPathLen t = 0"
    and "Locality (Subject t) = []" and "Province (Subject t) = []"
    and "\<exists>k. env_rand_serial E k = Inr (SerialNumber t)"
    and "w_fs s' = w_fs s"
    and "NotBefore t = env_now E (w_tick s + 2) - 10 * ns_minute" and "NotAfter t = env_now E (w_tick s + 2) + certValidity"
  using assms
  by (auto simp: BuildTemplate_def mirrors_def time_now_def ok_iff tick_def zero_certificate_def zero_name_def
      split: sum.splits)

lemma BuildTemplate_no_panic: "fst (BuildTemplate E c s) \<noteq> Panic p"
  by (simp add: BuildTemplate_def time_now_def tick_def go_run split: sum.splits)

text \<open>
  C31. The template of a renewal asks for exactly the names, addresses, usages and CA flag of the
  certificate it replaces, a serial number from the random source, a validity of ten minutes back
  to 365 days ahead of the clock, and every extension of the old certificate that none of the
  template's own fields produces, in the old order; building it changes nothing on the node.
\<close>

theorem template_mirrors:
  assumes "BuildTemplate E existing s = (Ok t, s')"
  shows "mirrors existing t \<and> (\<exists>k. env_rand_serial E k = Inr (SerialNumber t)) \<and>
    (\<exists>now. NotBefore t = now - 10 * ns_minute \<and> NotAfter t = now + 365 * 24 * ns_hour \<and> (\<exists>k. now = env_now E k)) \<and>
    ExtraExtensions t = filter (\<lambda>x. oid_string (ext_Id x) \<notin> set handled_oids) (Extensions existing) \<and>
    w_fs s' = w_fs s"
  using BuildTemplate_okD [OF assms]
  by (auto simp: filterExtensions_def certValidity_def)

lemma handled_oid_strings:
  "oid_string [2, 5, 29, 17] = ''2.5.29.17''" "oid_string [2, 5, 29, 37] = ''2.5.29.37''"
  "oid_string [2, 5, 29, 19] = ''2.5.29.19''"
  by code_simp+

lemma filterExtensions_unhandled: "x \<in> set (filterExtensions c) \<Longrightarrow> oid_string (ext_Id x) \<notin> set handled_oids"
  by (simp add: filterExtensions_def)

text \<open>
  The mirror is not exact: whatever the old certificate says, the template has no e-mail
  names, no extended key usage outside Go's own list, no path length, and no locality or province
  in its subject; the extensions that carried them are filtered out too, so the renewed
  certificate loses them.
\<close>

theorem template_loses:
  assumes "BuildTemplate E existing s = (Ok t, s')"
  shows "EmailAddresses t = [] \<and> UnknownExtKeyUsage t = [] \<and> MaxPathLen t = 0 \<and>
    Locality (Subject t) = [] \<and> Province (Subject t) = [] \<and>
    {[2, 5, 29, 17], [2, 5, 29, 37], [2, 5, 29, 19]} \<inter> ext_Id ` set (ExtraExtensions t) = {}"
  using BuildTemplate_okD [OF assms] handled_oid_strings filterExtensions_unhandled [of _ existing]
  by (fastforce simp: handled_oids_def)

text \<open>
  A renewal ends the need for renewal: for every threshold up to 63 days, a certificate with
  the validity the template asks for is classified OK at any moment of the first 300 days after
  the template was built, so the next checks do not renew it again.
\<close>

theorem renewed_cert_is_ok:
  assumes "BuildTemplate E existing s = (Ok t, s')" and "0 \<le> thresholdDays d" and "thresholdDays d \<le> 63"
    and "later \<le> env_now E (w_tick s + 2) + 300 * ns_day"
  shows "classify d (residual_days (NotAfter t) later) = StatusOK"
proof -
  have na: "NotAfter t = env_now E (w_tick s + 2) + 365 * ns_day"
    using BuildTemplate_okD(11) [OF assms(1)] by (simp add: certValidity_def ns_day_def)
  have "residual_days (NotAfter t) later \<le> q \<longleftrightarrow> False" if "0 \<le> q" "q \<le> 63" for q
    using residual_days_le_iff [OF that, of "NotAfter t" later] that assms(4) na by (simp add: ns_day_def)
  from this [of 0] this [OF assms(2,3)] show ?thesis by (simp add: classify_def)
qed

end
