(* ===== verification/Signer.thy ===== *)
theory Signer
  imports Generator Backup
begin

text \<open>
  \<^verbatim>\<open>pkg/signer/signer.go\<close>: signing a template, the renewal of one certificate, and which CA signs
  which certificate. \<^verbatim>\<open>SignWithSelfKey\<close> takes its generator as a Go interface: a record of the four
  methods here, with the contract the signer relies on as a locale.
\<close>

section \<open>Operations\<close>

record cert_generator =
  gen_GenerateKey :: "rsa_key go"
  gen_BuildTemplate :: "certificate \<Rightarrow> certificate go"
  gen_EncodeKeyPEM :: "rsa_key \<Rightarrow> string"
  gen_EncodeCertPEM :: "string \<Rightarrow> string"

definition the_generator :: "env \<Rightarrow> cert_generator" where
  "the_generator E = \<lparr>gen_GenerateKey = GenerateKey E, gen_BuildTemplate = BuildTemplate E,
     gen_EncodeKeyPEM = EncodeKeyPEM E, gen_EncodeCertPEM = EncodeCertPEM E\<rparr>"

definition Sign :: "env \<Rightarrow> certificate \<Rightarrow> certificate \<Rightarrow> rsa_key \<Rightarrow> rsa_pub \<Rightarrow> string go" where
  "Sign E template caCert caKey pubKey =
     seqE tick (\<lambda>t. case env_create_cert E t template caCert pubKey caKey of
         Inl e \<Rightarrow> fail (Wrapf (''signing certificate '' @ CommonName (Subject template)) e)
       | Inr certDER \<Rightarrow> ret certDER)"

definition SignWithSelfKey :: "env \<Rightarrow> certificate \<Rightarrow> certificate \<Rightarrow> rsa_key \<Rightarrow> cert_generator \<Rightarrow> (string \<times> string) go" where
  "SignWithSelfKey E existing caCert caKey gen =
     seqE (wrapE ''generating key'' (gen_GenerateKey gen)) (\<lambda>newKey.
     seqE (wrapE ''building template'' (gen_BuildTemplate gen existing)) (\<lambda>template.
     seqE (Sign E template caCert caKey (PublicKey newKey)) (\<lambda>certDER.
     ret (gen_EncodeCertPEM gen certDER, gen_EncodeKeyPEM gen newKey))))"

definition CAForCert :: "string \<Rightarrow> string \<times> string" where
  "CAForCert certName =
     (if certName \<in> {''etcd-server'', ''etcd-peer'', ''etcd-healthcheck-client'', ''apiserver-etcd-client''}
      then (''/etc/kubernetes/pki/etcd/ca.crt'', ''/etc/kubernetes/pki/etcd/ca.key'')
      else if certName = ''front-proxy-client''
      then (''/etc/kubernetes/pki/front-proxy-ca.crt'', ''/etc/kubernetes/pki/front-proxy-ca.key'')
      else (''/etc/kubernetes/pki/ca.crt'', ''/etc/kubernetes/pki/ca.key''))"

section \<open>The contract of the generator\<close>

locale template_source =
  fixes gen :: cert_generator
  assumes template_mirror: "gen_BuildTemplate gen c s = (Ok t, s') \<Longrightarrow> mirrors c t"
    and generator_total: "fst (gen_GenerateKey gen s) \<noteq> Panic p" "fst (gen_BuildTemplate gen c s) \<noteq> Panic p"
    and generator_pure: "keeps (changes_only {}) (gen_GenerateKey gen)" "keeps (changes_only {}) (gen_BuildTemplate gen c)"
begin

lemma signed_pair:
  assumes "SignWithSelfKey E existing caCert caKey gen s = (Ok (certPEM, keyPEM), s')"
  shows "\<exists>key template der t. mirrors existing template \<and>
    env_create_cert E t template caCert (PublicKey key) caKey = Inr der \<and>
    certPEM = gen_EncodeCertPEM gen der \<and> keyPEM = gen_EncodeKeyPEM gen key"
proof -
  from assms obtain key s1 template s2 der where
    "gen_BuildTemplate gen existing s1 = (Ok template, s2)"
    "env_create_cert E (w_tick s2) template caCert (PublicKey key) caKey = Inr der"
    "certPEM = gen_EncodeCertPEM gen der" "keyPEM = gen_EncodeKeyPEM gen key"
    unfolding SignWithSelfKey_def Sign_def by (auto simp: ok_iff tick_def)
  then show ?thesis using template_mirror by blast
qed

lemma sign_keeps_files: "keeps (changes_only {}) (SignWithSelfKey E existing caCert caKey gen)"
  unfolding SignWithSelfKey_def Sign_def
  by (intro fs_frame.keeps_seqE fs_frame.keeps_wrapE generator_pure fs_frame.keeps_tick)
     (auto intro: fs_frame.keeps_ret fs_frame.keeps_fail split: sum.splits)

lemma sign_total: "fst (SignWithSelfKey E existing caCert caKey gen s) \<noteq> Panic p"
proof -
  have "m s \<noteq> (Panic q, s')" if "\<And>s p. fst (m s) \<noteq> Panic p" for m :: "'x go" and q s s'
    using that by (metis fst_conv)
  note no = this [of "gen_GenerateKey gen"] this [of "gen_BuildTemplate gen existing"]
  show ?thesis using generator_total no
    by (auto simp: SignWithSelfKey_def Sign_def go_run tick_def split: prod.splits outcome.splits sum.splits)
qed

end

section \<open>Signing only looks\<close>

context tick_blind begin

lemma keeps_if [keeps_intro]: "(b \<Longrightarrow> keeps R f) \<Longrightarrow> (\<not> b \<Longrightarrow> keeps R g) \<Longrightarrow> keeps R (if b then f else g)"
  by simp

lemma keeps_LoadExistingCert [keeps_intro]: "keeps R (LoadExistingCert E path)"
  unfolding LoadExistingCert_def readPEMFile_def
  by (auto intro!: keeps_seqE keeps_wrapE keeps_ReadFile keeps_ret keeps_fail split: option.split sum.split)

lemma keeps_LoadCAKey [keeps_intro]: "keeps R (LoadCAKey E path)"
  unfolding LoadCAKey_def readPEMFile_def
  by (auto intro!: keeps_seqE keeps_wrapE keeps_ReadFile keeps_ret keeps_fail split: option.split sum.split)

lemma keeps_GenerateKey [keeps_intro]: "keeps R (GenerateKey E)"
  unfolding GenerateKey_def by (auto intro!: keeps_seqE keeps_tick keeps_ret keeps_fail split: sum.split)

lemma keeps_BuildTemplate [keeps_intro]: "keeps R (BuildTemplate E c)"
  unfolding BuildTemplate_def
  by (auto intro!: keeps_seqE keeps_tick keeps_time_now keeps_ret keeps_fail split: sum.split)

lemma keeps_Sign [keeps_intro]: "keeps R (Sign E template ca key pub)"
  unfolding Sign_def by (auto intro!: keeps_seqE keeps_tick keeps_ret keeps_fail split: sum.split)

lemma keeps_SignWithSelfKey [keeps_intro]: "keeps R (SignWithSelfKey E c ca key (the_generator E))"
  unfolding SignWithSelfKey_def the_generator_def
  by (auto intro!: keeps_seqE keeps_wrapE keeps_GenerateKey keeps_BuildTemplate keeps_Sign keeps_ret)

end

interpretation generator: template_source "the_generator E" for E
proof unfold_locales
  show "gen_BuildTemplate (the_generator E) c s = (Ok t, s') \<Longrightarrow> mirrors c t" for c s t s'
    by (simp add: the_generator_def BuildTemplate_okD)
  show "fst (gen_GenerateKey (the_generator E) s) \<noteq> Panic p" for s p
    by (simp add: the_generator_def GenerateKey_def tick_def go_run split: sum.splits)
qed (simp_all add: the_generator_def BuildTemplate_no_panic fs_frame.keeps_GenerateKey fs_frame.keeps_BuildTemplate)

section \<open>Properties\<close>

text \<open>
  A renewed pair belongs together: the certificate \<^verbatim>\<open>SignWithSelfKey\<close> returns is the CA's
  signature, with the CA certificate and key it was given, over a template that mirrors the old
  certificate and the public half of the very private key it returns.
\<close>

theorem SignWithSelfKey_pair:
  assumes "SignWithSelfKey E existing caCert caKey (the_generator E) s = (Ok (certPEM, keyPEM), s')"
  shows "\<exists>key template der t. mirrors existing template \<and>
    env_create_cert E t template caCert (PublicKey key) caKey = Inr der \<and>
    certPEM = EncodeCertPEM E der \<and> keyPEM = EncodeKeyPEM E key"
  using generator.signed_pair [OF assms] by (simp add: the_generator_def)

text \<open>The certificates each CA is responsible for, by the layout of the PKI directory.\<close>

definition ca_dir_of :: "string \<Rightarrow> string" where
  "ca_dir_of rel = (if filepath_Dir rel = ''etcd'' \<or> rel = ''apiserver-etcd-client.crt'' then ''etcd/ca''
     else if rel = ''front-proxy-client.crt'' then ''front-proxy-ca'' else ''ca'')"

text \<open>
  Each certificate the detector can find is signed by its own CA: those under \<^verbatim>\<open>etcd/\<close> and the
  apiserver's client certificate for etcd by the etcd CA, the front proxy's by the front-proxy CA,
  all others by the cluster CA; both files of that CA are among those the backup saves, when the
  PKI directory is the default one.
\<close>

theorem CA_routing:
  "list_all (\<lambda>(name, rel).
     CAForCert name = (''/etc/kubernetes/pki/'' @ ca_dir_of rel @ ''.crt'', ''/etc/kubernetes/pki/'' @ ca_dir_of rel @ ''.key'') \<and>
     ca_dir_of rel @ ''.crt'' \<in> set pkiFiles \<and> ca_dir_of rel @ ''.key'' \<in> set pkiFiles) certFiles"
  by (simp add: certFiles_def CAForCert_def ca_dir_of_def pkiFiles_def filepath_Dir_def filepath_Clean_def
      resolve_def path_step_def is_rooted_def)

end
