(* ===== verification/Witnesses_Certs.thy ===== *)
theory Witnesses_Certs
  imports Scenario Signer
begin

text \<open>The theorems on detection, templates and signing, applied on the node of \<open>Scenario\<close>.\<close>

definition det :: detector where
  "det = detector_New pki_dir ''/etc/kubernetes'' 30"

lemma det_threshold: "0 \<le> thresholdDays det" "thresholdDays det \<le> 63"
  by (simp_all add: det_def detector_New_def)

theorem status_by_clock_witness:
  "classify det (residual_days (base_time + ns_day - 1) base_time) = StatusExpired \<and>
   classify det (residual_days (base_time + 31 * ns_day) base_time) = StatusOK"
  using status_by_clock [OF det_threshold, of "base_time + ns_day - 1" base_time]
    status_by_clock [OF det_threshold, of "base_time + 31 * ns_day" base_time]
  by (simp add: det_def detector_New_def ns_day_def)

theorem urgency_grows_witness:
  "classify det (residual_days (base_time + 90 * ns_day) base_time) \<le>
   classify det (residual_days (base_time + 90 * ns_day) (base_time + 80 * ns_day))"
  by (rule urgency_grows [OF det_threshold]) (simp add: ns_day_def)

theorem extract_correct_witness:
  "\<exists>c. extractClientCertData (Some [(''users'', JArr [JNull, JObj [(''user'', JObj [(''clientCertificateData'', JStr ''Pd'')])]])]) ''x''
     = Inr c \<and> c \<noteq> ''''"
  using extract_correct [of "[(''users'', JArr [JNull, JObj [(''user'', JObj [(''clientCertificateData'', JStr ''Pd'')])]])]"
      "[JNull, JObj [(''user'', JObj [(''clientCertificateData'', JStr ''Pd'')])]]" "''x''"]
  by (fastforce simp: embedded_cert_def cert_keys_def)

text \<open>On the node only the apiserver's certificate is due.\<close>

definition one_due :: "cert_info list option list \<Rightarrow> bool" where
  "one_due rs \<longleftrightarrow> None \<notin> set rs \<and> length (concat (map the rs)) = 10 \<and>
     map ci_Name (filter (\<lambda>c. ci_Status c \<noteq> StatusOK) (concat (map the rs))) = [''apiserver'']"

lemma one_dueD: "one_due rs \<Longrightarrow> None \<notin> set rs" "one_due rs \<Longrightarrow> length (concat (map the rs)) = 10"
  "one_due rs \<Longrightarrow> \<exists>c\<in>set (concat (map the rs)). ci_Status c \<noteq> StatusOK"
proof -
  assume "one_due rs"
  then have "filter (\<lambda>c. ci_Status c \<noteq> StatusOK) (concat (map the rs)) \<noteq> []" by (auto simp: one_due_def)
  then show "\<exists>c\<in>set (concat (map the rs)). ci_Status c \<noteq> StatusOK" unfolding filter_empty_conv by blast
qed (simp_all add: one_due_def)

lemma node_reports: "one_due (expected_reports frozen det (w_fs node_world) base_time)"
  by code_simp

theorem Detect_refines_witness:
  "\<exists>r s'. Detect frozen det ''n'' node_world = (Ok r, s') \<and> length (dr_Certs r) = 10 \<and> NeedsRenewal r"
proof -
  have "\<forall>t. env_now frozen t = base_time" by (simp add: frozen_def)
  from Detect_refines [OF calm_no_faults(2) this, of node_world det "''n''"] one_dueD(1) [OF node_reports]
  obtain r s' where r: "Detect frozen det ''n'' node_world = (Ok r, s')"
    "mset (dr_Certs r) = mset (concat (map the (expected_reports frozen det (w_fs node_world) base_time)))" by auto
  have "NeedsRenewal r" using mset_eq_setD [OF r(2)] one_dueD(3) [OF node_reports] by (simp add: NeedsRenewal_def)
  moreover have "length (dr_Certs r) = 10" using mset_eq_length [OF r(2)] one_dueD(2) [OF node_reports] by simp
  ultimately show ?thesis using r(1) by blast
qed

definition old_cert :: certificate where
  "old_cert = zero_certificate\<lparr>DNSNames := [''kubernetes''], EmailAddresses := [''a@b''], KeyUsage := 5,
     Extensions := [\<lparr>ext_Id = [2, 5, 29, 17], ext_Critical = False, ext_Value = ''san''\<rparr>,
                    \<lparr>ext_Id = [1, 2, 3], ext_Critical = False, ext_Value = ''x''\<rparr>]\<rparr>"

definition built :: "certificate outcome \<times> world" where
  "built = BuildTemplate calm old_cert node_world"

lemma built_ok: obtains t where "BuildTemplate calm old_cert node_world = (Ok t, snd built)"
proof -
  have "(case fst built of Ok t \<Rightarrow> True | _ \<Rightarrow> False)" by code_simp
  then obtain t where "fst built = Ok t" by (cases "fst built") auto
  then show ?thesis using that by (simp add: built_def prod_eq_iff)
qed

theorem template_mirrors_witness:
  "\<exists>t s'. BuildTemplate calm old_cert node_world = (Ok t, s') \<and> DNSNames t = [''kubernetes''] \<and> KeyUsage t = 5"
proof -
  obtain t where t: "BuildTemplate calm old_cert node_world = (Ok t, snd built)" by (rule built_ok)
  from template_mirrors [OF t] show ?thesis using t by (auto simp: mirrors_def old_cert_def)
qed

theorem template_loses_witness:
  "EmailAddresses old_cert = [''a@b''] \<and>
   (\<exists>t s'. BuildTemplate calm old_cert node_world = (Ok t, s') \<and> EmailAddresses t = [])"
proof -
  obtain t where t: "BuildTemplate calm old_cert node_world = (Ok t, snd built)" by (rule built_ok)
  from template_loses [OF t] show ?thesis using t by (auto simp: old_cert_def)
qed

theorem renewed_cert_is_ok_witness:
  "\<exists>t s'. BuildTemplate calm old_cert node_world = (Ok t, s') \<and> classify det (residual_days (NotAfter t) base_time) = StatusOK"
proof -
  obtain t where t: "BuildTemplate calm old_cert node_world = (Ok t, snd built)" by (rule built_ok)
  have "base_time \<le> env_now calm (w_tick node_world + 2) + 300 * ns_day"
    by (simp add: calm_def ns_day_def)
  from renewed_cert_is_ok [OF t det_threshold this] show ?thesis using t by blast
qed

theorem SignWithSelfKey_pair_witness:
  "\<exists>certPEM keyPEM s' key template. SignWithSelfKey calm old_cert old_cert (RSAKey 1) (the_generator calm) node_world
      = (Ok (certPEM, keyPEM), s') \<and> mirrors old_cert template \<and> keyPEM = EncodeKeyPEM calm key"
proof -
  let ?run = "SignWithSelfKey calm old_cert old_cert (RSAKey 1) (the_generator calm) node_world"
  have "(case fst ?run of Ok p \<Rightarrow> True | _ \<Rightarrow> False)" by code_simp
  then obtain p where "fst ?run = Ok p" by (cases "fst ?run") auto
  then have run: "?run = (Ok (fst p, snd p), snd ?run)" by (simp add: prod_eq_iff)
  from SignWithSelfKey_pair [OF run] run show ?thesis by blast
qed

end
