(* ===== verification/Podrestart.thy ===== *)
theory Podrestart
  imports World_Lemmas Go_Time Writer
begin

text \<open>
  \<^verbatim>\<open>pkg/podrestart/podrestart.go\<close>: restarting the static pods by changing an annotation in their
  manifests, which kubelet watches.
\<close>

definition restartOrder :: "string list" where
  "restartOrder = [''etcd'', ''kube-apiserver'', ''kube-controller-manager'', ''kube-scheduler'']"

record restart_manager =
  manifestDir :: string
  restart_dryRun :: bool

definition podrestart_New :: "string \<Rightarrow> bool \<Rightarrow> restart_manager" where
  "podrestart_New dir dry = \<lparr>manifestDir = dir, restart_dryRun = dry\<rparr>"

text \<open>
  \<^verbatim>\<open>injectRestartAnnotation\<close>. The inner maps are shared with the manifest, so updating them updates
  it; here they are put back. A manifest that decodes to a nil map panics on the first assignment.
\<close>

definition restart_key :: string where
  "restart_key = ''cert-rotator/restarted-at''"

definition obj_at :: "json_map \<Rightarrow> string \<Rightarrow> json_map" where
  "obj_at m k = (case map_of m k of Some (JObj o') \<Rightarrow> o' | _ \<Rightarrow> [])"

definition annotate :: "string \<Rightarrow> json_map \<Rightarrow> json_map" where
  "annotate stamp manifest =
     (let metadata = obj_at manifest ''metadata'';
          annotations = AList.update restart_key (JStr stamp) (obj_at metadata ''annotations'')
      in AList.update ''metadata'' (JObj (AList.update ''annotations'' (JObj annotations) metadata)) manifest)"

definition injectRestartAnnotation :: "env \<Rightarrow> string \<Rightarrow> string go" where
  "injectRestartAnnotation E data =
     (case env_yaml_to_json E data of
        Inl e \<Rightarrow> fail (Wrapf ''parsing manifest'' e)
      | Inr j \<Rightarrow>
     (case unmarshal_map j of
        Inl e \<Rightarrow> fail (Wrapf ''parsing manifest'' e)
      | Inr None \<Rightarrow> panic ''assignment to entry in nil map''
      | Inr (Some manifest) \<Rightarrow>
          seqE (time_now E) (\<lambda>now.
          case env_json_to_yaml E (JObj (annotate (rfc3339_utc now) manifest)) of
            Inl e \<Rightarrow> fail (Wrapf ''marshalling updated manifest'' e)
          | Inr updated \<Rightarrow> ret updated)))"

text \<open>The manifest's path: \<^verbatim>\<open>.yaml\<close>, or \<^verbatim>\<open>.yml\<close> when that does not exist; other errors are ignored.\<close>

definition find_manifest :: "env \<Rightarrow> restart_manager \<Rightarrow> string \<Rightarrow> string go" where
  "find_manifest E m name =
     (let yaml = filepath_Join [manifestDir m, name @ ''.yaml''];
          yml = filepath_Join [manifestDir m, name @ ''.yml''] in
      bindE (os_Stat E yaml)
        (\<lambda>e. if is_not_exist e
              then bindE (os_Stat E yml)
                     (\<lambda>e'. if is_not_exist e'
                            then fail (ErrMsg (''manifest not found for '' @ name @ '' in '' @ manifestDir m))
                            else ret yml)
                     (\<lambda>_. ret yml)
              else ret yaml)
        (\<lambda>_. ret yaml))"

definition Restart :: "env \<Rightarrow> restart_manager \<Rightarrow> string \<Rightarrow> unit go" where
  "Restart E m name =
     seqE (find_manifest E m name) (\<lambda>manifestPath.
     if restart_dryRun m then ret ()
     else
       seqE (wrapE (''reading manifest '' @ manifestPath) (os_ReadFile E manifestPath)) (\<lambda>data.
       seqE (wrapE (''injecting restart annotation into '' @ name) (injectRestartAnnotation E data)) (\<lambda>updated.
       seqE (wrapE (''statting manifest '' @ manifestPath) (os_Stat E manifestPath)) (\<lambda>info.
       wrapE (''writing manifest '' @ manifestPath) (os_WriteFile E manifestPath updated (fi_Mode info))))))"

definition restart_and_wait :: "env \<Rightarrow> restart_manager \<Rightarrow> string \<Rightarrow> unit go" where
  "restart_and_wait E m name =
     seqE (wrapE (''restarting '' @ name) (Restart E m name)) (\<lambda>_.
     if restart_dryRun m then ret () else time_sleep E (10 * ns_second))"

definition RestartAll :: "env \<Rightarrow> restart_manager \<Rightarrow> unit go" where
  "RestartAll E m = for_each (restart_and_wait E m) restartOrder"

text \<open>
  \<^verbatim>\<open>WaitForReady\<close> polls until the deadline; \<open>fuel\<close> bounds the polls and \<open>None\<close> says it ran out,
  which only a clock that does not advance can cause.
\<close>

fun wait_loop :: "nat \<Rightarrow> env \<Rightarrow> string \<Rightarrow> string \<Rightarrow> int \<Rightarrow> world \<Rightarrow> (unit outcome \<times> world) option" where
  "wait_loop 0 E name path deadline w = None"
| "wait_loop (Suc fuel) E name path deadline w =
     (case time_now E w of
        (Ok now, w1) \<Rightarrow>
          if now < deadline then
            (case catchE (os_Stat E path) w1 of
               (Ok (Inr info), w2) \<Rightarrow>
                 if fi_Size info > 0 then Some (Ok (), w2)
                 else wait_loop fuel E name path deadline (snd (time_sleep E (2 * ns_second) w2))
             | (_, w2) \<Rightarrow> wait_loop fuel E name path deadline (snd (time_sleep E (2 * ns_second) w2)))
          else Some (Err (ErrMsg (''timeout waiting for manifest '' @ name @ '' to be ready'')), w1)
      | (r, w1) \<Rightarrow> None)"

definition WaitForReady :: "nat \<Rightarrow> env \<Rightarrow> restart_manager \<Rightarrow> string \<Rightarrow> int \<Rightarrow> world \<Rightarrow> (unit outcome \<times> world) option" where
  "WaitForReady fuel E m name timeout w =
     (let path = filepath_Join [manifestDir m, name @ ''.yaml''] in
      case time_now E w of
        (Ok now, w1) \<Rightarrow> wait_loop fuel E name path (now + timeout) w1
      | (r, w1) \<Rightarrow> None)"

section \<open>The annotation\<close>

lemma obj_at_update [simp]: "obj_at (AList.update k (JObj o') m) k' = (if k' = k then o' else obj_at m k')"
  by (simp add: obj_at_def)

text \<open>
  Restarting a pod edits one value of its manifest: after \<open>annotate\<close> the restart annotation
  holds the time stamp, and every other annotation, every other metadata field and every other
  top-level field of the manifest reads as before.
\<close>

theorem annotate_one_value:
  "map_of (obj_at (obj_at (annotate stamp m) ''metadata'') ''annotations'') k =
     (if k = restart_key then Some (JStr stamp) else map_of (obj_at (obj_at m ''metadata'') ''annotations'') k) \<and>
   map_of (obj_at (annotate stamp m) ''metadata'') k =
     (if k = ''annotations'' then Some (JObj (obj_at (obj_at (annotate stamp m) ''metadata'') ''annotations''))
      else map_of (obj_at m ''metadata'') k) \<and>
   map_of (annotate stamp m) k =
     (if k = ''metadata'' then Some (JObj (obj_at (annotate stamp m) ''metadata'')) else map_of m k)"
  by (simp add: annotate_def Let_def)

section \<open>Restarting one pod\<close>

definition manifest_paths :: "restart_manager \<Rightarrow> string \<Rightarrow> string set" where
  "manifest_paths m name = {filepath_Join [manifestDir m, name @ ''.yaml''], filepath_Join [manifestDir m, name @ ''.yml'']}"

context tick_blind begin

lemma keeps_find_manifest [keeps_intro]: "keeps R (find_manifest E m name)"
  unfolding find_manifest_def Let_def
  by (auto intro!: keeps_bindE keeps_Stat keeps_ret keeps_fail)

lemma keeps_inject [keeps_intro]: "keeps R (injectRestartAnnotation E data)"
  unfolding injectRestartAnnotation_def
  by (auto intro!: keeps_ret keeps_fail keeps_panic keeps_seqE keeps_time_now split: sum.split option.split)

end

lemma find_manifest_okD: "find_manifest E m name s = (Ok p, s') \<Longrightarrow> p \<in> manifest_paths m name"
  by (auto simp: find_manifest_def manifest_paths_def ok_iff Let_def split: if_splits)

lemma inject_okD:
  assumes "injectRestartAnnotation E data s = (Ok text, s')"
  shows "\<exists>manifest now. env_yaml_to_json E data = Inr (JObj manifest) \<and>
    env_json_to_yaml E (JObj (annotate (rfc3339_utc now) manifest)) = Inr text"
proof -
  from assms obtain j where j: "env_yaml_to_json E data = Inr j" by (auto simp: injectRestartAnnotation_def ok_iff)
  then show ?thesis using assms by (cases j) (auto simp: injectRestartAnnotation_def ok_iff)
qed

text \<open>\<^verbatim>\<open>Restart\<close> up to the write, which is all that can change or write anything.\<close>

definition plan_restart :: "env \<Rightarrow> restart_manager \<Rightarrow> string \<Rightarrow> (string \<times> string \<times> nat) option go" where
  "plan_restart E m name =
     seqE (find_manifest E m name) (\<lambda>manifestPath.
     if restart_dryRun m then ret None
     else
       seqE (wrapE (''reading manifest '' @ manifestPath) (os_ReadFile E manifestPath)) (\<lambda>data.
       seqE (wrapE (''injecting restart annotation into '' @ name) (injectRestartAnnotation E data)) (\<lambda>updated.
       seqE (wrapE (''statting manifest '' @ manifestPath) (os_Stat E manifestPath)) (\<lambda>info.
       ret (Some (manifestPath, updated, fi_Mode info))))))"

lemma Restart_plan:
  "Restart E m name = seqE (plan_restart E m name) (\<lambda>p. case p of
      None \<Rightarrow> ret ()
    | Some (path, text, mode) \<Rightarrow> wrapE (''writing manifest '' @ path) (os_WriteFile E path text mode))"
  by (rule ext) (auto simp: Restart_def plan_restart_def seqE_run split: prod.splits outcome.splits)

context tick_blind begin

lemma keeps_plan_restart [keeps_intro]: "keeps R (plan_restart E m name)"
  unfolding plan_restart_def
  by (auto intro!: keeps_seqE keeps_wrapE keeps_find_manifest keeps_ReadFile keeps_inject keeps_Stat keeps_ret)

end

lemma plan_restart_okD:
  assumes "plan_restart E m name s = (Ok (Some (path, text, mode)), s')"
  shows "path \<in> manifest_paths m name" and "w_fs s' = w_fs s"
    and "\<exists>data md manifest now. fs_get (w_fs s) (resolve path) = Some (Reg data md) \<and>
      env_yaml_to_json E data = Inr (JObj manifest) \<and>
      env_json_to_yaml E (JObj (annotate (rfc3339_utc now) manifest)) = Inr text"
proof -
  from assms obtain p s1 data s2 s3 where p: "find_manifest E m name s = (Ok p, s1)"
    and r: "os_ReadFile E p s1 = (Ok data, s2)"
    and i: "injectRestartAnnotation E data s2 = (Ok text, s3)" and path: "p = path"
    by (auto simp: plan_restart_def ok_iff split: if_splits)
  show "path \<in> manifest_paths m name" using find_manifest_okD [OF p] path by simp
  have fs: "w_fs s1 = w_fs s"
    using quietD(1) [OF keepsD [OF look.keeps_find_manifest p]] .
  show "w_fs s' = w_fs s"
    using quietD(1) [OF keepsD [OF look.keeps_plan_restart assms]] .
  show "\<exists>data md manifest now. fs_get (w_fs s) (resolve path) = Some (Reg data md) \<and>
      env_yaml_to_json E data = Inr (JObj manifest) \<and>
      env_json_to_yaml E (JObj (annotate (rfc3339_utc now) manifest)) = Inr text"
    using ReadFile_okD(1) [OF r] fs path inject_okD [OF i] by metis
qed

lemma WriteFile_trace:
  assumes "os_WriteFile E path text mode s = (r, s')"
  shows "\<exists>es. w_trace s' = w_trace s @ es \<and> (es = [] \<or> es = [EvWrite path]) \<and> (\<forall>u. r = Ok u \<longrightarrow> es = [EvWrite path])"
  using assms
  by (auto simp: os_WriteFile_def open_trunc_def write_data_def syscall_def go_run tick_def get_fs_def put_fs_def
      emit_def Let_def split: option.splits fnode.splits if_splits)

text \<open>
  A successful restart of one pod writes one file, the pod's manifest: its content becomes the
  YAML text of what was there with the restart annotation set, its permission bits stay, no other
  path changes, and the write is the only thing that happens.
\<close>

theorem Restart_writes_manifest:
  assumes "Restart E m name s = (Ok u, s')" and "\<not> restart_dryRun m"
  shows "\<exists>path data md manifest now text. path \<in> manifest_paths m name \<and>
    fs_get (w_fs s) (resolve path) = Some (Reg data md) \<and> env_yaml_to_json E data = Inr (JObj manifest) \<and>
    env_json_to_yaml E (JObj (annotate (rfc3339_utc now) manifest)) = Inr text \<and>
    fs_get (w_fs s') (resolve path) = Some (Reg text md) \<and>
    (\<forall>q. q \<noteq> resolve path \<longrightarrow> fs_get (w_fs s') q = fs_get (w_fs s) q) \<and>
    w_trace s' = w_trace s @ [EvWrite path]"
proof -
  from assms obtain path out mode s1 where p: "plan_restart E m name s = (Ok (Some (path, out, mode)), s1)"
    and w: "os_WriteFile E path out mode s1 = (Ok u, s')"
    unfolding Restart_plan by (auto simp: ok_iff) (auto simp: plan_restart_def ok_iff)
  from plan_restart_okD [OF p] obtain data md manifest now where
    d: "fs_get (w_fs s) (resolve path) = Some (Reg data md)" and fs: "w_fs s1 = w_fs s"
    and j: "env_yaml_to_json E data = Inr (JObj manifest)" "env_json_to_yaml E (JObj (annotate (rfc3339_utc now) manifest)) = Inr out"
    and path: "path \<in> manifest_paths m name" by blast
  have "fs_get (w_fs s') (resolve path) = Some (Reg out md)"
    using WriteFile_okD [OF w] d fs by (simp add: written_mode_def)
  moreover have "\<forall>q. q \<noteq> resolve path \<longrightarrow> fs_get (w_fs s') q = fs_get (w_fs s) q"
    using keepsD [OF WriteFile_keeps_fs w, of "{resolve path}"] fs by (auto simp: changes_only_def)
  moreover have "w_trace s' = w_trace s @ [EvWrite path]"
    using WriteFile_trace [OF w] quietD(2) [OF keepsD [OF look.keeps_plan_restart p]] by auto
  ultimately show ?thesis using d j path by blast
qed

section \<open>Restarting all pods\<close>

lemma plan_restart_some: "\<not> restart_dryRun m \<Longrightarrow> plan_restart E m name s \<noteq> (Ok None, t)"
  by (auto simp: plan_restart_def ok_iff)

lemma Restart_trace:
  assumes dry: "\<not> restart_dryRun m" and run: "Restart E m name s = (r, s')"
  shows "\<exists>path\<in>manifest_paths m name. \<exists>es. w_trace s' = w_trace s @ es \<and>
    (es = [] \<or> es = [EvWrite path]) \<and> (\<forall>u. r = Ok u \<longrightarrow> es = [EvWrite path])"
proof -
  obtain q s1 where p: "plan_restart E m name s = (q, s1)" by (cases "plan_restart E m name s")
  have t: "w_trace s1 = w_trace s" using quietD(2) [OF keepsD [OF look.keeps_plan_restart p]] .
  show ?thesis
  proof (cases q)
    case (Ok v)
    then obtain path out mode where o': "v = Some (path, out, mode)"
      using plan_restart_some [OF dry] p by (cases v) auto
    then have "path \<in> manifest_paths m name" using plan_restart_okD(1) p Ok by blast
    moreover obtain r' where w: "os_WriteFile E path out mode s1 = (r', s')" "\<And>u. r = outcome.Ok u \<Longrightarrow> r' = outcome.Ok ()"
      using run p Ok o' by (auto simp: Restart_plan go_run split: prod.splits outcome.splits)
    ultimately show ?thesis using WriteFile_trace [OF w(1)] t w(2) by fastforce
  next
    case (Err e)
    then show ?thesis using run p t by (auto simp: Restart_plan go_run manifest_paths_def)
  next
    case (Panic e)
    then show ?thesis using run p t by (auto simp: Restart_plan go_run manifest_paths_def)
  qed
qed

text \<open>What a complete restart of the pods with these manifests does, in order.\<close>

definition restart_events :: "string list \<Rightarrow> event list" where
  "restart_events paths = concat (map (\<lambda>p. [EvWrite p, EvSleep (10 * ns_second)]) paths)"

lemma restart_and_wait_trace:
  assumes dry: "\<not> restart_dryRun m" and run: "restart_and_wait E m name s = (r, s')"
  shows "\<exists>path\<in>manifest_paths m name. \<exists>es. w_trace s' = w_trace s @ es \<and> prefix es (restart_events [path]) \<and>
    (\<forall>u. r = Ok u \<longrightarrow> es = restart_events [path])"
proof -
  obtain q s1 where p: "Restart E m name s = (q, s1)" by (cases "Restart E m name s")
  from Restart_trace [OF dry p] obtain path es where t: "path \<in> manifest_paths m name"
    "w_trace s1 = w_trace s @ es" "es = [] \<or> es = [EvWrite path]" "\<forall>u. q = Ok u \<longrightarrow> es = [EvWrite path]" by blast
  have pre: "prefix es (restart_events [path])" using t(3) by (auto simp: restart_events_def)
  show ?thesis
  proof (cases q)
    case (Ok u)
    then have "w_trace s' = w_trace s @ restart_events [path]"
      using run p t dry by (auto simp: restart_and_wait_def go_run restart_events_def)
    then show ?thesis using t(1) by blast
  next
    case (Err e)
    then show ?thesis using run p t(1,2) pre by (auto simp: restart_and_wait_def go_run)
  next
    case (Panic e)
    then show ?thesis using run p t(1,2) pre by (auto simp: restart_and_wait_def go_run)
  qed
qed

text \<open>
  C20. The pods are restarted one at a time in the order etcd, kube-apiserver,
  kube-controller-manager, kube-scheduler, each followed by ten seconds of waiting, and nothing
  else happens: on every outcome the trace of \<^verbatim>\<open>RestartAll\<close> is a prefix of that sequence, so after
  a failure no later pod is touched, and when it returns nil it is the whole sequence.
\<close>

theorem RestartAll_order:
  assumes "\<not> restart_dryRun m" and "RestartAll E m s = (r, s')"
  shows "\<exists>paths es. list_all2 (\<lambda>p n. p \<in> manifest_paths m n) paths restartOrder \<and>
    w_trace s' = w_trace s @ es \<and> prefix es (restart_events paths) \<and> (\<forall>u. r = Ok u \<longrightarrow> es = restart_events paths)"
proof -
  have loop: "\<exists>paths es. list_all2 (\<lambda>p n. p \<in> manifest_paths m n) paths names \<and>
    w_trace s' = w_trace s @ es \<and> prefix es (restart_events paths) \<and> (\<forall>u. r = Ok u \<longrightarrow> es = restart_events paths)"
    if "for_each (restart_and_wait E m) names s = (r, s')" for names s
    using that
  proof (induction names arbitrary: s)
    case (Cons n ns)
    obtain q s1 where p: "restart_and_wait E m n s = (q, s1)" by (cases "restart_and_wait E m n s")
    from restart_and_wait_trace [OF assms(1) p] obtain path es where t: "path \<in> manifest_paths m n"
      "w_trace s1 = w_trace s @ es" "prefix es (restart_events [path])" "\<forall>u. q = Ok u \<longrightarrow> es = restart_events [path]"
      by blast
    have ex: "\<exists>ps. list_all2 (\<lambda>p n. p \<in> manifest_paths m n) ps ns"
      by (induction ns) (auto simp: list_all2_Cons2 manifest_paths_def)
    have app: "restart_events (path # ps) = restart_events [path] @ restart_events ps" for ps
      by (simp add: restart_events_def)
    show ?case
    proof (cases q)
      case (Ok u)
      then have "for_each (restart_and_wait E m) ns s1 = (r, s')" using Cons.prems p by (simp add: seqE_run)
      from Cons.IH [OF this] obtain ps fs where "list_all2 (\<lambda>p n. p \<in> manifest_paths m n) ps ns"
        "w_trace s' = w_trace s1 @ fs" "prefix fs (restart_events ps)" "\<forall>u. r = outcome.Ok u \<longrightarrow> fs = restart_events ps"
        by blast
      then show ?thesis using t Ok
        by (intro exI [of _ "path # ps"] exI [of _ "restart_events [path] @ fs"]) (auto simp: app [of ps])
    next
      case (Err e)
      then have "r = Err e" "s' = s1" using Cons.prems p by (simp_all add: seqE_run)
      then show ?thesis using ex t app by (metis list.rel_inject(2) outcome.distinct(1) prefix_prefix)
    next
      case (Panic e)
      then have "r = Panic e" "s' = s1" using Cons.prems p by (simp_all add: seqE_run)
      then show ?thesis using ex t app by (metis list.rel_inject(2) outcome.distinct(3) prefix_prefix)
    qed
  qed (auto simp: restart_events_def)
  show ?thesis by (rule loop) (use assms(2) in \<open>simp add: RestartAll_def\<close>)
qed

text \<open>
  A dry run restarts nothing: on every outcome the files, the trace and the API objects are as
  before.
\<close>

theorem RestartAll_dry_run:
  assumes "restart_dryRun m"
  shows "quiet s (snd (RestartAll E m s))"
proof -
  have "keeps quiet (Restart E m name)" for name
    unfolding Restart_def using assms by (auto intro!: look.keeps_seqE look.keeps_find_manifest look.keeps_ret)
  then have "keeps quiet (RestartAll E m)"
    unfolding RestartAll_def restart_and_wait_def using assms
    by (auto intro!: look.keeps_for_each look.keeps_seqE look.keeps_wrapE look.keeps_ret)
  then show ?thesis by (simp add: keeps_def)
qed

text \<open>
  C39. An empty manifest brings the controller down: when the manifest of a pod decodes to null,
  \<^verbatim>\<open>Restart\<close> assigns to a nil map and panics, with every file as it was (no I/O faults).
\<close>

theorem empty_manifest_panics:
  assumes "no_faults E" and "\<not> restart_dryRun m"
    and "fs_get (w_fs s) (resolve (filepath_Join [manifestDir m, name @ ''.yaml''])) = Some (Reg data md)"
    and "env_yaml_to_json E data = Inr JNull"
  shows "\<exists>s'. Restart E m name s = (Panic ''assignment to entry in nil map'', s') \<and> quiet s s'"
  using assms
  by (simp add: Restart_def find_manifest_def os_Stat_def syscall_nf go_run get_fs_def tick_def ReadFile_nf
      injectRestartAnnotation_def Let_def quiet_def)

section \<open>Waiting for a manifest\<close>

lemma time_now_eq: "time_now E w = (Ok (env_now E (w_tick w)), w\<lparr>w_tick := Suc (w_tick w)\<rparr>)"
  by (simp add: time_now_def tick_def go_run)

text \<open>What a poll looks for: something at the path, and no empty file.\<close>

definition manifest_there :: "restart_manager \<Rightarrow> string \<Rightarrow> (fpath, fnode) fmap \<Rightarrow> bool" where
  "manifest_there m name fs \<longleftrightarrow> (case fs_get fs (resolve (filepath_Join [manifestDir m, name @ ''.yaml''])) of
     None \<Rightarrow> False | Some (Dir _) \<Rightarrow> True | Some (Reg data _) \<Rightarrow> data \<noteq> [])"

text \<open>One poll: the clock, a look at the file, and when it is not ready two seconds of sleep.\<close>

definition after_poll :: "env \<Rightarrow> string \<Rightarrow> world \<Rightarrow> world" where
  "after_poll E path w = snd (time_sleep E (2 * ns_second) (snd (os_Stat E path (w\<lparr>w_tick := Suc (w_tick w)\<rparr>))))"

lemma wait_loop_Suc:
  "wait_loop (Suc fuel) E name path deadline w =
     (if env_now E (w_tick w) < deadline
      then (case os_Stat E path (w\<lparr>w_tick := Suc (w_tick w)\<rparr>) of
          (r, v) \<Rightarrow> if \<exists>i. r = Ok i \<and> fi_Size i > 0 then Some (Ok (), v)
            else wait_loop fuel E name path deadline (after_poll E path w))
      else Some (Err (ErrMsg (''timeout waiting for manifest '' @ name @ '' to be ready'')), w\<lparr>w_tick := Suc (w_tick w)\<rparr>))"
  by (auto simp: time_now_eq catchE_run after_poll_def split: prod.split outcome.split)

lemma Stat_tick: "w_tick w \<le> w_tick (snd (os_Stat E path w))"
  by (auto simp: os_Stat_def syscall_def go_run tick_def get_fs_def split: option.split)

lemma after_poll_run:
  "w_trace (after_poll E path w) = w_trace w @ [EvSleep (2 * ns_second)]" "w_fs (after_poll E path w) = w_fs w"
  "clock_contract E \<Longrightarrow> env_now E (w_tick w) + 2 * ns_second \<le> env_now E (w_tick (after_poll E path w))"
proof -
  obtain r v where v: "os_Stat E path (w\<lparr>w_tick := Suc (w_tick w)\<rparr>) = (r, v)" by fastforce
  have q: "quiet (w\<lparr>w_tick := Suc (w_tick w)\<rparr>) v" using keepsD [OF look.keeps_Stat v] .
  show "w_trace (after_poll E path w) = w_trace w @ [EvSleep (2 * ns_second)]" "w_fs (after_poll E path w) = w_fs w"
    using q by (simp_all add: after_poll_def v time_sleep_run quiet_def)
  assume E: "clock_contract E"
  have "w_tick w \<le> w_tick v" using Stat_tick [of "w\<lparr>w_tick := Suc (w_tick w)\<rparr>" E path] v by simp
  then have "env_now E (w_tick w) \<le> env_now E (w_tick v)" using E by (simp add: clock_contract_def)
  moreover have "env_now E (w_tick v) + 2 * ns_second \<le> env_now E (w_tick v + env_wake E (w_tick v) (2 * ns_second))"
    using E by (simp add: clock_contract_def)
  ultimately show "env_now E (w_tick w) + 2 * ns_second \<le> env_now E (w_tick (after_poll E path w))"
    by (simp add: after_poll_def v time_sleep_run)
qed

text \<open>Polls that are not ready, then the one that is, or the reading of the clock that ends the wait.\<close>

lemma wait_loop_polls:
  assumes E: "clock_contract E" and fuel: "n < fuel" and "deadline \<le> env_now E (w_tick w) + int n * (2 * ns_second)"
    and path: "path = filepath_Join [manifestDir m, name @ ''.yaml'']"
  shows "\<exists>r w' k. wait_loop fuel E name path deadline w = Some (r, w') \<and> k \<le> n \<and>
    w_trace w' = w_trace w @ replicate k (EvSleep (2 * ns_second)) \<and> w_fs w' = w_fs w \<and>
    (r = Ok () \<and> manifest_there m name (w_fs w) \<or>
     r = Err (ErrMsg (''timeout waiting for manifest '' @ name @ '' to be ready'')) \<and>
       (\<exists>t. w_tick w \<le> t \<and> t < w_tick w' \<and> deadline \<le> env_now E t))"
  using assms(2,3)
proof (induction n arbitrary: fuel w)
  case 0
  then obtain f where f: "fuel = Suc f" by (cases fuel) auto
  have "deadline \<le> env_now E (w_tick w)" using 0 by simp
  then show ?case unfolding f wait_loop_Suc
    by (intro exI [of _ 0] exI [of _ "Err (ErrMsg (''timeout waiting for manifest '' @ name @ '' to be ready''))"]
        exI [of _ "w\<lparr>w_tick := Suc (w_tick w)\<rparr>"]) auto
next
  case (Suc n)
  then obtain f where f: "fuel = Suc f" "n < f" by (cases fuel) auto
  obtain q v where v: "os_Stat E path (w\<lparr>w_tick := Suc (w_tick w)\<rparr>) = (q, v)" by fastforce
  note run = wait_loop_Suc [of f E name path deadline w, unfolded v prod.case, folded f(1)]
  consider (late) "deadline \<le> env_now E (w_tick w)" | (ready) i where "env_now E (w_tick w) < deadline" "q = Ok i" "fi_Size i > 0"
    | (again) "env_now E (w_tick w) < deadline" "\<not> (\<exists>i. q = Ok i \<and> fi_Size i > 0)" by fastforce
  then show ?case
  proof cases
    case late
    then show ?thesis unfolding run by (intro exI [of _ 0] exI) auto
  next
    case ready
    have "quiet (w\<lparr>w_tick := Suc (w_tick w)\<rparr>) v" using keepsD [OF look.keeps_Stat v] .
    then have "w_fs v = w_fs w" "w_trace v = w_trace w" by (simp_all add: quiet_def)
    moreover have "manifest_there m name (w_fs w)"
      using Stat_okD [OF v [unfolded ready(2)]] ready(3)
      by (auto simp: manifest_there_def path split: fnode.splits)
    ultimately show ?thesis unfolding run using ready
      by (intro exI [of _ 0] exI) auto
  next
    case again
    let ?u = "after_poll E path w"
    have "deadline \<le> env_now E (w_tick ?u) + int n * (2 * ns_second)"
      using after_poll_run(3) [OF E, of w path] Suc.prems(2) by (simp add: algebra_simps)
    from Suc.IH [OF f(2) this] obtain r w' k where IH: "wait_loop f E name path deadline ?u = Some (r, w')" "k \<le> n"
      "w_trace w' = w_trace ?u @ replicate k (EvSleep (2 * ns_second))" "w_fs w' = w_fs ?u"
      "r = Ok () \<and> manifest_there m name (w_fs ?u) \<or>
        r = Err (ErrMsg (''timeout waiting for manifest '' @ name @ '' to be ready'')) \<and>
        (\<exists>t. w_tick ?u \<le> t \<and> t < w_tick w' \<and> deadline \<le> env_now E t)" by blast
    have "w_tick w \<le> w_tick ?u"
      using Stat_tick [of "w\<lparr>w_tick := Suc (w_tick w)\<rparr>" E path] by (simp add: after_poll_def time_sleep_run)
    then show ?thesis unfolding run using again IH
      by (intro exI [of _ r] exI [of _ w'] exI [of _ "Suc k"]) (auto simp: after_poll_run intro: order_trans)
  qed
qed

text \<open>
  C35. \<^verbatim>\<open>WaitForReady\<close> polls every two seconds and comes back: when \<open>n\<close> pauses of two seconds cover the
  timeout it ends after at most \<open>n\<close> of them (by a clock that never goes back, and sleeps that last at least
  as long as asked), all it did meanwhile was to sleep, two seconds at a time, and the result is right on both sides: nil says
  that the manifest is there and is not an empty file, and the only error there is, the timeout, comes
  only after the clock was read at or past the deadline. It does not promise to be back by the deadline: a poll that
  starts just before it sleeps on.
\<close>

theorem WaitForReady_returns:
  assumes "clock_contract E" and "timeout \<le> int n * (2 * ns_second)" and "n < fuel"
  shows "\<exists>r w' k. WaitForReady fuel E m name timeout w = Some (r, w') \<and> k \<le> n \<and>
    w_trace w' = w_trace w @ replicate k (EvSleep (2 * ns_second)) \<and> w_fs w' = w_fs w \<and>
    (r = Ok () \<and> manifest_there m name (w_fs w) \<or>
     r = Err (ErrMsg (''timeout waiting for manifest '' @ name @ '' to be ready'')) \<and>
       (\<exists>t. w_tick w < t \<and> t < w_tick w' \<and> env_now E (w_tick w) + timeout \<le> env_now E t))"
proof -
  let ?w1 = "w\<lparr>w_tick := Suc (w_tick w)\<rparr>"
  have "env_now E (w_tick w) \<le> env_now E (w_tick ?w1)" using assms(1) by (simp add: clock_contract_def)
  then have "env_now E (w_tick w) + timeout \<le> env_now E (w_tick ?w1) + int n * (2 * ns_second)" using assms(2) by simp
  from wait_loop_polls [OF assms(1,3) this refl, of name m] show ?thesis
    by (simp add: WaitForReady_def time_now_eq Let_def Suc_le_eq)
qed

end
