(* ===== verification/Healthcheck.thy ===== *)
theory Healthcheck
  imports World_Lemmas Go_Float
begin

text \<open>
  \<^verbatim>\<open>pkg/healthcheck/healthcheck.go\<close>: probing the four control plane components of a node by TCP and
  HTTPS, once or with retries. The answers of the network are the environment's, per tick.
\<close>

section \<open>Probes\<close>

record component =
  comp_name :: string
  comp_port :: int
  comp_path :: string
  comp_scheme :: string

definition controlPlaneComponents :: "component list" where
  "controlPlaneComponents =
     [\<lparr>comp_name = ''etcd'', comp_port = 2379, comp_path = ''/health'', comp_scheme = ''https''\<rparr>,
      \<lparr>comp_name = ''kube-apiserver'', comp_port = 6443, comp_path = ''/healthz'', comp_scheme = ''https''\<rparr>,
      \<lparr>comp_name = ''kube-controller-manager'', comp_port = 10257, comp_path = ''/healthz'', comp_scheme = ''https''\<rparr>,
      \<lparr>comp_name = ''kube-scheduler'', comp_port = 10259, comp_path = ''/healthz'', comp_scheme = ''https''\<rparr>]"

record checker =
  chk_node :: string
  chk_timeout :: int
  chk_dryRun :: bool

definition healthcheck_New :: "string \<Rightarrow> int \<Rightarrow> bool \<Rightarrow> checker" where
  "healthcheck_New node timeout dry = \<lparr>chk_node = node, chk_timeout = timeout, chk_dryRun = dry\<rparr>"

definition comp_addr :: "checker \<Rightarrow> component \<Rightarrow> string" where
  "comp_addr c co = chk_node c @ '':'' @ dec_int (comp_port co)"

definition comp_url :: "checker \<Rightarrow> component \<Rightarrow> string" where
  "comp_url c co = comp_scheme co @ ''://'' @ comp_addr c co @ comp_path co"

definition tcpProbe :: "env \<Rightarrow> string \<Rightarrow> unit go" where
  "tcpProbe E addr =
     seqE (emit (EvDial addr)) (\<lambda>_. seqE tick (\<lambda>t.
     case env_dial E t addr of
       Some e \<Rightarrow> fail (Wrapf (''cannot connect to '' @ addr) e)
     | None \<Rightarrow> ret ()))"

definition httpProbe :: "env \<Rightarrow> string \<Rightarrow> unit go" where
  "httpProbe E url =
     seqE (emit (EvHttpGet url)) (\<lambda>_. seqE tick (\<lambda>t.
     case env_http_get E t url of
       Inl e \<Rightarrow> fail (Wrapf (''HTTP GET '' @ url @ '' failed'') e)
     | Inr status \<Rightarrow>
         if status \<noteq> 200 then fail (ErrMsg (''unhealthy response from '' @ url @ '': HTTP '' @ dec_int status))
         else ret ()))"

definition Check :: "env \<Rightarrow> checker \<Rightarrow> component \<Rightarrow> unit go" where
  "Check E c co =
     seqE (wrapE (''TCP probe failed for '' @ comp_name co @ '' on '' @ comp_addr c co)
             (tcpProbe E (comp_addr c co))) (\<lambda>_.
     wrapE (''HTTP probe failed for '' @ comp_name co @ '' at '' @ comp_url c co)
       (httpProbe E (comp_url c co)))"

definition CheckAll :: "env \<Rightarrow> checker \<Rightarrow> unit go" where
  "CheckAll E c =
     for_each (\<lambda>co. wrapE (''health check failed for '' @ comp_name co) (Check E c co)) controlPlaneComponents"

text \<open>
  \<^verbatim>\<open>for attempt := 1; attempt <= maxAttempts; attempt++\<close>: the first argument counts the iterations
  that are left, which is none when \<^verbatim>\<open>maxAttempts\<close> is not positive.
\<close>

fun retry_loop :: "nat \<Rightarrow> env \<Rightarrow> checker \<Rightarrow> int \<Rightarrow> int \<Rightarrow> int \<Rightarrow> unit go" where
  "retry_loop 0 E c maxAttempts interval attempt = ret ()"
| "retry_loop (Suc n) E c maxAttempts interval attempt =
     bindE (CheckAll E c)
       (\<lambda>err.
          if attempt = maxAttempts
          then fail (Wrapf (''health check failed after '' @ dec_int maxAttempts @ '' attempts on '' @ chk_node c) err)
          else seqE (time_sleep E interval) (\<lambda>_. retry_loop n E c maxAttempts interval (attempt + 1)))
       (\<lambda>_. ret ())"

definition CheckAllWithRetry :: "env \<Rightarrow> checker \<Rightarrow> int \<Rightarrow> int \<Rightarrow> unit go" where
  "CheckAllWithRetry E c maxAttempts interval =
     (if chk_dryRun c then ret ()
      else retry_loop (nat maxAttempts) E c maxAttempts interval 1)"

definition TCPOnlyCheck :: "env \<Rightarrow> checker \<Rightarrow> unit go" where
  "TCPOnlyCheck E c =
     (if chk_dryRun c then ret ()
      else for_each (\<lambda>co.
        wrapE (''TCP check failed for '' @ comp_name co @ '' on '' @ comp_addr c co)
          (tcpProbe E (comp_addr c co))) controlPlaneComponents)"

text \<open>\<^verbatim>\<open>CheckAllDetailed\<close> checks every component, whatever the others answer.\<close>

record health_result =
  hr_Node :: string
  hr_Healthy :: bool
  hr_Components :: "string \<rightharpoonup> goerr option"

definition CheckAllDetailed :: "env \<Rightarrow> checker \<Rightarrow> health_result go" where
  "CheckAllDetailed E c =
     fold_go (\<lambda>result co.
       seqE (catchE (Check E c co)) (\<lambda>r.
         let err = (case r of Inl e \<Rightarrow> Some e | Inr _ \<Rightarrow> None);
             result' = result\<lparr>hr_Components := (hr_Components result)(comp_name co \<mapsto> err)\<rparr> in
         ret (if err = None then result' else result'\<lparr>hr_Healthy := False\<rparr>)))
       \<lparr>hr_Node = chk_node c, hr_Healthy = True, hr_Components = Map.empty\<rparr> controlPlaneComponents"

section \<open>One round of checks\<close>

definition healthy_at :: "env \<Rightarrow> checker \<Rightarrow> component \<Rightarrow> nat \<Rightarrow> bool" where
  "healthy_at E c co t \<longleftrightarrow>
     env_dial E t (comp_addr c co) = None \<and> env_http_get E (Suc t) (comp_url c co) = Inr 200"

lemma Check_ok_iff:
  "Check E c co w = (Ok u, w') \<longleftrightarrow> healthy_at E c co (w_tick w) \<and>
     w' = w\<lparr>w_tick := w_tick w + 2, w_trace := w_trace w @ [EvDial (comp_addr c co), EvHttpGet (comp_url c co)]\<rparr>"
  by (auto simp: Check_def tcpProbe_def httpProbe_def healthy_at_def ok_iff tick_def emit_def)

lemma Check_cases:
  "Check E c co w = (r, w') \<Longrightarrow> (\<exists>e. r = Err e) \<or> r = Ok ()"
  by (auto simp: Check_def tcpProbe_def httpProbe_def go_run tick_def emit_def split: option.splits sum.splits if_splits)

context tick_blind begin

lemma keeps_tcpProbe: "keeps R (emit (EvDial addr)) \<Longrightarrow> keeps R (tcpProbe E addr)"
  unfolding tcpProbe_def
  by (auto intro!: keeps_seqE keeps_tick keeps_ret keeps_fail split: option.split)

lemma keeps_httpProbe: "keeps R (emit (EvHttpGet url)) \<Longrightarrow> keeps R (httpProbe E url)"
  unfolding httpProbe_def
  by (auto intro!: keeps_seqE keeps_tick keeps_ret keeps_fail split: sum.split)

lemma keeps_Check: "(\<And>a. keeps R (emit (EvDial a))) \<Longrightarrow> (\<And>u. keeps R (emit (EvHttpGet u))) \<Longrightarrow> keeps R (Check E c co)"
  unfolding Check_def by (auto intro!: keeps_seqE keeps_wrapE keeps_tcpProbe keeps_httpProbe)

lemma keeps_CheckAll: "(\<And>a. keeps R (emit (EvDial a))) \<Longrightarrow> (\<And>u. keeps R (emit (EvHttpGet u))) \<Longrightarrow> keeps R (CheckAll E c)"
  unfolding CheckAll_def by (auto intro!: keeps_for_each keeps_wrapE keeps_Check)

lemma keeps_CheckAllWithRetry:
  assumes e: "\<And>a. keeps R (emit (EvDial a))" "\<And>u. keeps R (emit (EvHttpGet u))" "\<And>d. keeps R (time_sleep E d)"
  shows "keeps R (CheckAllWithRetry E c n i)"
proof -
  have "keeps R (retry_loop k E c n i a)" for k a
    by (induction k arbitrary: a)
       (auto intro!: keeps_ret keeps_fail keeps_bindE keeps_seqE keeps_CheckAll e)
  then show ?thesis by (auto simp: CheckAllWithRetry_def keeps_ret)
qed

end

text \<open>The trace of a round in which every component answers.\<close>

definition round_events :: "checker \<Rightarrow> event list" where
  "round_events c = concat (map (\<lambda>co. [EvDial (comp_addr c co), EvHttpGet (comp_url c co)]) controlPlaneComponents)"

definition all_healthy :: "env \<Rightarrow> checker \<Rightarrow> nat \<Rightarrow> bool" where
  "all_healthy E c t \<longleftrightarrow>
     (\<forall>i<length controlPlaneComponents. healthy_at E c (controlPlaneComponents ! i) (t + 2 * i))"

lemma checks_ok_iff:
  "for_each (\<lambda>co. wrapE (m co) (Check E c co)) comps w = (Ok u, w') \<longleftrightarrow>
     (\<forall>i<length comps. healthy_at E c (comps ! i) (w_tick w + 2 * i)) \<and>
     w' = w\<lparr>w_tick := w_tick w + 2 * length comps,
            w_trace := w_trace w @ concat (map (\<lambda>co. [EvDial (comp_addr c co), EvHttpGet (comp_url c co)]) comps)\<rparr>"
proof (induction comps arbitrary: w)
  case (Cons x xs)
  have "(\<forall>i<length (x # xs). healthy_at E c ((x # xs) ! i) (w_tick w + 2 * i)) \<longleftrightarrow>
    healthy_at E c x (w_tick w) \<and> (\<forall>i<length xs. healthy_at E c (xs ! i) (w_tick w + 2 + 2 * i))"
    by (auto simp: nth_Cons split: nat.splits) (metis Suc_less_eq add_Suc_right mult_2 nat.inject nth_Cons_Suc)?
  then show ?case using Cons by (auto simp: ok_iff Check_ok_iff)
qed auto

lemma CheckAll_ok_iff:
  "CheckAll E c w = (Ok u, w') \<longleftrightarrow> all_healthy E c (w_tick w) \<and>
     w' = w\<lparr>w_tick := w_tick w + 8, w_trace := w_trace w @ round_events c\<rparr>"
proof -
  have "length controlPlaneComponents = 4" by (simp add: controlPlaneComponents_def)
  then show ?thesis unfolding CheckAll_def checks_ok_iff by (simp add: all_healthy_def round_events_def)
qed

lemma checks_err:
  "for_each (\<lambda>co. wrapE (m co) (Check E c co)) comps w = (r, w') \<Longrightarrow> r = Ok () \<or> ((\<exists>e. r = Err e) \<and> w_tick w < w_tick w')"
proof (induction comps arbitrary: w)
  case (Cons x xs)
  obtain q w1 where q: "Check E c x w = (q, w1)" by (cases "Check E c x w")
  have "w_tick w < w_tick w1"
    using q by (auto simp: Check_def tcpProbe_def httpProbe_def go_run tick_def emit_def
        split: option.splits sum.splits if_splits)
  then show ?case using Cons.prems q Check_cases [OF q] Cons.IH [of w1] by (auto simp: go_run)
qed simp

lemma CheckAll_err: "CheckAll E c w = (r, w') \<Longrightarrow> r = Ok () \<or> ((\<exists>e. r = Err e) \<and> w_tick w < w_tick w')"
  unfolding CheckAll_def by (rule checks_err)

definition is_sleep :: "event \<Rightarrow> bool" where
  "is_sleep e \<longleftrightarrow> (\<exists>d. e = EvSleep d)"

definition sleeps :: "event list \<Rightarrow> nat" where
  "sleeps es = length (filter is_sleep es)"

lemma sleeps_simps [simp]: "sleeps [] = 0" "sleeps (es @ fs) = sleeps es + sleeps fs"
  "sleeps (e # es) = (if is_sleep e then Suc (sleeps es) else sleeps es)"
  by (simp_all add: sleeps_def)

lemma CheckAll_emits: "keeps (emits (\<lambda>e. \<not> is_sleep e)) (CheckAll E c)"
  unfolding CheckAll_def Check_def tcpProbe_def httpProbe_def
  by (auto intro!: trace_frame.keeps_for_each trace_frame.keeps_wrapE trace_frame.keeps_seqE trace_frame.keeps_tick
      trace_frame.keeps_ret trace_frame.keeps_fail emit_keeps_trace simp: is_sleep_def split: option.split sum.split)

lemma CheckAll_trace:
  assumes "CheckAll E c w = (r, w')"
  obtains es where "w_trace w' = w_trace w @ es" "sleeps es = 0"
proof -
  from keepsD [OF CheckAll_emits assms] obtain es where "w_trace w' = w_trace w @ es" "\<forall>e\<in>set es. \<not> is_sleep e"
    unfolding emits_def by blast
  then show ?thesis by (intro that [of es]) (simp_all add: sleeps_def)
qed

lemma retry_loop_result:
  assumes "retry_loop n E c k interval a w = (r, w')" and "a + int n = k + 1" and "0 < n"
  shows "\<exists>es. w_trace w' = w_trace w @ es \<and>
    (case r of
       Ok _ \<Rightarrow> sleeps es < n \<and> suffix (round_events c) es \<and> (\<exists>t. all_healthy E c t \<and> w_tick w' = t + 8)
     | Err _ \<Rightarrow> sleeps es = n - 1
     | Panic _ \<Rightarrow> False)"
  using assms
proof (induction n arbitrary: a w)
  case (Suc n)
  obtain q w1 where q: "CheckAll E c w = (q, w1)" by (cases "CheckAll E c w")
  obtain es where es: "w_trace w1 = w_trace w @ es" "sleeps es = 0" using CheckAll_trace [OF q] .
  show ?case
  proof (cases "q = Ok ()")
    case True
    then have "all_healthy E c (w_tick w)" "w1 = w\<lparr>w_tick := w_tick w + 8, w_trace := w_trace w @ round_events c\<rparr>"
      using q CheckAll_ok_iff by blast+
    then show ?thesis using Suc.prems q True es by (auto simp: bindE_run)
  next
    case False
    then obtain e where e: "q = Err e" using CheckAll_err [OF q] by blast
    show ?thesis
    proof (cases "n = 0")
      case True
      then show ?thesis using Suc.prems q e es by (auto simp: bindE_run)
    next
      case False
      let ?w2 = "w1\<lparr>w_tick := w_tick w1 + env_wake E (w_tick w1) interval, w_trace := w_trace w1 @ [EvSleep interval]\<rparr>"
      from False have "a \<noteq> k" using Suc.prems(2) by simp
      then have "retry_loop n E c k interval (a + 1) ?w2 = (r, w')"
        using Suc.prems(1) q e by (simp add: bindE_run seqE_run time_sleep_run)
      from Suc.IH [OF this] False Suc.prems(2) obtain fs where fs: "w_trace w' = w_trace ?w2 @ fs"
        "case r of Ok _ \<Rightarrow> sleeps fs < n \<and> suffix (round_events c) fs \<and> (\<exists>t. all_healthy E c t \<and> w_tick w' = t + 8)
         | Err _ \<Rightarrow> sleeps fs = n - 1 | Panic _ \<Rightarrow> False" by auto
      have "w_trace w' = w_trace w @ (es @ EvSleep interval # fs)" using fs(1) es(1) by simp
      moreover have "is_sleep (EvSleep interval)" by (simp add: is_sleep_def)
      ultimately show ?thesis using fs(2) es(2) False
        by (intro exI [of _ "es @ EvSleep interval # fs"])
           (auto simp: suffix_append suffix_Cons split: outcome.splits)
    qed
  qed
qed simp

text \<open>
  C24. A health check with retries never panics and never invents health: with a positive number of
  attempts, when it returns nil its last eight probes were a full round in which every component
  accepted the connection and answered 200, after fewer sleeps than attempts; when it returns an
  error it has slept exactly once between any two of all its attempts.
\<close>

theorem retry_sound:
  assumes "CheckAllWithRetry E c maxAttempts interval w = (r, w')" and "\<not> chk_dryRun c" and "0 < maxAttempts"
  shows "\<exists>es. w_trace w' = w_trace w @ es \<and>
    (case r of
       Ok _ \<Rightarrow> int (sleeps es) < maxAttempts \<and> suffix (round_events c) es \<and> (\<exists>t. all_healthy E c t \<and> w_tick w' = t + 8)
     | Err _ \<Rightarrow> int (sleeps es) = maxAttempts - 1
     | Panic _ \<Rightarrow> False)"
proof -
  from retry_loop_result [of "nat maxAttempts" E c maxAttempts interval 1 w r w'] assms
  obtain es where "w_trace w' = w_trace w @ es" and
    "case r of Ok _ \<Rightarrow> sleeps es < nat maxAttempts \<and> suffix (round_events c) es \<and> (\<exists>t. all_healthy E c t \<and> w_tick w' = t + 8)
     | Err _ \<Rightarrow> sleeps es = nat maxAttempts - 1 | Panic _ \<Rightarrow> False"
    by (auto simp: CheckAllWithRetry_def)
  then show ?thesis using assms(3) by (intro exI [of _ es]) (auto split: outcome.splits)
qed

lemma retry_loop_live:
  assumes up: "\<And>t co. T \<le> t \<Longrightarrow> co \<in> set controlPlaneComponents \<Longrightarrow>
      env_dial E t (comp_addr c co) = None \<and> env_http_get E t (comp_url c co) = Inr 200"
    and "T \<le> w_tick w + (n - 1)" and "0 < n" and "a + int n = k + 1"
  shows "\<exists>w'. retry_loop n E c k interval a w = (Ok (), w')"
  using assms(2,3,4)
proof (induction n arbitrary: a w)
  case (Suc n)
  show ?case
  proof (cases "all_healthy E c (w_tick w)")
    case True
    then have "CheckAll E c w = (Ok (), w\<lparr>w_tick := w_tick w + 8, w_trace := w_trace w @ round_events c\<rparr>)"
      by (simp add: CheckAll_ok_iff)
    then show ?thesis by (simp add: bindE_run)
  next
    case False
    obtain q w1 where q: "CheckAll E c w = (q, w1)" by (cases "CheckAll E c w")
    with False have "q \<noteq> Ok ()" by (auto simp: CheckAll_ok_iff)
    then obtain e where e: "q = Err e" "w_tick w < w_tick w1" using CheckAll_err [OF q] by blast
    have "\<not> T \<le> w_tick w"
      using False up by (auto simp: all_healthy_def healthy_at_def)
    then have n: "n \<noteq> 0" using Suc.prems(1) by (cases n) auto
    then have "\<exists>w'. retry_loop n E c k interval (a + 1) (w1\<lparr>w_tick := w_tick w1 + env_wake E (w_tick w1) interval, w_trace := w_trace w1 @ [EvSleep interval]\<rparr>) = (Ok (), w')"
      using Suc.prems e(2) by (intro Suc.IH) auto
    then show ?thesis using q e(1) n Suc.prems(3) by (auto simp: bindE_run seqE_run time_sleep_run)
  qed
qed simp

text \<open>
  C25. It waits long enough: a node all of whose components answer from some moment on passes the
  check, when that moment comes within as many probes as there are attempts after the first.
\<close>

theorem retry_live:
  assumes "\<forall>t\<ge>T. \<forall>co\<in>set controlPlaneComponents.
      env_dial E t (comp_addr c co) = None \<and> env_http_get E t (comp_url c co) = Inr 200"
    and "T < w_tick w + nat maxAttempts"
  shows "\<exists>w'. CheckAllWithRetry E c maxAttempts interval w = (Ok (), w')"
proof (cases "0 < maxAttempts \<and> \<not> chk_dryRun c")
  case True
  have "T \<le> w_tick w + (nat maxAttempts - 1)" using assms(2) True by linarith
  moreover have "0 < nat maxAttempts" "1 + int (nat maxAttempts) = maxAttempts + 1" using True by simp_all
  ultimately have "\<exists>w'. retry_loop (nat maxAttempts) E c maxAttempts interval 1 w = (Ok (), w')"
    using assms(1) by (intro retry_loop_live) auto
  then show ?thesis using True by (simp add: CheckAllWithRetry_def)
qed (auto simp: CheckAllWithRetry_def)

text \<open>
  With no attempts configured the check vouches for a node it never looked at: for a
  \<^verbatim>\<open>maxAttempts\<close> of zero or less it returns nil without a single probe.
\<close>

theorem retry_without_attempts:
  "CheckAllWithRetry E c (- int n) interval w = (Ok (), w)"
  by (simp add: CheckAllWithRetry_def)

section \<open>The detailed check\<close>

text \<open>
  The detailed check always returns, probes every component even when earlier ones fail, has an
  entry for exactly the four components, and calls the node healthy exactly when every entry is
  nil.
\<close>

theorem CheckAllDetailed_complete:
  "\<exists>r w'. CheckAllDetailed E c w = (Ok r, w') \<and> hr_Node r = chk_node c \<and>
     dom (hr_Components r) = comp_name ` set controlPlaneComponents \<and>
     (hr_Healthy r \<longleftrightarrow> ran (hr_Components r) = {None})"
proof -
  define f :: "health_result \<Rightarrow> component \<Rightarrow> health_result go" where "f = (\<lambda>result co.
       seqE (catchE (Check E c co)) (\<lambda>r.
         let err = (case r of Inl e \<Rightarrow> Some e | Inr _ \<Rightarrow> None);
             result' = result\<lparr>hr_Components := (hr_Components result)(comp_name co \<mapsto> err)\<rparr> in
         ret (if err = None then result' else result'\<lparr>hr_Healthy := False\<rparr>)))"
  have one: "\<exists>err w'. f res co w = (Ok (res\<lparr>hr_Components := (hr_Components res)(comp_name co \<mapsto> err),
      hr_Healthy := (hr_Healthy res \<and> err = None)\<rparr>), w')" for res co w
  proof -
    obtain q w1 where q: "Check E c co w = (q, w1)" by (cases "Check E c co w")
    from Check_cases [OF q] show ?thesis
    proof
      assume "\<exists>e. q = Err e"
      then obtain e where "q = Err e" by blast
      then show ?thesis using q by (intro exI [of _ "Some e"]) (simp add: f_def go_run)
    next
      assume "q = Ok ()"
      then show ?thesis using q by (intro exI [of _ None]) (simp add: f_def go_run)
    qed
  qed
  have loop: "\<exists>r w'. fold_go f res comps w = (Ok r, w') \<and> hr_Node r = hr_Node res \<and>
      dom (hr_Components r) = dom (hr_Components res) \<union> comp_name ` set comps \<and>
      (hr_Healthy r \<longleftrightarrow> hr_Healthy res \<and> (\<forall>co\<in>set comps. hr_Components r (comp_name co) = Some None)) \<and>
      (\<forall>k. k \<notin> comp_name ` set comps \<longrightarrow> hr_Components r k = hr_Components res k)"
    if "distinct (map comp_name comps)" for res comps w
    using that
  proof (induction comps arbitrary: res w)
    case (Cons x xs)
    from one [of res x w] obtain err w1 where o: "f res x w = (Ok (res\<lparr>hr_Components := (hr_Components res)(comp_name x \<mapsto> err),
      hr_Healthy := (hr_Healthy res \<and> err = None)\<rparr>), w1)" by blast
    show ?case
      using Cons.IH [of "res\<lparr>hr_Components := (hr_Components res)(comp_name x \<mapsto> err),
        hr_Healthy := (hr_Healthy res \<and> err = None)\<rparr>" w1] Cons.prems o
      by (fastforce simp: seqE_run)
  qed auto
  have d: "distinct (map comp_name controlPlaneComponents)" by (simp add: controlPlaneComponents_def)
  from loop [OF d, of "\<lparr>hr_Node = chk_node c, hr_Healthy = True, hr_Components = Map.empty\<rparr>" w]
  obtain r w' where r: "CheckAllDetailed E c w = (Ok r, w')" "hr_Node r = chk_node c"
    "dom (hr_Components r) = comp_name ` set controlPlaneComponents"
    "hr_Healthy r \<longleftrightarrow> (\<forall>co\<in>set controlPlaneComponents. hr_Components r (comp_name co) = Some None)"
    by (auto simp: CheckAllDetailed_def f_def)
  have "(\<forall>co\<in>set controlPlaneComponents. hr_Components r (comp_name co) = Some None) \<longleftrightarrow> ran (hr_Components r) = {None}"
  proof
    assume l: "\<forall>co\<in>set controlPlaneComponents. hr_Components r (comp_name co) = Some None"
    have "ran (hr_Components r) \<subseteq> {None}"
    proof
      fix v assume "v \<in> ran (hr_Components r)"
      then obtain k where k: "hr_Components r k = Some v" by (auto simp: ran_def)
      then have "k \<in> comp_name ` set controlPlaneComponents" using r(3) by blast
      then show "v \<in> {None}" using l k by auto
    qed
    moreover have "None \<in> ran (hr_Components r)" using l by (auto simp: ran_def controlPlaneComponents_def)
    ultimately show "ran (hr_Components r) = {None}" by blast
  next
    assume ran: "ran (hr_Components r) = {None}"
    show "\<forall>co\<in>set controlPlaneComponents. hr_Components r (comp_name co) = Some None"
    proof
      fix co assume "co \<in> set controlPlaneComponents"
      then have "comp_name co \<in> dom (hr_Components r)" using r(3) by blast
      then obtain v where "hr_Components r (comp_name co) = Some v" by blast
      moreover from this have "v \<in> ran (hr_Components r)" by (rule ranI)
      ultimately show "hr_Components r (comp_name co) = Some None" using ran by simp
    qed
  qed
  then show ?thesis using r by blast
qed

end
