(* ===== verification/Witnesses_Pods.thy ===== *)
theory Witnesses_Pods
  imports Scenario Podrestart Healthcheck
begin

text \<open>The theorems on restarts and health checks, applied on the node of \<open>Scenario\<close>.\<close>

definition pods_world :: world where
  "pods_world = blank_world\<lparr>w_fs := fmap_of_list
     [((True, [''m'']), Dir 493), ((True, [''m'', ''etcd.yaml'']), Reg ''pod'' 384),
      ((True, [''m'', ''kube-apiserver.yaml'']), Reg ''pod'' 384),
      ((True, [''m'', ''kube-controller-manager.yaml'']), Reg ''pod'' 384),
      ((True, [''m'', ''kube-scheduler.yml'']), Reg ''pod'' 384)]\<rparr>"

definition pods_mgr :: restart_manager where
  "pods_mgr = podrestart_New ''/m'' False"

lemma pods_live: "\<not> restart_dryRun pods_mgr"
  by (simp add: pods_mgr_def podrestart_New_def)

theorem Restart_writes_manifest_witness:
  "\<exists>path text md. path \<in> manifest_paths pods_mgr ''etcd'' \<and>
     fs_get (w_fs (snd (Restart calm pods_mgr ''etcd'' pods_world))) (resolve path) = Some (Reg text md)"
proof -
  have "fst (Restart calm pods_mgr ''etcd'' pods_world) = Ok ()" by code_simp
  from Restart_writes_manifest [OF run_eq [OF this] pods_live] show ?thesis by blast
qed

theorem RestartAll_order_witness:
  "\<exists>paths. list_all2 (\<lambda>p n. p \<in> manifest_paths pods_mgr n) paths restartOrder \<and>
     w_trace (snd (RestartAll calm pods_mgr pods_world)) = restart_events paths"
proof -
  have "fst (RestartAll calm pods_mgr pods_world) = Ok ()" by code_simp
  from RestartAll_order [OF pods_live run_eq [OF this]] show ?thesis
    by (auto simp: pods_world_def blank_world_def)
qed

definition empty_manifest :: world where
  "empty_manifest = blank_world\<lparr>w_fs := fmap_of_list [((True, [''m'']), Dir 493), ((True, [''m'', ''etcd.yaml'']), Reg '''' 384)]\<rparr>"

theorem empty_manifest_panics_witness:
  "\<exists>s'. Restart calm pods_mgr ''etcd'' empty_manifest = (Panic ''assignment to entry in nil map'', s')"
proof -
  have "fs_get (w_fs empty_manifest) (resolve (filepath_Join [manifestDir pods_mgr, ''etcd'' @ ''.yaml''])) = Some (Reg '''' 384)"
    "env_yaml_to_json calm '''' = Inr JNull" by code_simp+
  from empty_manifest_panics [OF calm_no_faults(1) pods_live this] show ?thesis by blast
qed

text \<open>The same environment, with a clock that the sleeps advance.\<close>

definition ticking :: env where
  "ticking = calm\<lparr>env_wake := (\<lambda>_ d. nat d)\<rparr>"

theorem WaitForReady_returns_witness:
  "(\<exists>w' k. WaitForReady 4 ticking pods_mgr ''etcd'' (6 * ns_second) pods_world = Some (Ok (), w') \<and> k \<le> 3 \<and>
     w_trace w' = replicate k (EvSleep (2 * ns_second))) \<or>
   (\<exists>e w' t. WaitForReady 4 ticking pods_mgr ''etcd'' (6 * ns_second) pods_world = Some (Err e, w') \<and>
     base_time + 6 * ns_second \<le> env_now ticking t)"
proof -
  have "clock_contract ticking" by (simp add: clock_contract_def ticking_def calm_def)
  moreover have "6 * ns_second \<le> int 3 * (2 * ns_second)" by simp
  ultimately have "\<exists>r w' k. WaitForReady 4 ticking pods_mgr ''etcd'' (6 * ns_second) pods_world = Some (r, w') \<and> k \<le> 3 \<and>
    w_trace w' = w_trace pods_world @ replicate k (EvSleep (2 * ns_second)) \<and> w_fs w' = w_fs pods_world \<and>
    (r = Ok () \<and> manifest_there pods_mgr ''etcd'' (w_fs pods_world) \<or>
     r = Err (ErrMsg (''timeout waiting for manifest '' @ ''etcd'' @ '' to be ready'')) \<and>
       (\<exists>t. w_tick pods_world < t \<and> t < w_tick w' \<and> env_now ticking (w_tick pods_world) + 6 * ns_second \<le> env_now ticking t))"
    by (rule WaitForReady_returns) simp
  moreover have "env_now ticking (w_tick pods_world) = base_time"
    by (simp add: ticking_def calm_def pods_world_def blank_world_def)
  moreover have "w_trace pods_world = []" by (simp add: pods_world_def blank_world_def)
  ultimately show ?thesis by auto
qed

definition chk :: checker where
  "chk = healthcheck_New ''n'' 10 False"

text \<open>A network on which nothing answers before tick 1.\<close>

definition waking :: env where
  "waking = calm\<lparr>env_dial := (\<lambda>t a. if t < 1 then Some (ErrMsg ''refused'') else None)\<rparr>"

theorem retry_sound_witness:
  "\<exists>es t. w_trace (snd (CheckAllWithRetry waking chk 3 15 node_world)) = w_trace node_world @ es \<and>
     sleeps es < 3 \<and> all_healthy waking chk t"
proof -
  have "\<exists>w'. retry_loop 3 waking chk 3 15 1 node_world = (Ok (), w')"
    by (rule retry_loop_live [where T = 1]) (simp_all add: waking_def calm_def node_world_def)
  then have "\<exists>w'. CheckAllWithRetry waking chk 3 15 node_world = (Ok (), w')"
    by (simp add: CheckAllWithRetry_def)
  then obtain w' where run: "CheckAllWithRetry waking chk 3 15 node_world = (Ok (), w')" by blast
  have "\<not> chk_dryRun chk" by (simp add: chk_def healthcheck_New_def)
  from retry_sound [OF run this] show ?thesis by (auto simp: run)
qed

theorem retry_live_witness:
  "\<exists>w'. CheckAllWithRetry waking chk 3 15 node_world = (Ok (), w')"
  by (rule retry_live [where T = 1]) (simp_all add: waking_def calm_def node_world_def)

end
