(* ===== verification/Returns.thy ===== *)
theory Returns
  imports World_Lemmas
begin

text \<open>
  Operations that never panic: in every world they end with a value or an error. The combinators of
  the prelude keep the property, and the operations of package \<^verbatim>\<open>os\<close> have it.
\<close>

named_theorems returns_intro \<open>an operation never panics\<close>

definition returns :: "('s, 'a) run \<Rightarrow> bool" where
  "returns m \<longleftrightarrow> (\<forall>s p. fst (m s) \<noteq> Panic p)"

lemma returnsD: "returns m \<Longrightarrow> m s \<noteq> (Panic p, s')"
  by (metis returns_def fst_conv)

lemma returns_cases:
  assumes "returns m"
  obtains (ok) x s' where "m s = (Ok x, s')" | (err) e s' where "m s = (Err e, s')"
  using returnsD [OF assms, of s] by (cases "m s"; cases "fst (m s)") auto

lemma returns_ret [returns_intro]: "returns (ret x)"
  by (simp add: returns_def)

lemma returns_fail [returns_intro]: "returns (fail e)"
  by (simp add: returns_def)

lemma returns_bindE [returns_intro]:
  "returns m \<Longrightarrow> (\<And>e. returns (h e)) \<Longrightarrow> (\<And>x. returns (k x)) \<Longrightarrow> returns (bindE m h k)"
  by (auto simp: returns_def bindE_run split: prod.split outcome.split) (metis fst_conv)

lemma returns_seqE [returns_intro]: "returns m \<Longrightarrow> (\<And>x. returns (k x)) \<Longrightarrow> returns (seqE m k)"
  by (simp add: seqE_def returns_intro)

lemma returns_wrapE [returns_intro]: "returns m \<Longrightarrow> returns (wrapE c m)"
  by (simp add: wrapE_def returns_intro)

lemma returns_catchE [returns_intro]: "returns m \<Longrightarrow> returns (catchE m)"
  by (simp add: catchE_def returns_intro)

lemma returns_for_each [returns_intro]: "(\<And>x. x \<in> set xs \<Longrightarrow> returns (f x)) \<Longrightarrow> returns (for_each f xs)"
  by (induction xs) (simp_all add: returns_intro)

lemma returns_fold_go [returns_intro]:
  "(\<And>acc x. x \<in> set xs \<Longrightarrow> returns (f acc x)) \<Longrightarrow> returns (fold_go f acc xs)"
  by (induction xs arbitrary: acc) (simp_all add: returns_intro)

lemma returns_primitive [returns_intro]: "returns tick" "returns (emit e)" "returns get_fs" "returns (put_fs fs)"
  by (simp_all add: returns_def tick_def emit_def get_fs_def put_fs_def)

lemma returns_time_now [returns_intro]: "returns (time_now E)"
  unfolding time_now_def by (intro returns_intro)

lemma returns_time_sleep [returns_intro]: "returns (time_sleep E d)"
  by (simp add: returns_def time_sleep_run)

lemma returns_map_range [returns_intro]: "returns (map_range E xs)"
  unfolding map_range_def by (intro returns_intro)

lemma returns_option [returns_intro]: "returns f \<Longrightarrow> (\<And>y. returns (g y)) \<Longrightarrow> returns (case x of None \<Rightarrow> f | Some y \<Rightarrow> g y)"
  by (cases x) auto

lemma returns_sum [returns_intro]: "(\<And>e. returns (f e)) \<Longrightarrow> (\<And>y. returns (g y)) \<Longrightarrow> returns (case x of Inl e \<Rightarrow> f e | Inr y \<Rightarrow> g y)"
  by (cases x) auto

lemma returns_fnode [returns_intro]: "(\<And>m. returns (f m)) \<Longrightarrow> (\<And>d m. returns (g d m)) \<Longrightarrow> returns (case x of Dir m \<Rightarrow> f m | Reg d m \<Rightarrow> g d m)"
  by (cases x) auto

lemma returns_if [returns_intro]: "(b \<Longrightarrow> returns f) \<Longrightarrow> (\<not> b \<Longrightarrow> returns g) \<Longrightarrow> returns (if b then f else g)"
  by simp

lemma returns_Let [returns_intro]: "returns (f x) \<Longrightarrow> returns (let y = x in f y)"
  by simp

lemma returns_syscall [returns_intro]: "returns m \<Longrightarrow> returns (syscall E op p m)"
  unfolding syscall_def by (intro returns_intro)

lemma returns_os [returns_intro]:
  "returns (os_ReadFile E p)" "returns (os_Stat E p)" "returns (os_Open E p)" "returns (file_Mode E p)"
  "returns (os_ReadDir E p)" "returns (os_RemoveAll E p)"
  unfolding os_ReadFile_def os_Stat_def os_Open_def file_Mode_def os_ReadDir_def os_RemoveAll_def
  by (intro returns_intro)+

lemma returns_writes [returns_intro]:
  "returns (os_MkdirAll E p m)" "returns (open_trunc E p m)" "returns (write_data E p d)"
  unfolding os_MkdirAll_def mkdir_one_def open_trunc_def write_data_def
  by (intro returns_intro)+

lemma returns_WriteFile [returns_intro]: "returns (os_WriteFile E p d m)"
  unfolding os_WriteFile_def by (intro returns_intro)

lemma returns_io_Copy [returns_intro]: "returns (io_Copy E d s)"
  unfolding io_Copy_def by (intro returns_intro)

section \<open>Operations that always give a value\<close>

definition total_run :: "('s, 'a) run \<Rightarrow> bool" where
  "total_run m \<longleftrightarrow> (\<forall>s. \<exists>x s'. m s = (Ok x, s'))"

lemma total_runD: "total_run m \<Longrightarrow> \<exists>x s'. m s = (Ok x, s')"
  by (simp add: total_run_def)

lemma total_ret: "total_run (ret x)"
  by (simp add: total_run_def ret_run)

lemma total_bindE:
  assumes "returns m" and "\<And>e. total_run (h e)" and "\<And>x. total_run (k x)"
  shows "total_run (bindE m h k)"
  unfolding total_run_def
proof
  fix s
  show "\<exists>x s'. bindE m h k s = (Ok x, s')"
    by (rule returns_cases [OF assms(1), of s])
       (simp_all add: bindE_run total_runD [OF assms(2)] total_runD [OF assms(3)])
qed

lemma total_seqE: "total_run m \<Longrightarrow> (\<And>x. total_run (k x)) \<Longrightarrow> total_run (seqE m k)"
  unfolding total_run_def seqE_run by (metis (no_types, lifting) old.prod.case outcome.simps(10))

lemma total_if: "(b \<Longrightarrow> total_run f) \<Longrightarrow> (\<not> b \<Longrightarrow> total_run g) \<Longrightarrow> total_run (if b then f else g)"
  by simp

lemma total_option: "total_run f \<Longrightarrow> (\<And>y. total_run (g y)) \<Longrightarrow> total_run (case x of None \<Rightarrow> f | Some y \<Rightarrow> g y)"
  by (cases x) auto

end
