(* ===== verification/Go_Json_Struct.thy ===== *)
theory Go_Json_Struct
  imports Go_Json
begin

text \<open>
  \<^verbatim>\<open>json.Unmarshal\<close> into a struct: keys are compared without regard to case, unknown keys are
  skipped, null leaves a field as it is (and makes a map nil), a value of another kind is an error.
  Which of several errors is reported, and its text, are not modelled.
\<close>

definition lower_char :: "char \<Rightarrow> char" where
  "lower_char c = (let n = of_char c :: nat in if 65 \<le> n \<and> n \<le> 90 then char_of (n + 32) else c)"

text \<open>
  Besides the ASCII letters two other runes fold to one: the long s (U+017F) and the Kelvin sign (U+212A),
  here by their UTF-8 bytes. Field names are ASCII, so no other rune matters to the comparison.
\<close>

fun fold_name :: "string \<Rightarrow> string" where
  "fold_name [] = []"
| "fold_name (c # s) =
     (if c = CHR 0xC5 \<and> take 1 s = [CHR 0xBF] then CHR ''s'' # fold_name (drop 1 s)
      else if c = CHR 0xE2 \<and> take 2 s = [CHR 0x84, CHR 0xAA] then CHR ''k'' # fold_name (drop 2 s)
      else lower_char c # fold_name s)"

definition equal_fold :: "string \<Rightarrow> string \<Rightarrow> bool" where
  "equal_fold a b \<longleftrightarrow> fold_name a = fold_name b"

definition type_error :: "json \<Rightarrow> string \<Rightarrow> goerr + 'a" where
  "type_error j ty = Inl (ErrMsg (''json: cannot unmarshal '' @ json_kind j @ '' into Go value of type '' @ ty))"

definition into_string :: "json \<Rightarrow> string \<Rightarrow> goerr + string" where
  "into_string j old = (case j of JNull \<Rightarrow> Inr old | JStr s \<Rightarrow> Inr s | _ \<Rightarrow> type_error j ''string'')"

definition into_bool :: "json \<Rightarrow> bool \<Rightarrow> goerr + bool" where
  "into_bool j old = (case j of JNull \<Rightarrow> Inr old | JBool b \<Rightarrow> Inr b | _ \<Rightarrow> type_error j ''bool'')"

definition map_ok :: "('a \<Rightarrow> 'b) \<Rightarrow> goerr + 'a \<Rightarrow> goerr + 'b" where
  "map_ok f r = (case r of Inl e \<Rightarrow> Inl e | Inr x \<Rightarrow> Inr (f x))"

fun set_fields :: "(string \<Rightarrow> json \<Rightarrow> 'a \<Rightarrow> goerr + 'a) \<Rightarrow> (string \<times> json) list \<Rightarrow> 'a \<Rightarrow> goerr + 'a" where
  "set_fields f [] x = Inr x"
| "set_fields f ((k, j) # kvs) x = (case f k j x of Inl e \<Rightarrow> Inl e | Inr y \<Rightarrow> set_fields f kvs y)"

lemma map_ok_simps [simp]: "map_ok f (Inr x) = Inr (f x)" "map_ok f (Inl e) = Inl e"
  by (simp_all add: map_ok_def)

lemma into_simps [simp]: "into_string (JStr v) w = Inr v" "into_bool (JBool b) c = Inr b"
  by (simp_all add: into_string_def into_bool_def)

lemmas field_names = equal_fold_def lower_char_def Let_def

lemma set_fields_kept:
  assumes "set_fields f kvs x = Inr y" and "P x"
    and "\<And>k j a b. (k, j) \<in> set kvs \<Longrightarrow> P a \<Longrightarrow> f k j a = Inr b \<Longrightarrow> P b"
  shows "P y"
  using assms
proof (induction f kvs x rule: set_fields.induct)
  case (2 f k j kvs x)
  then show ?case by (auto split: sum.splits)
qed simp

end
