(* ===== verification/Go_Json_Text.thy ===== *)
theory Go_Json_Text
  imports Go_Json Go_Time
begin

text \<open>
  The text form of JSON: what \<^verbatim>\<open>json.MarshalIndent(v, "", "  ")\<close> writes for a value that is already a
  \<open>json\<close> tree, what \<^verbatim>\<open>json.Unmarshal\<close> reads back, and the text form of a \<^verbatim>\<open>time.Time\<close>. Strings are bytes;
  the encoder escapes ASCII as Go 1.21 does and copies the bytes of longer UTF-8 characters (it does
  not repair invalid UTF-8, and does not escape U+2028 and U+2029). The decoder does not join surrogate
  pairs and takes any run of number characters as a number; the program writes neither.
\<close>

section \<open>Strings\<close>

definition quote :: char where "quote = CHR 0x22"

definition backslash :: char where "backslash = CHR 0x5C"

definition hex_digit :: "nat \<Rightarrow> char" where
  "hex_digit n = (if n < 10 then char_of (48 + n) else char_of (87 + n))"

definition escape_char :: "char \<Rightarrow> string" where
  "escape_char c =
     (if c = quote \<or> c = backslash then [backslash, c]
      else if c = CHR 0x0A then [backslash, CHR ''n'']
      else if c = CHR 0x0D then [backslash, CHR ''r'']
      else if c = CHR 0x09 then [backslash, CHR ''t'']
      else if of_char c < (32 :: nat) \<or> c = CHR ''<'' \<or> c = CHR ''>'' \<or> c = CHR ''&''
        then backslash # ''u00'' @ [hex_digit (of_char c div 16), hex_digit (of_char c mod 16)]
      else [c])"

definition encode_string :: "string \<Rightarrow> string" where
  "encode_string s = quote # concat (map escape_char s) @ [quote]"

definition hex_value :: "char \<Rightarrow> nat option" where
  "hex_value c = (let n = of_char c in
     if 48 \<le> n \<and> n \<le> 57 then Some (n - 48)
     else if 97 \<le> n \<and> n \<le> 102 then Some (n - 87)
     else if 65 \<le> n \<and> n \<le> 70 then Some (n - 55) else None)"

definition utf8 :: "nat \<Rightarrow> string" where
  "utf8 n = (if n < 128 then [char_of n]
     else if n < 2048 then [char_of (192 + n div 64), char_of (128 + n mod 64)]
     else [char_of (224 + n div 4096), char_of (128 + n div 64 mod 64), char_of (128 + n mod 64)])"

definition unescape :: "char \<Rightarrow> char option" where
  "unescape c =
     (if c = quote \<or> c = backslash \<or> c = CHR ''/'' then Some c
      else if c = CHR ''b'' then Some (CHR 0x08) else if c = CHR ''f'' then Some (CHR 0x0C)
      else if c = CHR ''n'' then Some (CHR 0x0A) else if c = CHR ''r'' then Some (CHR 0x0D)
      else if c = CHR ''t'' then Some (CHR 0x09) else None)"

text \<open>The rest of a string literal after its opening quote, and what follows the literal.\<close>

fun parse_string :: "string \<Rightarrow> (string \<times> string) option" where
  "parse_string [] = None"
| "parse_string (c # cs) =
     (if c = quote then Some ([], cs)
      else if c = backslash then
        (case cs of
           e # a1 # a2 # a3 # a4 # rest \<Rightarrow>
             if e = CHR ''u'' then
               (case (hex_value a1, hex_value a2, hex_value a3, hex_value a4) of
                  (Some h1, Some h2, Some h3, Some h4) \<Rightarrow>
                    map_option (\<lambda>(s, r). (utf8 (4096 * h1 + 256 * h2 + 16 * h3 + h4) @ s, r)) (parse_string rest)
                | _ \<Rightarrow> None)
             else (case unescape e of
                None \<Rightarrow> None
              | Some d \<Rightarrow> map_option (\<lambda>(s, r). (d # s, r)) (parse_string (a1 # a2 # a3 # a4 # rest)))
         | e # rest \<Rightarrow>
             (case unescape e of
                None \<Rightarrow> None
              | Some d \<Rightarrow> map_option (\<lambda>(s, r). (d # s, r)) (parse_string rest))
         | [] \<Rightarrow> None)
      else if of_char c < (32 :: nat) then None
      else map_option (\<lambda>(s, r). (c # s, r)) (parse_string cs))"

section \<open>Values\<close>

definition newline :: "nat \<Rightarrow> string" where
  "newline depth = CHR 0x0A # concat (replicate depth ''  '')"

fun join_with :: "string \<Rightarrow> string list \<Rightarrow> string" where
  "join_with sep [] = []"
| "join_with sep [x] = x"
| "join_with sep (x # xs) = x @ sep @ join_with sep xs"

fun encode :: "nat \<Rightarrow> json \<Rightarrow> string" where
  "encode d JNull = ''null''"
| "encode d (JBool b) = (if b then ''true'' else ''false'')"
| "encode d (JNum n) = n"
| "encode d (JStr s) = encode_string s"
| "encode d (JArr xs) =
     (if xs = [] then ''[]''
      else ''['' @ newline (Suc d) @ join_with ('','' @ newline (Suc d)) (map (encode (Suc d)) xs) @ newline d @ '']'')"
| "encode d (JObj kvs) =
     (if kvs = [] then ''{}''
      else ''{'' @ newline (Suc d) @
           join_with ('','' @ newline (Suc d)) (map (\<lambda>(k, v). encode_string k @ '': '' @ encode (Suc d) v) kvs) @
           newline d @ ''}'')"

fun skip_ws :: "string \<Rightarrow> string" where
  "skip_ws [] = []"
| "skip_ws (c # cs) = (if c = CHR '' '' \<or> c = CHR 0x0A \<or> c = CHR 0x0D \<or> c = CHR 0x09 then skip_ws cs else c # cs)"

fun number_char :: "char \<Rightarrow> bool" where
  "number_char c \<longleftrightarrow> c \<in> set ''0123456789+-.eE''"

fun strip_prefix :: "string \<Rightarrow> string \<Rightarrow> string option" where
  "strip_prefix [] s = Some s"
| "strip_prefix (p # ps) s = (case s of c # cs \<Rightarrow> if c = p then strip_prefix ps cs else None | [] \<Rightarrow> None)"

text \<open>Recursive descent; the fuel bounds the nesting and the number of elements, so the length of
  the text is enough.\<close>

fun parse_value :: "nat \<Rightarrow> string \<Rightarrow> (json \<times> string) option"
  and parse_elems :: "nat \<Rightarrow> string \<Rightarrow> (json list \<times> string) option"
  and parse_fields :: "nat \<Rightarrow> string \<Rightarrow> ((string \<times> json) list \<times> string) option" where
  "parse_value 0 s = None"
| "parse_value (Suc n) s =
     (case skip_ws s of
        [] \<Rightarrow> None
      | c # cs \<Rightarrow>
          if c = quote then map_option (\<lambda>(t, r). (JStr t, r)) (parse_string cs)
          else if c = CHR ''['' then
            (case skip_ws cs of
               [] \<Rightarrow> None
             | d # ds \<Rightarrow> if d = CHR '']'' then Some (JArr [], ds) else map_option (\<lambda>(xs, r). (JArr xs, r)) (parse_elems n (d # ds)))
          else if c = CHR ''{'' then
            (case skip_ws cs of
               [] \<Rightarrow> None
             | d # ds \<Rightarrow> if d = CHR ''}'' then Some (JObj [], ds) else map_option (\<lambda>(xs, r). (JObj xs, r)) (parse_fields n (d # ds)))
          else case strip_prefix ''null'' (c # cs) of Some r \<Rightarrow> Some (JNull, r)
          | None \<Rightarrow> (case strip_prefix ''true'' (c # cs) of Some r \<Rightarrow> Some (JBool True, r)
          | None \<Rightarrow> (case strip_prefix ''false'' (c # cs) of Some r \<Rightarrow> Some (JBool False, r)
          | None \<Rightarrow> if number_char c then Some (JNum (takeWhile number_char (c # cs)), dropWhile number_char cs) else None)))"
| "parse_elems 0 s = None"
| "parse_elems (Suc n) s =
     (case parse_value n s of
        None \<Rightarrow> None
      | Some (v, r) \<Rightarrow>
          (case skip_ws r of
             [] \<Rightarrow> None
           | c # cs \<Rightarrow>
               if c = CHR '','' then map_option (\<lambda>(vs, r'). (v # vs, r')) (parse_elems n cs)
               else if c = CHR '']'' then Some ([v], cs) else None))"
| "parse_fields 0 s = None"
| "parse_fields (Suc n) s =
     (case skip_ws s of
        [] \<Rightarrow> None
      | q # qs \<Rightarrow>
          if q \<noteq> quote then None else
          (case parse_string qs of
             None \<Rightarrow> None
           | Some (k, r) \<Rightarrow>
               (case skip_ws r of
                  [] \<Rightarrow> None
                | c # cs \<Rightarrow>
                    if c \<noteq> CHR '':'' then None else
                    (case parse_value n cs of
                       None \<Rightarrow> None
                     | Some (v, r') \<Rightarrow>
                         (case skip_ws r' of
                            [] \<Rightarrow> None
                          | e # es \<Rightarrow>
                              if e = CHR '','' then map_option (\<lambda>(kvs, r''). ((k, v) # kvs, r'')) (parse_fields n es)
                              else if e = CHR ''}'' then Some ([(k, v)], es) else None)))))"

definition decode :: "string \<Rightarrow> json option" where
  "decode s = (case parse_value (Suc (length s)) s of
     None \<Rightarrow> None
   | Some (j, r) \<Rightarrow> if skip_ws r = [] then Some j else None)"

section \<open>Round trip\<close>

text \<open>The strings on which the encoder and the decoder agree byte for byte: all of them.\<close>

lemma hex_value_digit: "n < 16 \<Longrightarrow> hex_value (hex_digit n) = Some n"
  by (auto simp: hex_value_def hex_digit_def Let_def)

lemma parse_string_plain_escape:
  "e \<noteq> CHR ''u'' \<Longrightarrow> parse_string (backslash # e # cs) =
     (case unescape e of None \<Rightarrow> None | Some d \<Rightarrow> map_option (\<lambda>(s, r). (d # s, r)) (parse_string cs))"
  by (auto simp: quote_def backslash_def split: list.split option.split)

lemma hex_zero: "hex_value (CHR ''0'') = Some 0"
  by (simp add: hex_value_def)

lemma utf8_ascii: "of_char c < (128 :: nat) \<Longrightarrow> utf8 (16 * (of_char c div 16) + of_char c mod 16) = [c]"
  by (simp add: utf8_def)

lemma escape_char_cases:
  "(\<exists>e. escape_char c = [backslash, e] \<and> e \<noteq> CHR ''u'' \<and> unescape e = Some c) \<or>
   (escape_char c = backslash # ''u00'' @ [hex_digit (of_char c div 16), hex_digit (of_char c mod 16)] \<and> of_char c < (128 :: nat)) \<or>
   (escape_char c = [c] \<and> c \<noteq> quote \<and> c \<noteq> backslash \<and> \<not> of_char c < (32 :: nat))"
proof (cases "c \<in> {quote, backslash, CHR 0x0A, CHR 0x0D, CHR 0x09, CHR ''<'', CHR ''>'', CHR ''&''}")
  case True
  then show ?thesis by (auto simp: escape_char_def unescape_def quote_def backslash_def)
next
  case False
  then show ?thesis by (cases "of_char c < (32 :: nat)") (simp_all add: escape_char_def)
qed

lemma parse_string_escape:
  assumes "parse_string rest = Some (s, r)"
  shows "parse_string (escape_char c @ rest) = Some (c # s, r)"
proof -
  consider (simple) e where "escape_char c = [backslash, e]" "e \<noteq> CHR ''u''" "unescape e = Some c"
    | (hex) "escape_char c = backslash # ''u00'' @ [hex_digit (of_char c div 16), hex_digit (of_char c mod 16)]"
        "of_char c < (128 :: nat)"
    | (plain) "escape_char c = [c]" "c \<noteq> quote" "c \<noteq> backslash" "\<not> of_char c < (32 :: nat)"
    using escape_char_cases [of c] by blast
  then show ?thesis
  proof cases
    case simple
    then show ?thesis using assms
      unfolding simple(1) append_Cons append_Nil parse_string_plain_escape [OF simple(2)] by simp
  next
    case hex
    have "of_char c div 16 < (16 :: nat)" "of_char c mod 16 < (16 :: nat)" using hex(2) by (simp_all add: div_less_iff_less_mult)
    moreover have "backslash \<noteq> quote" by (simp add: backslash_def quote_def)
    ultimately show ?thesis using assms utf8_ascii [OF hex(2)]
      by (simp add: hex(1) hex_value_digit hex_zero)
  next
    case plain
    then show ?thesis using assms by simp
  qed
qed

lemma parse_string_encoded: "parse_string (concat (map escape_char s) @ quote # rest) = Some (s, rest)"
  by (induction s) (simp_all add: parse_string_escape)

text \<open>White space.\<close>

definition white :: "string \<Rightarrow> bool" where
  "white ws \<longleftrightarrow> set ws \<subseteq> {CHR '' '', CHR 0x0A, CHR 0x0D, CHR 0x09}"

lemma skip_white: "white ws \<Longrightarrow> skip_ws (ws @ s) = skip_ws s"
  by (induction ws) (auto simp: white_def)

lemma white_newline: "white (newline d)"
  by (auto simp: white_def newline_def)

lemma skip_newline [simp]: "skip_ws (newline d @ s) = skip_ws s"
  by (rule skip_white [OF white_newline])

text \<open>The values the program writes: no numbers.\<close>

fun textual :: "json \<Rightarrow> bool" where
  "textual (JNum n) = False"
| "textual (JArr xs) = list_all textual xs"
| "textual (JObj kvs) = list_all (\<lambda>(k, v). textual v) kvs"
| "textual _ = True"

lemma encode_head: "textual j \<Longrightarrow> \<exists>c cs. encode d j = c # cs \<and> c \<notin> {CHR '' '', CHR 0x0A, CHR 0x0D, CHR 0x09, CHR '']'', CHR ''}''}"
  by (cases j) (auto simp: encode_string_def quote_def)

lemma join_head: "xs \<noteq> [] \<Longrightarrow> hd xs = c # cs \<Longrightarrow> \<exists>ds. join_with sep xs = c # ds"
  by (induction sep xs rule: join_with.induct) auto

lemma parse_elems_encoded:
  assumes "\<And>x n ws rest. x \<in> set xs \<Longrightarrow> white ws \<Longrightarrow> length (encode d x) \<le> n \<Longrightarrow>
      parse_value (Suc n) (ws @ encode d x @ rest) = Some (x, rest)"
    and "xs \<noteq> []" and "white ws" and "length (join_with ('','' @ newline d) (map (encode d) xs)) < n"
  shows "parse_elems (Suc n) (ws @ join_with ('','' @ newline d) (map (encode d) xs) @ newline d' @ CHR '']'' # rest) = Some (xs, rest)"
  using assms
proof (induction xs arbitrary: n ws)
  case (Cons x xs)
  obtain m where n: "n = Suc m" using Cons.prems(4) by (cases n) auto
  show ?case
  proof (cases xs)
    case Nil
    then have "parse_value n (ws @ encode d x @ newline d' @ CHR '']'' # rest) = Some (x, newline d' @ CHR '']'' # rest)"
      using Cons.prems n by simp
    then show ?thesis using Nil by simp
  next
    case (Cons y ys)
    let ?sep = "'','' @ newline d"
    let ?tail = "join_with ?sep (map (encode d) xs) @ newline d' @ CHR '']'' # rest"
    have join: "join_with ?sep (map (encode d) (x # xs)) = encode d x @ ?sep @ join_with ?sep (map (encode d) xs)"
      using Cons by simp
    have len: "length (encode d x) \<le> m" "length (join_with ?sep (map (encode d) xs)) < m"
      using Cons.prems(4) n unfolding join by simp_all
    have v: "parse_value n (ws @ encode d x @ CHR '','' # newline d @ ?tail) = Some (x, CHR '','' # newline d @ ?tail)"
      unfolding n by (rule Cons.prems(1)) (use Cons.prems(3) len in simp_all)
    have e: "parse_elems n (newline d @ ?tail) = Some (xs, rest)"
      unfolding n by (rule Cons.IH) (rule Cons.prems(1), use Cons white_newline len(2) in simp_all)
    have "ws @ join_with ?sep (map (encode d) (x # xs)) @ newline d' @ CHR '']'' # rest =
        ws @ encode d x @ CHR '','' # newline d @ ?tail" unfolding join by simp
    then show ?thesis using v e by simp
  qed
qed simp

lemma parse_fields_encoded:
  assumes "\<And>kv n ws rest. kv \<in> set kvs \<Longrightarrow> white ws \<Longrightarrow> length (encode d (snd kv)) \<le> n \<Longrightarrow>
      parse_value (Suc n) (ws @ encode d (snd kv) @ rest) = Some (snd kv, rest)"
    and "kvs \<noteq> []" and "white ws"
    and "length (join_with ('','' @ newline d) (map (\<lambda>(k, v). encode_string k @ '': '' @ encode d v) kvs)) < n"
  shows "parse_fields (Suc n) (ws @ join_with ('','' @ newline d) (map (\<lambda>(k, v). encode_string k @ '': '' @ encode d v) kvs)
      @ newline d' @ CHR ''}'' # rest) = Some (kvs, rest)"
  using assms
proof (induction kvs arbitrary: n ws)
  case (Cons kv kvs)
  obtain k v where kv: "kv = (k, v)" by (cases kv)
  obtain m where n: "n = Suc m" using Cons.prems(4) by (cases n) auto
  let ?sep = "'','' @ newline d" and ?f = "\<lambda>(k, v). encode_string k @ '': '' @ encode d v"
  have head: "skip_ws (ws @ encode_string k @ t) = quote # concat (map escape_char k) @ quote # t" for t
    using Cons.prems(3) by (simp add: skip_white encode_string_def) (simp add: quote_def)
  have sep: "white '' ''" by (simp add: white_def)
  show ?case
  proof (cases kvs)
    case Nil
    then have "parse_value n ('' '' @ encode d v @ newline d' @ CHR ''}'' # rest) = Some (v, newline d' @ CHR ''}'' # rest)"
      using Cons.prems(1) [of kv "'' ''" m] Cons.prems(4) n kv sep by simp
    then show ?thesis using Nil head [of "'': '' @ encode d v @ newline d' @ CHR ''}'' # rest"] kv
      by (simp add: parse_string_encoded)
  next
    case (Cons y ys)
    let ?tail = "join_with ?sep (map ?f kvs) @ newline d' @ CHR ''}'' # rest"
    have join: "join_with ?sep (map ?f (kv # kvs)) = encode_string k @ '': '' @ encode d v @ ?sep @ join_with ?sep (map ?f kvs)"
      using Cons kv by simp
    have len: "length (encode d v) \<le> m" "length (join_with ?sep (map ?f kvs)) < m"
      using Cons.prems(4) n unfolding join by simp_all
    have v: "parse_value n ('' '' @ encode d v @ CHR '','' # newline d @ ?tail) = Some (v, CHR '','' # newline d @ ?tail)"
      unfolding n using Cons.prems(1) [of kv "'' ''" m] sep len kv by simp
    have e: "parse_fields n (newline d @ ?tail) = Some (kvs, rest)"
      unfolding n by (rule Cons.IH) (rule Cons.prems(1), use Cons white_newline len(2) in simp_all)
    have "ws @ join_with ?sep (map ?f (kv # kvs)) @ newline d' @ CHR ''}'' # rest =
        ws @ encode_string k @ '': '' @ encode d v @ CHR '','' # newline d @ ?tail" unfolding join by simp
    then show ?thesis using v e head [of "'': '' @ encode d v @ CHR '','' # newline d @ ?tail"] kv
      by (simp add: parse_string_encoded)
  qed
qed simp

lemma parse_encoded:
  "textual j \<Longrightarrow> white ws \<Longrightarrow> length (encode d j) \<le> n \<Longrightarrow> parse_value (Suc n) (ws @ encode d j @ rest) = Some (j, rest)"
proof (induction j arbitrary: d n ws rest)
  case (JArr xs)
  show ?case
  proof (cases "xs = []")
    case False
    let ?join = "join_with ('','' @ newline (Suc d)) (map (encode (Suc d)) xs)"
    have len: "length ?join < n" "\<exists>m. n = Suc m" using JArr.prems(3) False by (auto simp: Suc_le_eq le_Suc_eq intro: not0_implies_Suc)
    then obtain m where n: "n = Suc m" by blast
    have "length ?join < m" using JArr.prems(3) False n by simp
    then have e: "parse_elems n ([] @ ?join @ newline d @ CHR '']'' # rest) = Some (xs, rest)"
      unfolding n using JArr.IH JArr.prems(1) False
      by (intro parse_elems_encoded) (auto simp: list_all_iff white_def)
    have "textual (hd xs)" using JArr.prems(1) False by (cases xs) auto
    from encode_head [OF this, of "Suc d"] obtain c cs where
      c: "encode (Suc d) (hd xs) = c # cs" "c \<notin> {CHR '' '', CHR 0x0A, CHR 0x0D, CHR 0x09, CHR '']'', CHR ''}''}" by blast
    from join_head [of "map (encode (Suc d)) xs" c cs "'','' @ newline (Suc d)"] c(1) False
    obtain ds where ds: "?join = c # ds" by (auto simp: hd_map)
    have sk: "skip_ws (newline (Suc d) @ ?join @ newline d @ CHR '']'' # rest) = c # ds @ newline d @ CHR '']'' # rest"
      using c(2) ds by simp
    show ?thesis using False JArr.prems(2) sk c(2) e ds by (simp add: skip_white quote_def)
  qed (use JArr in \<open>simp add: skip_white quote_def\<close>)
next
  case (JObj kvs)
  let ?f = "\<lambda>(k, v). encode_string k @ '': '' @ encode (Suc d) v"
  show ?case
  proof (cases "kvs = []")
    case False
    let ?join = "join_with ('','' @ newline (Suc d)) (map ?f kvs)"
    obtain m where n: "n = Suc m" using JObj.prems(3) False by (cases n) auto
    have "length ?join < m" using JObj.prems(3) False n by simp
    then have e: "parse_fields n ([] @ ?join @ newline d @ CHR ''}'' # rest) = Some (kvs, rest)"
      unfolding n using JObj.IH JObj.prems(1) False
      by (intro parse_fields_encoded) (auto simp: list_all_iff white_def)
    have "\<exists>cs. hd (map ?f kvs) = quote # cs" using False by (cases kvs) (auto simp: encode_string_def)
    then obtain cs where "hd (map ?f kvs) = quote # cs" by blast
    from join_head [OF _ this, of "'','' @ newline (Suc d)"] False
    obtain ds where ds: "?join = quote # ds" by auto
    have sk: "skip_ws (newline (Suc d) @ ?join @ newline d @ CHR ''}'' # rest) = quote # ds @ newline d @ CHR ''}'' # rest"
      using ds by (simp add: quote_def)
    show ?thesis using False JObj.prems(2) sk e ds by (simp add: skip_white quote_def)
  qed (use JObj in \<open>simp add: skip_white quote_def\<close>)
qed (auto simp: skip_white encode_string_def quote_def parse_string_encoded [unfolded quote_def])

text \<open>Decoding what was encoded gives the value back.\<close>

lemma decode_encode: "textual j \<Longrightarrow> decode (encode 0 j) = Some j"
  using parse_encoded [of j "[]" 0 "length (encode 0 j)" "[]"] by (simp add: decode_def white_def)

end
