(* ===== verification/Go_Time_Text.thy ===== *)
theory Go_Time_Text
  imports Go_Time
begin

text \<open>
  The text form of an instant in JSON: \<^verbatim>\<open>time.RFC3339Nano\<close> in the local zone, and reading it back,
  as \<^verbatim>\<open>Time.UnmarshalJSON\<close> does for texts in that form. (The texts outside the form that Go's lenient
  fallback takes, an hour of one digit or a comma before the fraction, are errors here; the program
  does not write them.)
\<close>

text \<open>
  A \<^verbatim>\<open>time.Time\<close>: the instant (nanoseconds since 1970-01-01 UTC) and the offset of its zone from UTC
  in seconds. The monotonic reading, which \<^verbatim>\<open>time.Now\<close> adds and the JSON form drops, is not kept.
\<close>

type_synonym gotime = "int \<times> int"

text \<open>\<^verbatim>\<open>time.Time{}\<close>: the first of January of the year 1.\<close>

definition zero_time :: gotime where
  "zero_time = (-719162 * 86400 * ns_second, 0)"

section \<open>Writing\<close>

definition zone_text :: "int \<Rightarrow> string" where
  "zone_text off =
     (if off = 0 then ''Z''
      else (if off \<le> -60 then ''-'' else ''+'') @ pad 2 (nat (\<bar>off\<bar> div 3600)) @ '':'' @ pad 2 (nat (\<bar>off\<bar> div 60 mod 60)))"

definition strip_zeros :: "string \<Rightarrow> string" where
  "strip_zeros s = rev (dropWhile (\<lambda>c. c = CHR ''0'') (rev s))"

definition frac_text :: "nat \<Rightarrow> string" where
  "frac_text ns = (if ns = 0 then '''' else ''.'' @ strip_zeros (pad 9 ns))"

definition rfc3339_nano :: "int \<Rightarrow> int \<Rightarrow> string" where
  "rfc3339_nano off t = layout '':'' (frac_text (nat (t mod ns_second)) @ zone_text off) (t + off * ns_second)"

text \<open>\<^verbatim>\<open>Time.MarshalJSON\<close>, up to the quotes: it refuses a year or an offset that RFC 3339 cannot write.\<close>

definition marshal_time :: "gotime \<Rightarrow> goerr + string" where
  "marshal_time tz = (case tz of (t, off) \<Rightarrow>
     if \<not> printable_year (t + off * ns_second)
     then Inl (ErrMsg ''Time.MarshalJSON: year outside of range [0,9999]'')
     else if 86400 \<le> \<bar>off\<bar>
     then Inl (ErrMsg ''Time.MarshalJSON: timezone hour outside of range [0,23]'')
     else Inr (rfc3339_nano off t))"

section \<open>Reading\<close>

definition is_digit :: "char \<Rightarrow> bool" where
  "is_digit c \<longleftrightarrow> (48 :: nat) \<le> of_char c \<and> of_char c \<le> (57 :: nat)"

definition num :: "nat \<Rightarrow> string \<Rightarrow> (nat \<times> string) option" where
  "num w s = (if w \<le> length s \<and> list_all is_digit (take w s) then Some (digits_value (take w s), drop w s) else None)"

fun expect :: "char \<Rightarrow> string \<Rightarrow> string option" where
  "expect c [] = None"
| "expect c (d # ds) = (if d = c then Some ds else None)"

definition num_then :: "nat \<Rightarrow> char \<Rightarrow> string \<Rightarrow> (nat \<times> string) option" where
  "num_then w c s = Option.bind (num w s) (\<lambda>(n, r). map_option (\<lambda>r'. (n, r')) (expect c r))"

fun parse_frac :: "string \<Rightarrow> nat \<times> string" where
  "parse_frac (p # d # s) =
     (if p = CHR ''.'' \<and> is_digit d
      then let ds = take 9 (takeWhile is_digit (d # s)) in
           (digits_value ds * 10 ^ (9 - length ds), dropWhile is_digit s)
      else (0, p # d # s))"
| "parse_frac s = (0, s)"

definition parse_zone :: "string \<Rightarrow> int option" where
  "parse_zone s =
     (if s = ''Z'' then Some 0
      else case s of
        [] \<Rightarrow> None
      | c # cs \<Rightarrow>
          if c = CHR ''+'' \<or> c = CHR ''-'' then
            Option.bind (num_then 2 (CHR '':'') cs) (\<lambda>(h, r).
            Option.bind (num 2 r) (\<lambda>(m, r').
            if r' = [] \<and> h < 24 \<and> m < 60
            then Some ((if c = CHR ''-'' then -1 else 1) * (3600 * int h + 60 * int m)) else None))
          else None)"

text \<open>Days from 0001-01-01 of a date.\<close>

definition day_number :: "int \<Rightarrow> int \<Rightarrow> int \<Rightarrow> int" where
  "day_number y m d = days_before_year y + sum_list (take (nat (m - 1)) (month_lengths (leap_year y))) + (d - 1)"

definition parse_time :: "string \<Rightarrow> gotime option" where
  "parse_time s =
     Option.bind (num_then 4 (CHR ''-'') s) (\<lambda>(y, s).
     Option.bind (num_then 2 (CHR ''-'') s) (\<lambda>(mo, s).
     Option.bind (num_then 2 (CHR ''T'') s) (\<lambda>(d, s).
     Option.bind (num_then 2 (CHR '':'') s) (\<lambda>(h, s).
     Option.bind (num_then 2 (CHR '':'') s) (\<lambda>(mi, s).
     Option.bind (num 2 s) (\<lambda>(sec, s).
     case parse_frac s of (ns, s) \<Rightarrow>
     Option.bind (parse_zone s) (\<lambda>off.
     if 1 \<le> mo \<and> mo \<le> 12 \<and> 1 \<le> d \<and> int d \<le> month_lengths (leap_year (int y)) ! (mo - 1) \<and> h < 24 \<and> mi < 60 \<and> sec < 60
     then Some (((day_number (int y) (int mo) (int d) - 719162) * 86400 + 3600 * int h + 60 * int mi + int sec - off) * ns_second + int ns, off)
     else None)))))))"

section \<open>Round trip\<close>

lemma is_digit_char: "n < 10 \<Longrightarrow> is_digit (digit_char n)"
  by (simp add: is_digit_def digit_char_def)

lemma dec_digits: "list_all is_digit (dec n)"
proof (induction n rule: dec.induct)
  case (1 n)
  then show ?case by (subst dec.simps) (simp add: is_digit_char)
qed

lemma pad_digits: "list_all is_digit (pad w n)"
proof -
  have "list_all is_digit (replicate k (CHR ''0''))" for k by (induction k) (simp_all add: is_digit_def)
  then show ?thesis using dec_digits [of n] by (simp add: pad_def)
qed

lemma num_pad: "n < 10 ^ w \<Longrightarrow> 0 < w \<Longrightarrow> num w (pad w n @ r) = Some (n, r)"
  using length_pad [of n w] pad_digits [of w n] by (simp add: num_def digits_value_pad)

lemma num_then_pad: "n < 10 ^ w \<Longrightarrow> 0 < w \<Longrightarrow> num_then w c (pad w n @ c # r) = Some (n, r)"
  by (simp add: num_then_def num_pad)

lemma digits_value_append: "digits_value (a @ b) = digits_value a * 10 ^ length b + digits_value b"
proof -
  let ?g = "\<lambda>v c. 10 * v + (of_char c - 48) :: nat"
  have shift: "foldl ?g x b = x * 10 ^ length b + foldl ?g 0 b" for x b
  proof (induction b arbitrary: x)
    case (Cons c b)
    have "foldl ?g x (c # b) = ?g x c * 10 ^ length b + foldl ?g 0 b" using Cons.IH [of "?g x c"] by simp
    moreover have "foldl ?g 0 (c # b) = ?g 0 c * 10 ^ length b + foldl ?g 0 b" using Cons.IH [of "?g 0 c"] by simp
    ultimately show ?case by (simp add: add_mult_distrib)
  qed simp
  show ?thesis using shift [of "digits_value a" b] by (simp add: digits_value_def)
qed

lemma digits_value_zeros: "digits_value (replicate k (CHR ''0'')) = 0"
  by (induction k) (simp_all add: digits_value_def)

lemma strip_zeros_decomp: "\<exists>k. s = strip_zeros s @ replicate k (CHR ''0'')"
proof -
  have "rev s = takeWhile (\<lambda>c. c = CHR ''0'') (rev s) @ dropWhile (\<lambda>c. c = CHR ''0'') (rev s)" by simp
  moreover have "takeWhile (\<lambda>c. c = CHR ''0'') xs = replicate (length (takeWhile (\<lambda>c. c = CHR ''0'') xs)) (CHR ''0'')" for xs
    by (rule replicate_length_same [symmetric]) (auto dest: set_takeWhileD)
  ultimately show ?thesis unfolding strip_zeros_def by (metis rev_append rev_replicate rev_rev_ident)
qed

lemma parse_frac_text:
  assumes "ns < 10 ^ 9" and "\<And>c cs. rest = c # cs \<Longrightarrow> \<not> is_digit c \<and> c \<noteq> CHR ''.''"
  shows "parse_frac (frac_text ns @ rest) = (ns, rest)"
proof (cases "ns = 0")
  case True
  then show ?thesis using assms(2) by (cases rest rule: parse_frac.cases) (auto simp: frac_text_def)
next
  case False
  obtain k where k: "pad 9 ns = strip_zeros (pad 9 ns) @ replicate k (CHR ''0'')" using strip_zeros_decomp by blast
  let ?s = "strip_zeros (pad 9 ns)"
  have len: "length ?s + k = 9" using k length_pad [of ns 9] assms(1) by (metis length_append length_replicate zero_less_numeral)
  have val: "digits_value ?s * 10 ^ k = ns"
    using digits_value_append [of ?s "replicate k (CHR ''0'')"] digits_value_zeros [of k] digits_value_pad [of 9 ns] k by simp
  have ne: "?s \<noteq> []" using val False by (auto simp: digits_value_def)
  then obtain d ds where d: "?s = d # ds" by (cases ?s) auto
  have dig: "list_all is_digit (d # ds)" using pad_digits [of 9 ns] k d by (metis list_all_append)
  have stop: "takeWhile is_digit rest = []" "dropWhile is_digit rest = rest"
    using assms(2) by (cases rest; simp)+
  have tw: "takeWhile is_digit (ds @ rest) = ds" "dropWhile is_digit (ds @ rest) = rest"
    using dig stop by (simp_all add: list_all_iff takeWhile_append2 dropWhile_append2)
  have "length (d # ds) \<le> 9" "9 - length (d # ds) = k" using len d by simp_all
  then show ?thesis using False dig d val tw by (simp add: frac_text_def)
qed

lemma clock_split: "3600 * (s div 3600) + 60 * (s div 60 mod 60) + s mod 60 = (s :: int)"
proof -
  have "s div 3600 = s div 60 div 60" by (simp flip: zdiv_zmult2_eq)
  then show ?thesis using mult_div_mod_eq [of 60 s] mult_div_mod_eq [of 60 "s div 60"] by linarith
qed

lemma clock_split_nat: "0 \<le> s \<Longrightarrow> 3600 * int (nat (s div 3600)) + 60 * int (nat (s div 60 mod 60)) + s mod 60 = s"
  using clock_split [of s] by (simp only: pos_imp_zdiv_nonneg_iff nat_0_le pos_mod_sign zero_less_numeral)

lemma zone_head: "zone_text off = c # cs \<Longrightarrow> \<not> is_digit c \<and> c \<noteq> CHR ''.''"
  by (auto simp: zone_text_def is_digit_def split: if_splits)

lemma parse_zone_text:
  assumes "60 dvd off" and "\<bar>off\<bar> < 86400" shows "parse_zone (zone_text off) = Some off"
proof (cases "off = 0")
  case False
  define h m where "h = nat (\<bar>off\<bar> div 3600)" and "m = nat (\<bar>off\<bar> div 60 mod 60)"
  have small: "h < 24" "m < 60" unfolding h_def m_def using assms(2) by linarith+
  have "\<bar>off\<bar> mod 60 = 0" using assms(1) by (simp add: dvd_imp_mod_0)
  with clock_split_nat [OF abs_ge_zero, of off] have off: "3600 * int h + 60 * int m = \<bar>off\<bar>"
    by (simp only: add_0_right h_def m_def)
  have zone: "zone_text off = (if off \<le> -60 then CHR ''-'' else CHR ''+'') # pad 2 h @ CHR '':'' # pad 2 m"
    using False by (simp add: zone_text_def h_def m_def)
  have m: "num 2 (pad 2 m) = Some (m, [])" using num_pad [of m 2 "[]"] small by simp
  have h: "num_then 2 (CHR '':'') (pad 2 h @ CHR '':'' # pad 2 m) = Some (h, pad 2 m)"
    by (rule num_then_pad) (use small in simp_all)
  have "off \<le> -60 \<longleftrightarrow> off < 0" using assms(1) False by (auto elim: dvdE)
  then show ?thesis using small off m h by (cases "off < 0") (simp_all add: zone parse_zone_def)
qed (simp add: zone_text_def parse_zone_def)

lemma find_month_within:
  "find_month m ls d = (m', d') \<Longrightarrow> 0 \<le> d \<Longrightarrow> d < sum_list ls \<Longrightarrow> d' \<le> ls ! nat (m' - m)"
proof (induction m ls d rule: find_month.induct)
  case (2 m l ls d)
  show ?case
  proof (cases "d < l")
    case True
    then show ?thesis using "2.prems" by auto
  next
    case False
    then have "d' \<le> ls ! nat (m' - (m + 1))" using 2 by simp
    moreover have "m + 1 \<le> m'" using find_month_inverse [of "m + 1" ls "d - l" m' d'] "2.prems"(1) False by simp
    then have "nat (m' - m) = Suc (nat (m' - (m + 1)))" by simp
    ultimately show ?thesis by simp
  qed
qed auto

lemma civil_date_day:
  assumes "civil_date z = (y, m, d)"
  shows "day_number y m d = z" and "d \<le> month_lengths (leap_year y) ! (nat m - 1)"
proof -
  have y: "year_of_day z = y" and f: "find_month 1 (month_lengths (leap_year y)) (z - days_before_year y) = (m, d)"
    using assms by (auto simp: civil_date_def Let_def)
  from find_month_inverse [OF f] show "day_number y m d = z" by (simp add: day_number_def)
  have "0 \<le> z - days_before_year y" "z - days_before_year y < sum_list (month_lengths (leap_year y))"
    using year_of_day_bounds [of z] days_before_year_Suc [of y] y by (auto simp: month_lengths_def)
  from find_month_within [OF f this] have "d \<le> month_lengths (leap_year y) ! nat (m - 1)" .
  moreover have "nat (m - 1) = nat m - 1" by simp
  ultimately show "d \<le> month_lengths (leap_year y) ! (nat m - 1)" by (simp only:)
qed

text \<open>The times whose text form says all there is: a printable year and an offset in whole minutes.\<close>

fun textual_time :: "gotime \<Rightarrow> bool" where
  "textual_time (t, off) \<longleftrightarrow> printable_year (t + off * ns_second) \<and> 60 dvd off \<and> \<bar>off\<bar> < 86400"

lemma parse_time_text:
  assumes "60 dvd off" and "\<bar>off\<bar> < 86400" and "printable_year (t + off * ns_second)"
  shows "parse_time (rfc3339_nano off t) = Some (t, off)"
proof -
  define u where "u = t + off * ns_second"
  obtain y m d where ymd: "civil_date (days_of u) = (y, m, d)" by (metis prod_cases3)
  have y: "0 \<le> y" "y < 10000" using assms(3) ymd by (auto simp: printable_year_def civil_date_def Let_def u_def)
  note b = civil_date_bounds [OF ymd] civil_date_day [OF ymd]
  have c: "0 \<le> clock_of u" "clock_of u < 86400" by (simp_all add: clock_of_def)
  define h mi sec where "h = nat (clock_of u div 3600)" and "mi = nat (clock_of u div 60 mod 60)" and "sec = nat (clock_of u mod 60)"
  have clock: "3600 * int h + 60 * int mi + int sec = clock_of u"
    using c clock_split [of "clock_of u"] by (simp add: h_def mi_def sec_def pos_imp_zdiv_nonneg_iff)
  have hms: "h < 24" "mi < 60" "sec < 60" using c by (auto simp: h_def mi_def sec_def nat_less_iff)
  have ns: "nat (t mod ns_second) < 10 ^ 9" by (simp add: ns_second_def nat_less_iff)
  have split: "t = ((days_of u - 719162) * 86400 + clock_of u - off) * ns_second + t mod ns_second"
  proof -
    have "u div ns_second = t div ns_second + off" "u mod ns_second = t mod ns_second" by (simp_all add: u_def ns_second_def)
    moreover have "(days_of u - 719162) * 86400 + clock_of u = u div ns_second"
      by (simp add: days_of_def clock_of_def mult.commute)
    ultimately show ?thesis by (simp add: mult.commute)
  qed
  have written: "rfc3339_nano off t = pad 4 (nat y) @ CHR ''-'' # pad 2 (nat m) @ CHR ''-'' # pad 2 (nat d) @ CHR ''T'' #
      pad 2 h @ CHR '':'' # pad 2 mi @ CHR '':'' # pad 2 sec @ frac_text (nat (t mod ns_second)) @ zone_text off"
    using ymd by (simp add: rfc3339_nano_def layout_def u_def h_def mi_def sec_def)
  have small: "nat y < 10 ^ 4" "nat m < 10 ^ 2" "nat d < 10 ^ 2" "h < 10 ^ 2" "mi < 10 ^ 2" "sec < 10 ^ 2"
    using y b(1) hms by (auto simp: nat_less_iff)
  have frac: "parse_frac (frac_text (nat (t mod ns_second)) @ zone_text off) = (nat (t mod ns_second), zone_text off)"
    by (rule parse_frac_text [OF ns]) (rule zone_head)
  have whole: "((days_of u - 719162) * 86400 + 3600 * int h + 60 * int mi + int sec - off) * ns_second + t mod ns_second = t"
    using split clock by (metis add.assoc)
  have "int (nat m) = m" "int (nat d) = d" "int (nat y) = y" using b(1) y by simp_all
  moreover have "1 \<le> nat m" "nat m \<le> 12" "1 \<le> nat d" using b(1) by linarith+
  moreover have "0 \<le> t mod ns_second" by (simp add: ns_second_def)
  ultimately show ?thesis
    unfolding written parse_time_def
    using small hms frac parse_zone_text [OF assms(1,2)] whole b(2,3)
    by (simp add: num_then_pad num_pad)
qed

lemma marshal_textual: "textual_time tz \<Longrightarrow> \<exists>s. marshal_time tz = Inr s \<and> parse_time s = Some tz"
  by (cases tz) (simp add: marshal_time_def parse_time_text)

lemma textual_zero_time: "textual_time zero_time"
  by (simp add: zero_time_def printable_year_def days_of_def ns_second_def) code_simp

end
