(* ===== verification/State.thy ===== *)
theory State
  imports Returns Go_Json_Struct Go_Json_Text Go_Time_Text
begin

text \<open>
  Package \<^verbatim>\<open>state\<close> (\<^verbatim>\<open>state/state.go\<close>): the record of a rotation that is kept in \<^verbatim>\<open>state.json\<close>, its
  JSON form, and the operations that change it and save it. An operation that mutates its receiver
  returns the new state beside the error, because the state stays changed when the save fails.
\<close>

section \<open>Phases\<close>

text \<open>\<^verbatim>\<open>type Phase string\<close>: a state loaded from disk may hold any string.\<close>

type_synonym phase = string

definition PhaseIdle :: phase where "PhaseIdle = ''IDLE''"
definition PhaseDetecting :: phase where "PhaseDetecting = ''DETECTING''"
definition PhaseRenewingN1 :: phase where "PhaseRenewingN1 = ''RENEWING_N1''"
definition PhaseRenewingN2 :: phase where "PhaseRenewingN2 = ''RENEWING_N2''"
definition PhaseRenewingN3 :: phase where "PhaseRenewingN3 = ''RENEWING_N3''"
definition PhaseRollbackN3 :: phase where "PhaseRollbackN3 = ''ROLLBACK_N3''"
definition PhaseRollbackN2 :: phase where "PhaseRollbackN2 = ''ROLLBACK_N2''"
definition PhaseRollbackN1 :: phase where "PhaseRollbackN1 = ''ROLLBACK_N1''"
definition PhaseNotifying :: phase where "PhaseNotifying = ''NOTIFYING''"

lemmas phase_defs = PhaseIdle_def PhaseDetecting_def PhaseRenewingN1_def PhaseRenewingN2_def
  PhaseRenewingN3_def PhaseRollbackN1_def PhaseRollbackN2_def PhaseRollbackN3_def PhaseNotifying_def

definition phaseExplanation :: "phase \<Rightarrow> string" where
  "phaseExplanation p =
     (if p = PhaseIdle then ''No operation in progress. Waiting for next check interval.''
      else if p = PhaseDetecting then ''Checking certificate expiry on all control plane nodes.''
      else if p = PhaseRenewingN1 then ''Renewing certificates on node 1.''
      else if p = PhaseRenewingN2 then ''Renewing certificates on node 2.''
      else if p = PhaseRenewingN3 then ''Renewing certificates on node 3.''
      else if p = PhaseRollbackN1 then ''Rolling back node 1 to previous cert state.''
      else if p = PhaseRollbackN2 then ''Rolling back node 2 to previous cert state.''
      else if p = PhaseRollbackN3 then ''Rolling back node 3 to previous cert state.''
      else if p = PhaseNotifying then ''Sending notifications for completed operation.''
      else ''Unknown phase.'')"

section \<open>The state\<close>

record node_state =
  ns_Node :: string
  ns_BackupPath :: string
  ns_RenewedAt :: gotime
  ns_RolledBackAt :: gotime
  ns_RenewalFailed :: bool
  ns_RollbackFailed :: bool

text \<open>\<^verbatim>\<open>Nodes\<close> is \<open>None\<close> for the nil map, which reads as empty and panics when it is written.\<close>

record state =
  st_Phase :: phase
  st_StartedAt :: gotime
  st_UpdatedAt :: gotime
  st_Nodes :: "(string, node_state) fmap option"
  st_FailedNode :: string
  st_FailureStep :: string
  st_Critical :: bool

definition zero_node_state :: node_state where
  "zero_node_state = \<lparr>ns_Node = '''', ns_BackupPath = '''', ns_RenewedAt = zero_time, ns_RolledBackAt = zero_time,
     ns_RenewalFailed = False, ns_RollbackFailed = False\<rparr>"

definition zero_state :: state where
  "zero_state = \<lparr>st_Phase = '''', st_StartedAt = zero_time, st_UpdatedAt = zero_time, st_Nodes = None,
     st_FailedNode = '''', st_FailureStep = '''', st_Critical = False\<rparr>"

definition state_New :: state where
  "state_New = zero_state\<lparr>st_Phase := PhaseIdle, st_Nodes := Some fmempty\<rparr>"

section \<open>The JSON form\<close>

text \<open>
  What \<^verbatim>\<open>json.MarshalIndent\<close> makes of the struct tags: the fields in their order, \<^verbatim>\<open>omitempty\<close> leaves
  out an empty string and has no effect on a \<^verbatim>\<open>time.Time\<close>, a nil map is null, the keys of a map are
  sorted.
\<close>

definition marshal_node :: "node_state \<Rightarrow> goerr + json" where
  "marshal_node n =
     (case marshal_time (ns_RenewedAt n) of Inl e \<Rightarrow> Inl e | Inr renewed \<Rightarrow>
      case marshal_time (ns_RolledBackAt n) of Inl e \<Rightarrow> Inl e | Inr rolled \<Rightarrow>
      Inr (JObj [(''node'', JStr (ns_Node n)), (''backup_path'', JStr (ns_BackupPath n)),
        (''renewed_at'', JStr renewed), (''rolled_back_at'', JStr rolled),
        (''renewal_failed'', JBool (ns_RenewalFailed n)), (''rollback_failed'', JBool (ns_RollbackFailed n))]))"

fun marshal_entries :: "(string, node_state) fmap \<Rightarrow> string list \<Rightarrow> goerr + (string \<times> json) list" where
  "marshal_entries m [] = Inr []"
| "marshal_entries m (k # ks) =
     (case marshal_node (the (fmlookup m k)) of Inl e \<Rightarrow> Inl e | Inr j \<Rightarrow>
      case marshal_entries m ks of Inl e \<Rightarrow> Inl e | Inr kvs \<Rightarrow> Inr ((k, j) # kvs))"

definition marshal_nodes :: "(string, node_state) fmap option \<Rightarrow> goerr + json" where
  "marshal_nodes m = (case m of
     None \<Rightarrow> Inr JNull
   | Some f \<Rightarrow> (case marshal_entries f (sorted_list_of_fset (fmdom f)) of Inl e \<Rightarrow> Inl e | Inr kvs \<Rightarrow> Inr (JObj kvs)))"

definition omit_empty :: "string \<Rightarrow> string \<Rightarrow> (string \<times> json) list" where
  "omit_empty k v = (if v = '''' then [] else [(k, JStr v)])"

definition marshal_state :: "state \<Rightarrow> goerr + json" where
  "marshal_state s =
     (case marshal_time (st_StartedAt s) of Inl e \<Rightarrow> Inl e | Inr started \<Rightarrow>
      case marshal_time (st_UpdatedAt s) of Inl e \<Rightarrow> Inl e | Inr updated \<Rightarrow>
      case marshal_nodes (st_Nodes s) of Inl e \<Rightarrow> Inl e | Inr nodes \<Rightarrow>
      Inr (JObj ([(''phase'', JStr (st_Phase s)), (''started_at'', JStr started), (''updated_at'', JStr updated),
          (''nodes'', nodes)] @ omit_empty ''failed_node'' (st_FailedNode s) @
        omit_empty ''failure_step'' (st_FailureStep s) @ [(''critical'', JBool (st_Critical s))])))"

text \<open>\<^verbatim>\<open>json.Unmarshal\<close> into the structs; \<^verbatim>\<open>Time.UnmarshalJSON\<close> wants a string that RFC 3339 reads.\<close>

definition into_time :: "json \<Rightarrow> gotime \<Rightarrow> goerr + gotime" where
  "into_time j old = (case j of
     JNull \<Rightarrow> Inr old
   | JStr s \<Rightarrow> (case parse_time s of None \<Rightarrow> Inl (ErrMsg (''parsing time '' @ s)) | Some t \<Rightarrow> Inr t)
   | _ \<Rightarrow> Inl (ErrMsg ''Time.UnmarshalJSON: input is not a JSON string''))"

definition set_node_field :: "string \<Rightarrow> json \<Rightarrow> node_state \<Rightarrow> goerr + node_state" where
  "set_node_field k j n =
     (if equal_fold k ''node'' then map_ok (\<lambda>v. n\<lparr>ns_Node := v\<rparr>) (into_string j (ns_Node n))
      else if equal_fold k ''backup_path'' then map_ok (\<lambda>v. n\<lparr>ns_BackupPath := v\<rparr>) (into_string j (ns_BackupPath n))
      else if equal_fold k ''renewed_at'' then map_ok (\<lambda>v. n\<lparr>ns_RenewedAt := v\<rparr>) (into_time j (ns_RenewedAt n))
      else if equal_fold k ''rolled_back_at'' then map_ok (\<lambda>v. n\<lparr>ns_RolledBackAt := v\<rparr>) (into_time j (ns_RolledBackAt n))
      else if equal_fold k ''renewal_failed'' then map_ok (\<lambda>v. n\<lparr>ns_RenewalFailed := v\<rparr>) (into_bool j (ns_RenewalFailed n))
      else if equal_fold k ''rollback_failed'' then map_ok (\<lambda>v. n\<lparr>ns_RollbackFailed := v\<rparr>) (into_bool j (ns_RollbackFailed n))
      else Inr n)"

definition into_node :: "json \<Rightarrow> goerr + node_state" where
  "into_node j = (case j of
     JNull \<Rightarrow> Inr zero_node_state
   | JObj kvs \<Rightarrow> set_fields set_node_field kvs zero_node_state
   | _ \<Rightarrow> type_error j ''state.NodeState'')"

definition into_nodes :: "json \<Rightarrow> (string, node_state) fmap option \<Rightarrow> goerr + (string, node_state) fmap option" where
  "into_nodes j old = (case j of
     JNull \<Rightarrow> Inr None
   | JObj kvs \<Rightarrow>
       map_ok Some (set_fields (\<lambda>k v m. map_ok (\<lambda>n. fmupd k n m) (into_node v)) kvs (case old of None \<Rightarrow> fmempty | Some m \<Rightarrow> m))
   | _ \<Rightarrow> type_error j ''map[string]state.NodeState'')"

definition set_state_field :: "string \<Rightarrow> json \<Rightarrow> state \<Rightarrow> goerr + state" where
  "set_state_field k j s =
     (if equal_fold k ''phase'' then map_ok (\<lambda>v. s\<lparr>st_Phase := v\<rparr>) (into_string j (st_Phase s))
      else if equal_fold k ''started_at'' then map_ok (\<lambda>v. s\<lparr>st_StartedAt := v\<rparr>) (into_time j (st_StartedAt s))
      else if equal_fold k ''updated_at'' then map_ok (\<lambda>v. s\<lparr>st_UpdatedAt := v\<rparr>) (into_time j (st_UpdatedAt s))
      else if equal_fold k ''nodes'' then map_ok (\<lambda>v. s\<lparr>st_Nodes := v\<rparr>) (into_nodes j (st_Nodes s))
      else if equal_fold k ''failed_node'' then map_ok (\<lambda>v. s\<lparr>st_FailedNode := v\<rparr>) (into_string j (st_FailedNode s))
      else if equal_fold k ''failure_step'' then map_ok (\<lambda>v. s\<lparr>st_FailureStep := v\<rparr>) (into_string j (st_FailureStep s))
      else if equal_fold k ''critical'' then map_ok (\<lambda>v. s\<lparr>st_Critical := v\<rparr>) (into_bool j (st_Critical s))
      else Inr s)"

definition unmarshal_state :: "string \<Rightarrow> goerr + state" where
  "unmarshal_state data = (case decode data of
     None \<Rightarrow> Inl (ErrMsg ''invalid JSON'')
   | Some JNull \<Rightarrow> Inr zero_state
   | Some (JObj kvs) \<Rightarrow> set_fields set_state_field kvs zero_state
   | Some j \<Rightarrow> type_error j ''state.State'')"

section \<open>Load and Save\<close>

definition of_sum :: "goerr + 'a \<Rightarrow> 'a go" where
  "of_sum r = (case r of Inl e \<Rightarrow> fail e | Inr x \<Rightarrow> ret x)"

text \<open>\<^verbatim>\<open>time.Now()\<close> with its zone.\<close>

definition local_now :: "env \<Rightarrow> gotime go" where
  "local_now E = seqE (time_now E) (\<lambda>t. ret (t, env_zone E t))"

definition state_Load :: "env \<Rightarrow> string \<Rightarrow> state go" where
  "state_Load E path =
     bindE (os_ReadFile E path)
       (\<lambda>e. if is_not_exist e then ret state_New else fail e)
       (\<lambda>data. of_sum (unmarshal_state data))"

definition write_state :: "env \<Rightarrow> string \<Rightarrow> state \<Rightarrow> unit go" where
  "write_state E path s =
     seqE (of_sum (marshal_state s)) (\<lambda>j.
     seqE (os_MkdirAll E (filepath_Dir path) 448) (\<lambda>_.
     os_WriteFile E path (encode 0 j) 384))"

definition state_Save :: "env \<Rightarrow> string \<Rightarrow> state \<Rightarrow> (state \<times> goerr option) go" where
  "state_Save E path s =
     seqE (local_now E) (\<lambda>now.
       let s' = s\<lparr>st_UpdatedAt := now\<rparr> in
       bindE (write_state E path s') (\<lambda>e. ret (s', Some e)) (\<lambda>_. ret (s', None)))"

section \<open>Operations\<close>

definition SetPhase :: "env \<Rightarrow> phase \<Rightarrow> string \<Rightarrow> state \<Rightarrow> (state \<times> goerr option) go" where
  "SetPhase E p path s = state_Save E path (s\<lparr>st_Phase := p\<rparr>)"

text \<open>\<^verbatim>\<open>s.Nodes[node]\<close> (the zero value when it is not there) and \<^verbatim>\<open>s.Nodes[node] = ns\<close>.\<close>

definition node_of :: "state \<Rightarrow> string \<Rightarrow> node_state option" where
  "node_of s node = (case st_Nodes s of None \<Rightarrow> None | Some m \<Rightarrow> fmlookup m node)"

definition node_or_zero :: "state \<Rightarrow> string \<Rightarrow> node_state" where
  "node_or_zero s node = (case node_of s node of None \<Rightarrow> zero_node_state | Some n \<Rightarrow> n)"

definition put_node :: "string \<Rightarrow> node_state \<Rightarrow> state \<Rightarrow> state go" where
  "put_node node n s = (case st_Nodes s of
     None \<Rightarrow> panic ''assignment to entry in nil map''
   | Some m \<Rightarrow> ret (s\<lparr>st_Nodes := Some (fmupd node n m)\<rparr>))"

definition SetNodeBackup :: "env \<Rightarrow> string \<Rightarrow> string \<Rightarrow> string \<Rightarrow> state \<Rightarrow> (state \<times> goerr option) go" where
  "SetNodeBackup E node backupPath path s =
     seqE (put_node node ((node_or_zero s node)\<lparr>ns_Node := node, ns_BackupPath := backupPath\<rparr>) s) (state_Save E path)"

definition SetNodeRenewed :: "env \<Rightarrow> string \<Rightarrow> string \<Rightarrow> state \<Rightarrow> (state \<times> goerr option) go" where
  "SetNodeRenewed E node path s =
     seqE (local_now E) (\<lambda>now.
     seqE (put_node node ((node_or_zero s node)\<lparr>ns_RenewedAt := now\<rparr>) s) (state_Save E path))"

definition SetNodeRollback :: "env \<Rightarrow> string \<Rightarrow> bool \<Rightarrow> string \<Rightarrow> state \<Rightarrow> (state \<times> goerr option) go" where
  "SetNodeRollback E node failed path s =
     seqE (local_now E) (\<lambda>now.
     seqE (put_node node ((node_or_zero s node)\<lparr>ns_RolledBackAt := now, ns_RollbackFailed := failed\<rparr>) s) (\<lambda>s'.
     state_Save E path (if failed then s'\<lparr>st_Critical := True\<rparr> else s')))"

definition IsInProgress :: "state \<Rightarrow> bool" where
  "IsInProgress s \<longleftrightarrow> st_Phase s \<noteq> PhaseIdle"

definition state_Reset :: "env \<Rightarrow> string \<Rightarrow> state \<Rightarrow> (state \<times> goerr option) go" where
  "state_Reset E path s =
     state_Save E path (s\<lparr>st_Phase := PhaseIdle, st_Nodes := Some fmempty, st_FailedNode := '''',
       st_FailureStep := '''', st_Critical := False, st_StartedAt := zero_time\<rparr>)"

section \<open>The round trip through JSON\<close>

text \<open>
  The states whose text form says all there is: times that RFC 3339 can write, and ASCII strings (the
  model's encoder does not repair invalid UTF-8 as Go's does).
\<close>

definition ascii :: "string \<Rightarrow> bool" where
  "ascii s \<longleftrightarrow> list_all (\<lambda>c. of_char c < (128 :: nat)) s"

fun textual_node :: "node_state \<Rightarrow> bool" where
  "textual_node n \<longleftrightarrow> ascii (ns_Node n) \<and> ascii (ns_BackupPath n) \<and> textual_time (ns_RenewedAt n) \<and> textual_time (ns_RolledBackAt n)"

declare textual_node.simps [simp del]

definition textual_state :: "state \<Rightarrow> bool" where
  "textual_state s \<longleftrightarrow> ascii (st_Phase s) \<and> ascii (st_FailedNode s) \<and> ascii (st_FailureStep s) \<and>
     textual_time (st_StartedAt s) \<and> textual_time (st_UpdatedAt s) \<and>
     (case st_Nodes s of None \<Rightarrow> True | Some m \<Rightarrow> \<forall>k n. fmlookup m k = Some n \<longrightarrow> ascii k \<and> textual_node n)"

lemma into_time_parsed: "parse_time s = Some t \<Longrightarrow> into_time (JStr s) old = Inr t"
  by (simp add: into_time_def)

lemma marshal_node_ok:
  assumes "textual_node n"
  shows "\<exists>j. marshal_node n = Inr j \<and> textual j \<and> into_node j = Inr n"
proof -
  from assms obtain a b where "marshal_time (ns_RenewedAt n) = Inr a" "parse_time a = Some (ns_RenewedAt n)"
    "marshal_time (ns_RolledBackAt n) = Inr b" "parse_time b = Some (ns_RolledBackAt n)"
    by (meson marshal_textual textual_node.simps)
  then show ?thesis
    by (simp add: marshal_node_def into_node_def set_node_field_def field_names into_time_parsed)
qed

lemma marshal_entries_ok:
  assumes "\<And>k. k \<in> set ks \<Longrightarrow> \<exists>n. fmlookup m k = Some n \<and> textual_node n"
  shows "\<exists>kvs. marshal_entries m ks = Inr kvs \<and> textual (JObj kvs) \<and>
    (\<forall>acc. \<exists>r. set_fields (\<lambda>k v m. map_ok (\<lambda>n. fmupd k n m) (into_node v)) kvs acc = Inr r \<and>
      (\<forall>k. fmlookup r k = (if k \<in> set ks then fmlookup m k else fmlookup acc k)))"
  using assms
proof (induction ks)
  case (Cons k ks)
  from Cons.prems [of k] obtain n where n: "fmlookup m k = Some n" "textual_node n" by auto
  from marshal_node_ok [OF n(2)] obtain j where j: "marshal_node n = Inr j" "textual j" "into_node j = Inr n" by blast
  from Cons obtain kvs where kvs: "marshal_entries m ks = Inr kvs" "textual (JObj kvs)"
    and acc: "\<And>acc. \<exists>r. set_fields (\<lambda>k v m. map_ok (\<lambda>n. fmupd k n m) (into_node v)) kvs acc = Inr r \<and>
      (\<forall>k. fmlookup r k = (if k \<in> set ks then fmlookup m k else fmlookup acc k))" by (meson list.set_intros(2))
  have "\<exists>r. set_fields (\<lambda>k v m. map_ok (\<lambda>n. fmupd k n m) (into_node v)) kvs (fmupd k n a) = Inr r \<and>
      (\<forall>x. fmlookup r x = (if x \<in> set (k # ks) then fmlookup m x else fmlookup a x))" for a
    using acc [of "fmupd k n a"] n(1) by auto
  then show ?case using n(1) j kvs by simp
qed simp

lemma into_marshal_nodes:
  assumes "\<And>m k n. nodes = Some m \<Longrightarrow> fmlookup m k = Some n \<Longrightarrow> textual_node n"
  shows "\<exists>j. marshal_nodes nodes = Inr j \<and> textual j \<and> into_nodes j None = Inr nodes"
proof (cases nodes)
  case None
  then show ?thesis by (simp add: marshal_nodes_def into_nodes_def)
next
  case (Some m)
  have "\<And>k. k \<in> set (sorted_list_of_fset (fmdom m)) \<Longrightarrow> \<exists>n. fmlookup m k = Some n \<and> textual_node n"
    using assms [OF Some] by (simp add: fmlookup_dom_iff) blast
  from marshal_entries_ok [OF this] obtain kvs r where kvs: "marshal_entries m (sorted_list_of_fset (fmdom m)) = Inr kvs"
    "textual (JObj kvs)" and r: "set_fields (\<lambda>k v m. map_ok (\<lambda>n. fmupd k n m) (into_node v)) kvs fmempty = Inr r"
    and look: "\<And>k. fmlookup r k = (if k |\<in>| fmdom m then fmlookup m k else None)" by force
  have "r = m" by (rule fmap_ext) (simp add: look fmdom_notD)
  then show ?thesis using Some kvs r by (simp add: marshal_nodes_def into_nodes_def)
qed

lemma marshal_state_ok:
  assumes "textual_state s"
  shows "\<exists>j. marshal_state s = Inr j \<and> unmarshal_state (encode 0 j) = Inr s"
proof -
  from assms obtain a b where t: "marshal_time (st_StartedAt s) = Inr a" "parse_time a = Some (st_StartedAt s)"
    "marshal_time (st_UpdatedAt s) = Inr b" "parse_time b = Some (st_UpdatedAt s)"
    unfolding textual_state_def by (meson marshal_textual)
  have "textual_node n" if "st_Nodes s = Some m" "fmlookup m k = Some n" for m k n
    using assms that by (simp add: textual_state_def)
  then have "\<exists>j. marshal_nodes (st_Nodes s) = Inr j \<and> textual j \<and> into_nodes j None = Inr (st_Nodes s)"
    by (intro into_marshal_nodes)
  then obtain nodes where nodes: "marshal_nodes (st_Nodes s) = Inr nodes"
    "textual nodes" "into_nodes nodes None = Inr (st_Nodes s)" by blast
  let ?kvs = "[(''phase'', JStr (st_Phase s)), (''started_at'', JStr a), (''updated_at'', JStr b), (''nodes'', nodes)] @
    omit_empty ''failed_node'' (st_FailedNode s) @ omit_empty ''failure_step'' (st_FailureStep s) @
    [(''critical'', JBool (st_Critical s))]"
  have j: "marshal_state s = Inr (JObj ?kvs)" using t nodes by (simp add: marshal_state_def)
  have tx: "textual (JObj ?kvs)" using nodes(2) by (simp add: omit_empty_def)
  have "set_fields set_state_field ?kvs zero_state = Inr s"
    using t nodes(3) by (simp add: set_state_field_def field_names into_time_parsed zero_state_def omit_empty_def)
  then show ?thesis using j decode_encode [OF tx] by (simp add: unmarshal_state_def)
qed

section \<open>What a save keeps and a load gives back\<close>

lemma of_sum_run [simp, go_run]: "of_sum (Inr x) w = (Ok x, w)" "of_sum (Inl e) w = (Err e, w)"
  by (simp_all add: of_sum_def)

lemma of_sum_ok_iff [ok_iff]: "of_sum r w = (Ok x, w') \<longleftrightarrow> r = Inr x \<and> w' = w"
  by (cases r) auto

lemma local_now_run [go_run]:
  "local_now E w = (Ok (env_now E (w_tick w), env_zone E (env_now E (w_tick w))), w\<lparr>w_tick := Suc (w_tick w)\<rparr>)"
  by (simp add: local_now_def time_now_def seqE_run tick_def)

definition now_at :: "env \<Rightarrow> world \<Rightarrow> gotime" where
  "now_at E w = (env_now E (w_tick w), env_zone E (env_now E (w_tick w)))"

lemma Save_okD:
  assumes "state_Save E path s w = (Ok (s', e), w')"
  shows "s' = s\<lparr>st_UpdatedAt := now_at E w\<rparr>"
    and "e = None \<Longrightarrow> \<exists>j m. marshal_state s' = Inr j \<and> fs_get (w_fs w') (resolve path) = Some (Reg (encode 0 j) m)"
  using assms
  by (auto simp: state_Save_def write_state_def now_at_def Let_def local_now_run ok_iff dest: WriteFile_okD)

lemma Save_returns: "\<exists>e w'. state_Save E path s w = (Ok (s\<lparr>st_UpdatedAt := now_at E w\<rparr>, e), w')"
proof -
  have "returns (write_state E path s')" for s'
    unfolding write_state_def of_sum_def by (intro returns_intro)
  from this [of "s\<lparr>st_UpdatedAt := now_at E w\<rparr>"] show ?thesis
    by (rule returns_cases [where s = "w\<lparr>w_tick := Suc (w_tick w)\<rparr>"])
       (simp_all add: state_Save_def Let_def local_now_run bindE_run seqE_run now_at_def)
qed

text \<open>
  C12. \<^verbatim>\<open>Load\<close> after \<^verbatim>\<open>Save\<close>: a state whose times RFC 3339 can write, saved without an error, is read
  back exactly, with the time of the save as its \<^verbatim>\<open>UpdatedAt\<close>. The text on disk goes through the JSON
  encoder and decoder, the nil map and the omitted empty fields included.
\<close>

theorem Save_Load:
  assumes "state_Save E path s w = (Ok (s', None), w')" and "textual_state (s\<lparr>st_UpdatedAt := now_at E w\<rparr>)"
    and "no_faults E"
  shows "\<exists>w''. state_Load E path w' = (Ok (s\<lparr>st_UpdatedAt := now_at E w\<rparr>), w'')"
proof -
  let ?s = "s\<lparr>st_UpdatedAt := now_at E w\<rparr>"
  obtain j m where j: "marshal_state ?s = Inr j" "fs_get (w_fs w') (resolve path) = Some (Reg (encode 0 j) m)"
    using Save_okD [OF assms(1)] by auto
  have "unmarshal_state (encode 0 j) = Inr ?s" using marshal_state_ok [OF assms(2)] j(1) by auto
  then show ?thesis using ReadFile_nf [OF assms(3) j(2)] by (simp add: state_Load_def bindE_run)
qed

section \<open>The states that the operations reach\<close>

text \<open>One operation of the package, in some world, with or without an error from the save.\<close>

inductive state_step :: "env \<Rightarrow> string \<Rightarrow> state \<Rightarrow> state \<Rightarrow> bool" for E path where
  phase: "SetPhase E p path s w = (Ok (s', e), w') \<Longrightarrow> state_step E path s s'"
| backup: "SetNodeBackup E node b path s w = (Ok (s', e), w') \<Longrightarrow> state_step E path s s'"
| renewed: "SetNodeRenewed E node path s w = (Ok (s', e), w') \<Longrightarrow> state_step E path s s'"
| rollback: "SetNodeRollback E node failed path s w = (Ok (s', e), w') \<Longrightarrow> state_step E path s s'"

lemma put_node_ok_iff [ok_iff]:
  "put_node node n s w = (Ok s', w') \<longleftrightarrow> (\<exists>m. st_Nodes s = Some m \<and> s' = s\<lparr>st_Nodes := Some (fmupd node n m)\<rparr> \<and> w' = w)"
  by (auto simp: put_node_def split: option.split)

lemma SetNodeRollback_okD:
  assumes "SetNodeRollback E node failed path s w = (Ok (s', e), w')"
  shows "\<exists>m n. st_Nodes s = Some m \<and> st_Nodes s' = Some (fmupd node n m) \<and> ns_RollbackFailed n = failed \<and>
    ns_BackupPath n = ns_BackupPath (node_or_zero s node) \<and> (st_Critical s' \<longleftrightarrow> failed \<or> st_Critical s)"
  using assms
  by (auto simp: SetNodeRollback_def ok_iff local_now_run dest!: Save_okD(1)) (rule exI, rule conjI, rule refl, simp)+

lemma Save_runs:
  assumes "st_Nodes s \<noteq> None"
  shows "\<exists>s' e w'. state_Save E path s w = (Ok (s', e), w') \<and> st_Nodes s' \<noteq> None"
proof -
  obtain e w' where "state_Save E path s w = (Ok (s\<lparr>st_UpdatedAt := now_at E w\<rparr>, e), w')" using Save_returns by blast
  moreover have "st_Nodes (s\<lparr>st_UpdatedAt := now_at E w\<rparr>) \<noteq> None" using assms by simp
  ultimately show ?thesis by blast
qed

lemma SetNodeRollback_runs:
  assumes "st_Nodes s \<noteq> None"
  shows "\<exists>s' e w'. SetNodeRollback E node failed path s w = (Ok (s', e), w') \<and> st_Nodes s' \<noteq> None"
proof -
  obtain f where f: "st_Nodes s = Some f" using assms by blast
  show ?thesis unfolding SetNodeRollback_def seqE_run local_now_run put_node_def prod.case outcome.case f option.case ret_run
    by (rule Save_runs) simp
qed

text \<open>A failed rollback on record means that the state is critical.\<close>

definition failure_is_critical :: "state \<Rightarrow> bool" where
  "failure_is_critical s \<longleftrightarrow>
     (\<exists>m. st_Nodes s = Some m \<and> (\<forall>k n. fmlookup m k = Some n \<longrightarrow> ns_RollbackFailed n \<longrightarrow> st_Critical s))"

lemma node_or_zero_failed:
  "failure_is_critical s \<Longrightarrow> ns_RollbackFailed (node_or_zero s node) \<Longrightarrow> st_Critical s"
  by (auto simp: failure_is_critical_def node_or_zero_def node_of_def zero_node_state_def split: option.splits)

lemma state_step_kept:
  assumes "state_step E path s s'"
  shows "(st_Critical s \<longrightarrow> st_Critical s') \<and> (failure_is_critical s \<longrightarrow> failure_is_critical s')"
  using assms
proof cases
  case (phase p w e w')
  then show ?thesis by (auto simp: SetPhase_def failure_is_critical_def dest!: Save_okD(1))
next
  case (backup node b w e w')
  then show ?thesis using node_or_zero_failed [of s node]
    by (auto simp: SetNodeBackup_def ok_iff failure_is_critical_def dest!: Save_okD(1) split: if_splits)
next
  case (renewed node w e w')
  then show ?thesis using node_or_zero_failed [of s node]
    by (auto simp: SetNodeRenewed_def ok_iff failure_is_critical_def dest!: Save_okD(1) split: if_splits)
next
  case (rollback node failed w e w')
  then show ?thesis using SetNodeRollback_okD [OF rollback]
    by (auto simp: failure_is_critical_def split: if_splits)
qed

text \<open>
  C13. From a new state, whatever the operations and whether or not their saves succeed: once critical,
  the state stays critical until it is reset, and a node whose rollback failed is never on record in
  a state that is not critical.
\<close>

theorem critical_sticks:
  assumes "(state_step E path)\<^sup>*\<^sup>* state_New s" and "(state_step E path)\<^sup>*\<^sup>* s s'"
  shows "(st_Critical s \<longrightarrow> st_Critical s') \<and>
    (\<forall>node n. node_of s' node = Some n \<and> ns_RollbackFailed n \<longrightarrow> st_Critical s')"
proof -
  have new: "failure_is_critical state_New" by (simp add: failure_is_critical_def state_New_def)
  have keep: "(st_Critical a \<longrightarrow> st_Critical b) \<and> (failure_is_critical a \<longrightarrow> failure_is_critical b)"
    if "(state_step E path)\<^sup>*\<^sup>* a b" for a b
    using that by (induction rule: rtranclp_induct) (use state_step_kept in blast)+
  from keep [OF assms(1)] keep [OF assms(2)] new have "failure_is_critical s'" by blast
  then show ?thesis using keep [OF assms(2)] by (auto simp: failure_is_critical_def node_of_def)
qed

text \<open>The only way out of the critical state is a reset, and a reset gives back the new state.\<close>

lemma Reset_okD:
  assumes "state_Reset E path s w = (Ok (s', e), w')"
  shows "s' = state_New\<lparr>st_UpdatedAt := now_at E w\<rparr>"
  using Save_okD(1) [OF assms [unfolded state_Reset_def]] by (simp add: state_New_def zero_state_def)

lemma no_nodes_key:
  "set_state_field k j s = Inr s' \<Longrightarrow> \<not> equal_fold k ''nodes'' \<Longrightarrow> st_Nodes s = None \<Longrightarrow> st_Nodes s' = None"
  by (auto simp: set_state_field_def map_ok_def split: if_splits sum.splits)

text \<open>
  C38. A \<^verbatim>\<open>state.json\<close> without a \<^verbatim>\<open>nodes\<close> field loads without an error, and the state it gives has the
  nil map: the first attempt to record a backup, a renewal or a rollback panics, before anything is
  saved.
\<close>

theorem Load_nil_map_panics:
  assumes "fs_get (w_fs w) (resolve path) = Some (Reg data m)" and "decode data = Some (JObj kvs)"
    and "\<forall>(k, v)\<in>set kvs. \<not> equal_fold k ''nodes''" and "state_Load E path w = (Ok s, w')"
  shows "fst (SetNodeBackup E node b p s v) = Panic ''assignment to entry in nil map'' \<and>
    fst (SetNodeRenewed E node p s v) = Panic ''assignment to entry in nil map'' \<and>
    fst (SetNodeRollback E node failed p s v) = Panic ''assignment to entry in nil map''"
proof -
  have "is_not_exist e \<Longrightarrow> os_ReadFile E path w \<noteq> (Err e, u)" for e u
    using assms(1) by (auto simp: os_ReadFile_def syscall_def go_run tick_def get_fs_def split: option.splits)
  then obtain d u where d: "os_ReadFile E path w = (Ok d, u)" "unmarshal_state d = Inr s"
    using assms(4) by (auto simp: state_Load_def ok_iff split: if_splits)
  have "d = data" using ReadFile_okD(1) [OF d(1)] assms(1) by simp
  then have "set_fields set_state_field kvs zero_state = Inr s" using d(2) assms(2) by (simp add: unmarshal_state_def)
  then have "st_Nodes s = None"
    by (rule set_fields_kept) (use assms(3) no_nodes_key in \<open>auto simp: zero_state_def\<close>)
  then show ?thesis
    by (simp_all add: SetNodeBackup_def SetNodeRenewed_def SetNodeRollback_def put_node_def seqE_run local_now_run)
qed

end
