(* ===== verification/Rollback.thy ===== *)
theory Rollback
  imports State Backup Podrestart Healthcheck
begin

text \<open>
  \<^verbatim>\<open>pkg/rollback/rollback.go\<close>: restoring a node from its backup, restarting its pods and checking
  their health, for the failed node first and then the renewed ones in reverse order. The state is
  a pointer that may be nil: \<open>None\<close>, and using it panics.
\<close>

section \<open>The manager\<close>

record rollback_result =
  rr_Node :: string
  rr_Success :: bool
  rr_Error :: "goerr option"
  rr_RestoredAt :: gotime

record rollback_manager =
  rb_backupMgr :: backup_manager
  rb_restartMgr :: restart_manager
  rb_stateFile :: string
  rb_dryRun :: bool

definition rollback_New :: "backup_manager \<Rightarrow> restart_manager \<Rightarrow> string \<Rightarrow> bool \<Rightarrow> rollback_manager" where
  "rollback_New backupMgr restartMgr stateFile dry =
     \<lparr>rb_backupMgr = backupMgr, rb_restartMgr = restartMgr, rb_stateFile = stateFile, rb_dryRun = dry\<rparr>"

text \<open>\<^verbatim>\<open>reverse\<close>: two indices move towards each other and swap.\<close>

function reverse_loop :: "nat \<Rightarrow> int \<Rightarrow> 'a list \<Rightarrow> 'a list" where
  "reverse_loop i j cp =
     (if int i < j then reverse_loop (Suc i) (j - 1) (cp[i := cp ! nat j, nat j := cp ! i]) else cp)"
  by pat_completeness auto
termination by (relation "measure (\<lambda>(i, j, cp). nat (j - int i))") auto

declare reverse_loop.simps [simp del]

definition reverse_nodes :: "'a list \<Rightarrow> 'a list" where
  "reverse_nodes nodes = reverse_loop 0 (int (length nodes) - 1) nodes"

text \<open>The loop over \<^verbatim>\<open>nodesToRollback\<close> with its map \<^verbatim>\<open>seen\<close>.\<close>

fun dedup :: "string list \<Rightarrow> string list \<Rightarrow> string list \<Rightarrow> string list" where
  "dedup seen unique [] = unique"
| "dedup seen unique (n # ns) =
     (if n \<in> set seen then dedup seen unique ns else dedup (n # seen) (unique @ [n]) ns)"

definition nil_deref :: string where
  "nil_deref = ''runtime error: invalid memory address or nil pointer dereference''"

definition failed_result :: "string \<Rightarrow> goerr \<Rightarrow> rollback_result" where
  "failed_result node e = \<lparr>rr_Node = node, rr_Success = False, rr_Error = Some e, rr_RestoredAt = zero_time\<rparr>"

definition restored_result :: "env \<Rightarrow> string \<Rightarrow> rollback_result go" where
  "restored_result E node =
     seqE (local_now E) (\<lambda>now. ret \<lparr>rr_Node = node, rr_Success = True, rr_Error = None, rr_RestoredAt = now\<rparr>)"

definition rollbackNode :: "env \<Rightarrow> rollback_manager \<Rightarrow> string \<Rightarrow> state option \<Rightarrow> int \<Rightarrow> rollback_result go" where
  "rollbackNode E m node s healthTimeout = (case s of
     None \<Rightarrow> panic nil_deref
   | Some st \<Rightarrow>
      (case node_of st node of
         None \<Rightarrow> ret (failed_result node (ErrMsg (''no cert backup path found for node '' @ node @
             '' in state '' @ em_dash @ '' cannot restore without a backup'')))
       | Some ns \<Rightarrow>
         if ns_BackupPath ns = '''' then
           ret (failed_result node (ErrMsg (''no cert backup path found for node '' @ node @
             '' in state '' @ em_dash @ '' cannot restore without a backup'')))
         else if rb_dryRun m then restored_result E node
         else
           bindE (backup_Restore E (rb_backupMgr m) (ns_BackupPath ns))
             (\<lambda>e. ret (failed_result node (Wrapf (''restoring cert backup for node '' @ node) e))) (\<lambda>_.
           bindE (RestartAll E (rb_restartMgr m))
             (\<lambda>e. ret (failed_result node (Wrapf (''restarting pods during rollback for node '' @ node) e))) (\<lambda>_.
           bindE (CheckAllWithRetry E (healthcheck_New node healthTimeout (rb_dryRun m)) 10 (15 * ns_second))
             (\<lambda>e. ret (failed_result node (Wrapf (''health check failed after rollback for node '' @ node) e))) (\<lambda>_.
           restored_result E node)))))"

text \<open>
  One iteration: a failure to save the state is only logged, and the state in memory stays changed.
\<close>

definition rollback_step :: "env \<Rightarrow> rollback_manager \<Rightarrow> int \<Rightarrow> rollback_result list \<times> state option \<Rightarrow> string \<Rightarrow>
    (rollback_result list \<times> state option) go" where
  "rollback_step E m healthTimeout acc node = (case acc of (results, s) \<Rightarrow>
     seqE (rollbackNode E m node s healthTimeout) (\<lambda>result.
     case s of
       None \<Rightarrow> panic nil_deref
     | Some st \<Rightarrow>
         seqE (SetNodeRollback E node (rr_Error result \<noteq> None) (rb_stateFile m) st) (\<lambda>(st', _).
         ret (results @ [result], Some st'))))"

definition RollbackAll :: "env \<Rightarrow> rollback_manager \<Rightarrow> string list \<Rightarrow> string \<Rightarrow> state option \<Rightarrow> int \<Rightarrow>
    (rollback_result list \<times> state option) go" where
  "RollbackAll E m renewedNodes failedNode s healthTimeout =
     fold_go (rollback_step E m healthTimeout) ([], s) (dedup [] [] ([failedNode] @ reverse_nodes renewedNodes))"

definition IsCritical :: "rollback_result list \<Rightarrow> bool" where
  "IsCritical results \<longleftrightarrow> (\<exists>r\<in>set results. \<not> rr_Success r)"

definition lf :: string where "lf = [CHR 0x0A]"

definition summary_line :: "rollback_result \<Rightarrow> string" where
  "summary_line r =
     (if rr_Success r
      then ''  '' @ check_mark @ '' '' @ rr_Node r @ '' '' @ em_dash @ '' rolled back successfully at '' @
        (case rr_RestoredAt r of (t, off) \<Rightarrow> rfc3339 off t) @ lf
      else ''  '' @ ballot_x @ '' '' @ rr_Node r @ '' '' @ em_dash @ '' ROLLBACK FAILED: '' @
        (case rr_Error r of None \<Rightarrow> ''<nil>'' | Some e \<Rightarrow> err_text e) @ lf)"

definition rollback_Summary :: "rollback_result list \<Rightarrow> string \<Rightarrow> string \<Rightarrow> string" where
  "rollback_Summary results failedNode failureStep =
     ''Cert rotation failed on node '' @ failedNode @ '' at step: '' @ failureStep @ lf @ lf @
     ''Rollback results:'' @ lf @ concat (map summary_line results) @
     (if IsCritical results
      then lf @ ''CRITICAL: One or more nodes failed to roll back.'' @ lf @
        ''Manual intervention required immediately.'' @ lf @
        ''Check cert backup paths in /var/lib/cert-rotator/state.json'' @ lf
      else lf @ ''All nodes restored to previous certs successfully.'' @ lf @
        ''Please investigate the failed node before the next renewal attempt.'' @ lf)"

section \<open>The order of the nodes\<close>

lemma reverse_loop_spec:
  "i \<le> n \<Longrightarrow> j = int n - 1 - int i \<Longrightarrow> length xs = n \<Longrightarrow> length (reverse_loop i j xs) = n \<and>
     (\<forall>k<n. reverse_loop i j xs ! k = (if i \<le> k \<and> int k \<le> j then xs ! (n - 1 - k) else xs ! k))"
proof (induction i j xs rule: reverse_loop.induct)
  case (1 i j cp)
  show ?case
  proof (cases "int i < j")
    case True
    let ?cp = "cp[i := cp ! nat j, nat j := cp ! i]"
    have nj: "nat j = n - 1 - i" "i < n" "nat j < n" "i \<noteq> nat j" using 1(3) True by linarith+
    have IH: "length (reverse_loop (Suc i) (j - 1) ?cp) = n \<and>
      (\<forall>k<n. reverse_loop (Suc i) (j - 1) ?cp ! k = (if Suc i \<le> k \<and> int k \<le> j - 1 then ?cp ! (n - 1 - k) else ?cp ! k))"
      by (rule "1.IH" [OF True]) (use 1 True in auto)
    have "(if Suc i \<le> k \<and> int k \<le> j - 1 then ?cp ! (n - 1 - k) else ?cp ! k) =
      (if i \<le> k \<and> int k \<le> j then cp ! (n - 1 - k) else cp ! k)" if "k < n" for k
    proof -
      consider "k = i" | "k = nat j" | "Suc i \<le> k \<and> int k \<le> j - 1" | "k < i \<or> j < int k" using nj(2) by linarith
      then show ?thesis
      proof cases
        case 3
        then have "n - 1 - k \<noteq> i" "n - 1 - k \<noteq> nat j" using 1(3) that by linarith+
        then show ?thesis using 3 by simp
      next
        case 4
        then have "k \<noteq> i" "k \<noteq> nat j" using True by linarith+
        then show ?thesis using 4 by auto
      qed (use nj 1(3,4) True in \<open>auto simp: nth_list_update\<close>)
    qed
    then show ?thesis using IH True by (simp add: reverse_loop.simps [of i j cp])
  next
    case False
    have "cp ! (n - 1 - k) = cp ! k" if "i \<le> k" "int k \<le> j" for k
    proof -
      have "n - 1 - k = k" using False that 1(3) by linarith
      then show ?thesis by simp
    qed
    then show ?thesis using False 1(4) by (simp add: reverse_loop.simps [of i j cp])
  qed
qed

lemma reverse_nodes_rev: "reverse_nodes xs = rev xs"
proof (rule nth_equalityI)
  have spec: "length (reverse_nodes xs) = length xs \<and>
     (\<forall>k<length xs. reverse_nodes xs ! k = (if (0 :: nat) \<le> k \<and> int k \<le> int (length xs) - 1 then xs ! (length xs - 1 - k) else xs ! k))"
    unfolding reverse_nodes_def by (rule reverse_loop_spec) auto
  then show "length (reverse_nodes xs) = length (rev xs)" by simp
  show "reverse_nodes xs ! k = rev xs ! k" if "k < length (reverse_nodes xs)" for k
    using that spec by (auto simp: rev_nth Suc_le_eq)
qed

lemma dedup_set: "set (dedup seen u ns) = set u \<union> (set ns - set seen)"
  by (induction seen u ns rule: dedup.induct) auto

lemma dedup_distinct: "distinct u \<Longrightarrow> set u \<subseteq> set seen \<Longrightarrow> distinct (dedup seen u ns)"
  by (induction seen u ns rule: dedup.induct) auto

lemma dedup_append: "dedup seen u ns = u @ dedup seen [] ns"
proof (induction ns arbitrary: seen u)
  case (Cons n ns)
  show ?case
    by (metis (no_types) Cons.IH append.assoc append_Nil dedup.simps(2))
qed simp

text \<open>The nodes that \<^verbatim>\<open>RollbackAll\<close> visits.\<close>

lemma rollback_order:
  "dedup [] [] ([failedNode] @ reverse_nodes renewed) = failedNode # dedup [failedNode] [] (rev renewed)"
  using dedup_append [of "[failedNode]" "[failedNode]"] by (simp add: reverse_nodes_rev)

section \<open>The report and the state\<close>

lemma restored_ok_iff [ok_iff]:
  "restored_result E node w = (Ok r, w') \<longleftrightarrow>
     r = \<lparr>rr_Node = node, rr_Success = True, rr_Error = None, rr_RestoredAt = now_at E w\<rparr> \<and> w' = w\<lparr>w_tick := Suc (w_tick w)\<rparr>"
  by (auto simp: restored_result_def seqE_run local_now_run now_at_def)

lemma failed_result_simps [simp]: "rr_Node (failed_result node e) = node" "\<not> rr_Success (failed_result node e)"
  "rr_Error (failed_result node e) = Some e"
  by (simp_all add: failed_result_def)

lemma bindE_yields:
  assumes "bindE m h k w = (Ok r, w')" and "\<And>e s. h e s = (Ok r, w') \<Longrightarrow> P" and "\<And>x s. k x s = (Ok r, w') \<Longrightarrow> P"
  shows P
  using assms by (auto simp: bindE_run split: prod.splits outcome.splits)

lemma rollbackNode_result:
  assumes "rollbackNode E m node s t w = (Ok r, w')"
  shows "rr_Node r = node \<and> (rr_Success r \<longleftrightarrow> rr_Error r = None)"
proof (cases s)
  case None
  then show ?thesis using assms by (simp add: rollbackNode_def panic_run)
next
  case (Some st)
  show ?thesis using assms unfolding rollbackNode_def Some option.case
    by (auto simp: restored_ok_iff ret_ok_iff split: option.splits if_splits elim!: bindE_yields)
qed

definition recorded :: "state \<Rightarrow> rollback_result \<Rightarrow> bool" where
  "recorded st r \<longleftrightarrow> (rr_Success r \<longleftrightarrow> rr_Error r = None) \<and>
     (\<exists>n. node_of st (rr_Node r) = Some n \<and> ns_RollbackFailed n = (\<not> rr_Success r))"

lemma rollback_step_okD:
  assumes "rollback_step E m t (results, Some st) node w = (Ok (results', s'), w')"
  shows "\<exists>r st'. results' = results @ [r] \<and> s' = Some st' \<and> rr_Node r = node \<and> recorded st' r \<and>
    (st_Critical st' \<longleftrightarrow> \<not> rr_Success r \<or> st_Critical st) \<and> (\<forall>k. k \<noteq> node \<longrightarrow> node_of st' k = node_of st k)"
proof -
  from assms obtain r w1 st' e where r: "rollbackNode E m node (Some st) t w = (Ok r, w1)"
    and s: "SetNodeRollback E node (rr_Error r \<noteq> None) (rb_stateFile m) st w1 = (Ok (st', e), w')"
    and out: "results' = results @ [r]" "s' = Some st'" by (auto simp: rollback_step_def ok_iff)
  from SetNodeRollback_okD [OF s] obtain f n where n: "st_Nodes st = Some f" "st_Nodes st' = Some (fmupd node n f)"
    "ns_RollbackFailed n = (rr_Error r \<noteq> None)" "st_Critical st' \<longleftrightarrow> rr_Error r \<noteq> None \<or> st_Critical st" by blast
  then show ?thesis using rollbackNode_result [OF r] out
    by (intro exI [of _ r] exI [of _ st']) (auto simp: recorded_def node_of_def)
qed

section \<open>Rolling back always ends with a report\<close>

definition never_null :: "env \<Rightarrow> bool" where
  "never_null E \<longleftrightarrow> (\<forall>y. env_yaml_to_json E y \<noteq> Inr JNull)"

lemma returns_Restore: "returns (backup_Restore E m bp)"
  unfolding backup_Restore_def copy_or_skip_def copyFile_def by (intro returns_intro)

lemma returns_retry_loop: "returns (retry_loop n E c k i a)"
proof (induction n arbitrary: a)
  case (Suc n)
  have "returns (CheckAll E c)" unfolding CheckAll_def Check_def tcpProbe_def httpProbe_def by (intro returns_intro)
  then show ?case using Suc unfolding retry_loop.simps by (intro returns_intro)
qed (simp add: returns_ret)

lemma returns_RestartAll:
  assumes "restart_dryRun m \<or> never_null E" shows "returns (RestartAll E m)"
proof -
  have find: "returns (find_manifest E m name)" for name unfolding find_manifest_def by (intro returns_intro)
  have "returns (injectRestartAnnotation E data)" if live: "\<not> restart_dryRun m" for data
  proof (cases "env_yaml_to_json E data")
    case (Inr j)
    have "j \<noteq> JNull" using assms live Inr by (auto simp: never_null_def)
    then show ?thesis unfolding injectRestartAnnotation_def Inr sum.case by (cases j) (simp_all add: returns_intro)
  qed (simp add: injectRestartAnnotation_def returns_intro)
  then show ?thesis unfolding RestartAll_def restart_and_wait_def Restart_def
    by (intro returns_intro find) blast+
qed

lemma total_rollbackNode:
  assumes "rb_dryRun m \<or> restart_dryRun (rb_restartMgr m) \<or> never_null E"
  shows "total_run (rollbackNode E m node (Some s) t)"
proof -
  have now: "total_run (restored_result E node)" by (simp add: total_run_def restored_result_def seqE_run local_now_run ret_run)
  have "returns (CheckAllWithRetry E c n i)" for c n i
    unfolding CheckAllWithRetry_def by (intro returns_intro returns_retry_loop)
  then show ?thesis using assms unfolding rollbackNode_def option.case
    by (intro total_option total_if total_bindE total_ret returns_Restore returns_RestartAll now) simp_all
qed

lemma rollback_step_runs:
  assumes "rb_dryRun m \<or> restart_dryRun (rb_restartMgr m) \<or> never_null E" and "st_Nodes st \<noteq> None"
  shows "\<exists>rs' st' w'. rollback_step E m t (rs, Some st) node w = (Ok (rs', Some st'), w') \<and> st_Nodes st' \<noteq> None"
proof -
  have "\<exists>r w1. rollbackNode E m node (Some st) t w = (Ok r, w1)" by (rule total_runD [OF total_rollbackNode [OF assms(1)]])
  then obtain r w1 where r: "rollbackNode E m node (Some st) t w = (Ok r, w1)" by blast
  obtain st' e w2 where "SetNodeRollback E node (rr_Error r \<noteq> None) (rb_stateFile m) st w1 = (Ok (st', e), w2)" "st_Nodes st' \<noteq> None"
    using SetNodeRollback_runs [OF assms(2)] by blast
  then show ?thesis using r by (simp add: rollback_step_def seqE_run)
qed

lemma rollback_loop_runs:
  assumes "rb_dryRun m \<or> restart_dryRun (rb_restartMgr m) \<or> never_null E" and "st_Nodes st \<noteq> None"
  shows "\<exists>rs' st' w'. fold_go (rollback_step E m t) (rs, Some st) nodes w = (Ok (rs', Some st'), w')"
  using assms(2)
proof (induction nodes arbitrary: rs st w)
  case (Cons node nodes)
  from rollback_step_runs [OF assms(1) Cons.prems] obtain rs1 st1 w1 where
    "rollback_step E m t (rs, Some st) node w = (Ok (rs1, Some st1), w1)" "st_Nodes st1 \<noteq> None" by blast
  then show ?case using Cons.IH by (simp add: seqE_run)
qed (simp add: ret_run)

lemma RollbackAll_okD:
  assumes "RollbackAll E m renewed failed (Some s) t w = (Ok (results, Some st), w')"
  shows "map rr_Node results = failed # dedup [failed] [] (rev renewed) \<and> distinct (map rr_Node results) \<and>
    set (map rr_Node results) = insert failed (set renewed) \<and>
    list_all (recorded st) results \<and> (st_Critical st \<longleftrightarrow> st_Critical s \<or> IsCritical results)"
proof -
  let ?nodes = "dedup [] [] ([failed] @ reverse_nodes renewed)"
  let ?P = "\<lambda>ys acc w. map rr_Node (fst acc) = ys \<and>
    (\<exists>st. snd acc = Some st \<and> list_all (recorded st) (fst acc) \<and> (st_Critical st \<longleftrightarrow> st_Critical s \<or> IsCritical (fst acc)))"
  have d: "distinct ?nodes" by (rule dedup_distinct) simp_all
  have "?P ?nodes (results, Some st) w'"
  proof (rule fold_go_okD [where P = ?P, OF assms [unfolded RollbackAll_def]])
    fix ys x zs a v a' v' assume xs: "?nodes = ys @ x # zs" and P: "?P ys a v"
      and step: "rollback_step E m t a x v = (Ok a', v')"
    obtain rs st where a: "a = (rs, Some st)" "map rr_Node rs = ys" "list_all (recorded st) rs"
      "st_Critical st \<longleftrightarrow> st_Critical s \<or> IsCritical rs" using P by (cases a) auto
    obtain rs' so where a': "a' = (rs', so)" by fastforce
    from rollback_step_okD [OF step [unfolded a(1) a']] obtain r st' where r: "rs' = rs @ [r]" "so = Some st'"
      "rr_Node r = x" "recorded st' r" "st_Critical st' \<longleftrightarrow> \<not> rr_Success r \<or> st_Critical st"
      "\<And>k. k \<noteq> x \<Longrightarrow> node_of st' k = node_of st k" by blast
    have "x \<notin> set ys" using d xs by simp
    then have "rr_Node q \<noteq> x" if "q \<in> set rs" for q using a(2) that by auto
    then have "list_all (recorded st') rs" using a(3) r(6) by (auto simp: list_all_iff recorded_def)
    then show "?P (ys @ [x]) a' v'" using a r a' by (auto simp: IsCritical_def)
  qed (simp add: IsCritical_def)
  moreover have "set ?nodes = insert failed (set renewed)" by (simp add: dedup_set reverse_nodes_rev)
  ultimately show ?thesis using d rollback_order [of failed renewed] by simp
qed


text \<open>
  With a nil state, which is what the reconciler passes, \<^verbatim>\<open>RollbackAll\<close> panics on the first node,
  whatever the backup: nothing is restored and nothing else happens.
\<close>

theorem rollback_nil_state_panics:
  "RollbackAll E m renewed failed None t w = (Panic nil_deref, w)"
  unfolding RollbackAll_def rollback_order by (simp add: rollback_step_def rollbackNode_def seqE_run)

section \<open>A node that was rolled back\<close>

definition manifest_files :: "restart_manager \<Rightarrow> fpath set" where
  "manifest_files m = (\<Union>name\<in>set restartOrder. resolve ` manifest_paths m name)"

lemma RestartAll_touches: "keeps (touches (manifest_files m)) (RestartAll E m)"
proof -
  have "keeps (touches (manifest_files m)) (Restart E m name)" if name: "name \<in> set restartOrder" for name
  proof
    fix s
    obtain q s1 where p: "plan_restart E m name s = (q, s1)" by (cases "plan_restart E m name s")
    have t: "touches (manifest_files m) s s1" using keepsD [OF touch_frame.keeps_plan_restart p] .
    have w: "touches (manifest_files m) s1 (snd (os_WriteFile E path out mode s1))"
      if "q = Ok (Some (path, out, mode))" for path out mode
    proof -
      have "path \<in> manifest_paths m name" using plan_restart_okD(1) p that by blast
      then have "resolve path \<in> manifest_files m" using name by (auto simp: manifest_files_def)
      then show ?thesis using WriteFile_touches by (simp add: keeps_def)
    qed
    then show "touches (manifest_files m) s (snd (Restart E m name s))"
      using p t touch_frame.kept_trans [OF t]
      by (auto simp: Restart_plan seqE_run wrapE_run split: outcome.splits option.splits prod.splits)
  qed
  then show ?thesis unfolding RestartAll_def restart_and_wait_def
    by (intro touch_frame.keeps_for_each touch_frame.keeps_seqE touch_frame.keeps_wrapE)
       (auto intro!: touch_frame.keeps_ret sleep_touches)
qed

lemma retry_keeps_fs: "keeps (changes_only {}) (CheckAllWithRetry E c n i)"
  by (rule fs_frame.keeps_CheckAllWithRetry [OF emit_keeps_fs emit_keeps_fs sleep_keeps_fs])

text \<open>
  C11. What a successful rollback of a node means (not in a dry run): every PKI and kubeconfig file of
  which the backup holds a copy has the content of that copy again, the restart of the pods did not
  touch it, and in the round of checks that ended the rollback every control plane component
  accepted the connection and answered 200.
\<close>

theorem rollback_restores:
  assumes "rollbackNode E m node (Some s) t w = (Ok r, w')" and "rr_Success r" and "\<not> rb_dryRun m"
    and "node_of s node = Some ns" and "separate (rb_backupMgr m) (ns_BackupPath ns)"
    and "is_dir (fs_get (w_fs w) (resolve (bm_kubeconfigDir (rb_backupMgr m))))"
    and "source_paths (rb_backupMgr m) \<inter> manifest_files (rb_restartMgr m) = {}"
  shows "(\<forall>rel\<in>set pkiFiles. \<forall>d md. fs_get (w_fs w) (pki_copy (ns_BackupPath ns) rel) = Some (Reg d md) \<longrightarrow>
        (\<exists>md'. fs_get (w_fs w') (pki_path (bm_pkiDir (rb_backupMgr m)) rel) = Some (Reg d md'))) \<and>
    (\<forall>f\<in>set kubeconfigFiles. \<forall>d md. fs_get (w_fs w) (kube_copy (ns_BackupPath ns) f) = Some (Reg d md) \<longrightarrow>
        (\<exists>md'. fs_get (w_fs w') (pki_path (bm_kubeconfigDir (rb_backupMgr m)) f) = Some (Reg d md'))) \<and>
    (\<exists>tm. all_healthy E (healthcheck_New node t False) tm)"
proof -
  let ?c = "healthcheck_New node t False" and ?bm = "rb_backupMgr m"
  have "ns_BackupPath ns \<noteq> ''''" using assms(1,2,4) by (auto simp: rollbackNode_def ok_iff)
  then obtain w1 w2 w3 where restore: "backup_Restore E ?bm (ns_BackupPath ns) w = (Ok (), w1)"
    and restart: "RestartAll E (rb_restartMgr m) w1 = (Ok (), w2)"
    and check: "CheckAllWithRetry E ?c 10 (15 * ns_second) w2 = (Ok (), w3)" and w': "w_fs w' = w_fs w3"
    using assms(1-4) by (auto simp: rollbackNode_def ok_iff)
  have fin: "\<exists>md'. fs_get (w_fs w') p = Some (Reg d md')"
    if "p \<in> source_paths ?bm" "fs_get (w_fs w1) p = Some (Reg d md)" for p d md
  proof -
    have "p \<notin> manifest_files (rb_restartMgr m)" using assms(7) that(1) by blast
    then have "fs_get (w_fs w2) p = Some (Reg d md)"
      using touches_keeps [OF keepsD [OF RestartAll_touches restart] _ that(2)] by blast
    then show ?thesis using changes_onlyD [OF keepsD [OF retry_keeps_fs check], of p] w' by simp
  qed
  have "\<exists>tm. all_healthy E ?c tm"
  proof -
    have "retry_loop 10 E ?c 10 (15 * ns_second) 1 w2 = (Ok (), w3)"
      using check by (simp add: CheckAllWithRetry_def healthcheck_New_def)
    from retry_loop_result [OF this] show ?thesis by auto
  qed
  moreover have "\<exists>md'. fs_get (w_fs w') (pki_path (bm_pkiDir ?bm) rel) = Some (Reg d md')"
    if "rel \<in> set pkiFiles" "fs_get (w_fs w) (pki_copy (ns_BackupPath ns) rel) = Some (Reg d md)" for rel d md
  proof -
    have "pki_path (bm_pkiDir ?bm) rel \<in> source_paths ?bm" using that(1) by (simp add: source_paths_def)
    with Restore_okD(1) [OF restore assms(5,6) that] show ?thesis using fin by blast
  qed
  moreover have "\<exists>md'. fs_get (w_fs w') (pki_path (bm_kubeconfigDir ?bm) f) = Some (Reg d md')"
    if "f \<in> set kubeconfigFiles" "fs_get (w_fs w) (kube_copy (ns_BackupPath ns) f) = Some (Reg d md)" for f d md
  proof -
    have "pki_path (bm_kubeconfigDir ?bm) f \<in> source_paths ?bm" using that(1) by (simp add: source_paths_def)
    with Restore_okD(2) [OF restore assms(5,6) that] show ?thesis using fin by blast
  qed
  ultimately show ?thesis by blast
qed

end
