(* ===== verification/Notifier.thy ===== *)
theory Notifier
  imports World_Lemmas Go_Time
begin

text \<open>
  \<^verbatim>\<open>pkg/notifier/notifier.go\<close>: telling people by e-mail and Slack. Sending a mail is the event \<open>EvMail\<close>
  (server, credentials, sender, recipients, message) and posting to the webhook is \<open>EvHttpPost\<close>; what
  the servers answer is the environment's.
\<close>

datatype event_type =
    EventRenewalSuccess
  | EventRenewalFailure
  | EventRollbackSuccess
  | EventRollbackFailure
  | EventCertExpiring
  | EventCertExpired
  | EventCritical
  | EventOther string

fun event_type_string :: "event_type \<Rightarrow> string" where
  "event_type_string EventRenewalSuccess = ''RENEWAL_SUCCESS''"
| "event_type_string EventRenewalFailure = ''RENEWAL_FAILURE''"
| "event_type_string EventRollbackSuccess = ''ROLLBACK_SUCCESS''"
| "event_type_string EventRollbackFailure = ''ROLLBACK_FAILURE''"
| "event_type_string EventCertExpiring = ''CERT_EXPIRING''"
| "event_type_string EventCertExpired = ''CERT_EXPIRED''"
| "event_type_string EventCritical = ''CRITICAL''"
| "event_type_string (EventOther s) = s"

text \<open>The time of an event is in UTC: both senders set it with \<^verbatim>\<open>time.Now().UTC()\<close>.\<close>

record notification =
  nt_Type :: event_type
  nt_Node :: string
  nt_Timestamp :: int
  nt_Message :: string
  nt_Details :: string

record smtp_config =
  smtp_Enabled :: bool
  smtp_Host :: string
  smtp_Port :: int
  smtp_From :: string
  smtp_To :: "string list"
  smtp_Username :: string
  smtp_Password :: string

record slack_config =
  slack_Enabled :: bool
  slack_WebhookURL :: string

record notifier =
  n_smtp :: smtp_config
  n_slack :: slack_config

definition notifier_New :: "smtp_config \<Rightarrow> slack_config \<Rightarrow> notifier" where
  "notifier_New smtp slack = \<lparr>n_smtp = smtp, n_slack = slack\<rparr>"

section \<open>Texts\<close>

fun strings_Join :: "string list \<Rightarrow> string \<Rightarrow> string" where
  "strings_Join [] sep = ''''"
| "strings_Join [x] sep = x"
| "strings_Join (x # y # ys) sep = x @ sep @ strings_Join (y # ys) sep"

definition formatSubject :: "notification \<Rightarrow> string" where
  "formatSubject ev = (case nt_Type ev of
     EventCritical \<Rightarrow> ''[CRITICAL] cert-rotator: rollback failed on '' @ nt_Node ev @ '' '' @ em_dash @ '' manual intervention required''
   | EventRenewalFailure \<Rightarrow> ''[FAILURE] cert-rotator: renewal failed on '' @ nt_Node ev
   | EventRollbackSuccess \<Rightarrow> ''[ROLLBACK] cert-rotator: all nodes restored after failure on '' @ nt_Node ev
   | EventRollbackFailure \<Rightarrow> ''[CRITICAL] cert-rotator: rollback failed on '' @ nt_Node ev @ '' '' @ em_dash @ '' manual intervention required''
   | EventRenewalSuccess \<Rightarrow> ''[SUCCESS] cert-rotator: control plane certs renewed successfully''
   | EventCertExpiring \<Rightarrow> ''[WARNING] cert-rotator: control plane certs expiring soon on '' @ nt_Node ev
   | EventCertExpired \<Rightarrow> ''[URGENT] cert-rotator: control plane certs already expired on '' @ nt_Node ev @ '' '' @ em_dash @ '' immediate renewal triggered''
   | EventOther s \<Rightarrow> ''[INFO] cert-rotator: '' @ s)"

definition nl :: string where "nl = [CHR 0x0A]"

definition crlf :: string where "crlf = [CHR 0x0D, CHR 0x0A]"

definition formatBody :: "notification \<Rightarrow> string" where
  "formatBody ev =
     ''Event:     '' @ event_type_string (nt_Type ev) @ nl @
     ''Node:      '' @ nt_Node ev @ nl @
     ''Timestamp: '' @ rfc3339_utc (nt_Timestamp ev) @ nl @
     ''Message:   '' @ nt_Message ev @ nl @
     (if nt_Details ev \<noteq> '''' then nl @ ''--- Details ---'' @ nl @ nt_Details ev else '''') @
     nl @ nl @ ''-- cert-rotator''"

fun slackColor :: "event_type \<Rightarrow> string" where
  "slackColor EventRenewalSuccess = ''good''"
| "slackColor EventRollbackSuccess = ''good''"
| "slackColor EventCertExpiring = ''warning''"
| "slackColor EventRenewalFailure = ''danger''"
| "slackColor EventRollbackFailure = ''danger''"
| "slackColor EventCritical = ''danger''"
| "slackColor EventCertExpired = ''danger''"
| "slackColor (EventOther _) = ''#439FE0''"

fun slackIcon :: "event_type \<Rightarrow> string" where
  "slackIcon EventRenewalSuccess = '':white_check_mark:''"
| "slackIcon EventRollbackSuccess = '':arrows_counterclockwise:''"
| "slackIcon EventCertExpiring = '':warning:''"
| "slackIcon EventCritical = '':rotating_light:''"
| "slackIcon EventRollbackFailure = '':rotating_light:''"
| "slackIcon EventRenewalFailure = '':x:''"
| "slackIcon EventCertExpired = '':skull:''"
| "slackIcon (EventOther _) = '':information_source:''"

definition formatSlackMessage :: "notification \<Rightarrow> string" where
  "formatSlackMessage ev =
     slackIcon (nt_Type ev) @ '' *cert-rotator* | `'' @ event_type_string (nt_Type ev) @ ''` | Node: `'' @
     nt_Node ev @ ''`'' @ nl @ nt_Message ev"

section \<open>Sending\<close>

definition smtp_message :: "notifier \<Rightarrow> notification \<Rightarrow> string" where
  "smtp_message n ev =
     ''From: '' @ smtp_From (n_smtp n) @ crlf @ ''To: '' @ strings_Join (smtp_To (n_smtp n)) '', '' @ crlf @
     ''Subject: '' @ formatSubject ev @ crlf @ ''Content-Type: text/plain; charset=UTF-8'' @ crlf @ crlf @ formatBody ev"

definition smtp_auth :: "notifier \<Rightarrow> (string \<times> string) option" where
  "smtp_auth n =
     (if smtp_Username (n_smtp n) \<noteq> '''' \<and> smtp_Password (n_smtp n) \<noteq> ''''
      then Some (smtp_Username (n_smtp n), smtp_Password (n_smtp n)) else None)"

definition smtp_addr :: "notifier \<Rightarrow> string" where
  "smtp_addr n = smtp_Host (n_smtp n) @ '':'' @ dec_int (smtp_Port (n_smtp n))"

definition mail_event :: "notifier \<Rightarrow> notification \<Rightarrow> event" where
  "mail_event n ev = EvMail (smtp_addr n) (smtp_auth n) (smtp_From (n_smtp n)) (smtp_To (n_smtp n)) (smtp_message n ev)"

definition sendSMTP :: "env \<Rightarrow> notifier \<Rightarrow> notification \<Rightarrow> unit go" where
  "sendSMTP E n ev =
     (if smtp_Host (n_smtp n) = '''' \<or> smtp_To (n_smtp n) = []
      then fail (ErrMsg ''SMTP not configured: missing host or recipients'')
      else
        seqE (emit (mail_event n ev)) (\<lambda>_. seqE tick (\<lambda>t.
        case env_mail E t (smtp_addr n) of
          Some e \<Rightarrow> fail (Wrapf ''sending email'' e)
        | None \<Rightarrow> ret ())))"

text \<open>The payload of the webhook; \<^verbatim>\<open>json.Marshal\<close> sorts the keys of a map.\<close>

definition slack_payload :: "notification \<Rightarrow> json" where
  "slack_payload ev = JObj
     [(''attachments'', JArr [JObj
        [(''color'', JStr (slackColor (nt_Type ev))),
         (''footer'', JStr (''cert-rotator | '' @ rfc3339_utc (nt_Timestamp ev))),
         (''text'', JStr (nt_Details ev))]]),
      (''text'', JStr (formatSlackMessage ev))]"

definition sendSlack :: "env \<Rightarrow> notifier \<Rightarrow> notification \<Rightarrow> unit go" where
  "sendSlack E n ev =
     (if slack_WebhookURL (n_slack n) = '''' then fail (ErrMsg ''Slack webhook URL not configured'')
      else
        seqE (emit (EvHttpPost (slack_WebhookURL (n_slack n)) (slack_payload ev))) (\<lambda>_. seqE tick (\<lambda>t.
        case env_http_post E t (slack_WebhookURL (n_slack n)) (slack_payload ev) of
          Inl e \<Rightarrow> fail (Wrapf ''sending slack webhook'' e)
        | Inr status \<Rightarrow>
            if status \<noteq> 200 then fail (ErrMsg (''slack webhook returned HTTP '' @ dec_int status)) else ret ())))"

definition error_line :: "string \<Rightarrow> goerr + unit \<Rightarrow> string list" where
  "error_line channel r = (case r of Inl e \<Rightarrow> [channel @ '': '' @ err_text e] | Inr _ \<Rightarrow> [])"

definition Notify :: "env \<Rightarrow> notifier \<Rightarrow> notification \<Rightarrow> unit go" where
  "Notify E n event =
     seqE (time_now E) (\<lambda>now.
     let ev = event\<lparr>nt_Timestamp := now\<rparr> in
     seqE (if smtp_Enabled (n_smtp n) then catchE (sendSMTP E n ev) else ret (Inr ())) (\<lambda>r1.
     seqE (if slack_Enabled (n_slack n) then catchE (sendSlack E n ev) else ret (Inr ())) (\<lambda>r2.
     let errs = error_line ''SMTP'' r1 @ error_line ''Slack'' r2 in
     if errs \<noteq> [] then fail (ErrMsg (''notification errors: '' @ strings_Join errs ''; '')) else ret ())))"

text \<open>A critical event goes out on both channels, enabled or not; errors are only logged.\<close>

definition NotifyCritical :: "env \<Rightarrow> notifier \<Rightarrow> notification \<Rightarrow> unit go" where
  "NotifyCritical E n event =
     seqE (time_now E) (\<lambda>now.
     let ev = event\<lparr>nt_Type := EventCritical, nt_Timestamp := now\<rparr> in
     seqE (catchE (sendSMTP E n ev)) (\<lambda>_.
     seqE (catchE (sendSlack E n ev)) (\<lambda>_. ret ())))"

section \<open>What is sent, and to whom\<close>

definition configured :: "notifier \<Rightarrow> bool" where
  "configured n \<longleftrightarrow> smtp_Host (n_smtp n) \<noteq> '''' \<and> smtp_To (n_smtp n) \<noteq> [] \<and> slack_WebhookURL (n_slack n) \<noteq> ''''"

definition post_event :: "notifier \<Rightarrow> notification \<Rightarrow> event" where
  "post_event n ev = EvHttpPost (slack_WebhookURL (n_slack n)) (slack_payload ev)"

definition mail_ok :: "env \<Rightarrow> notifier \<Rightarrow> nat \<Rightarrow> bool" where
  "mail_ok E n t \<longleftrightarrow> env_mail E t (smtp_addr n) = None"

definition post_ok :: "env \<Rightarrow> notifier \<Rightarrow> nat \<Rightarrow> notification \<Rightarrow> bool" where
  "post_ok E n t ev \<longleftrightarrow> env_http_post E t (slack_WebhookURL (n_slack n)) (slack_payload ev) = Inr 200"

lemma sendSMTP_run:
  assumes "configured n"
  shows "\<exists>r. sendSMTP E n ev w = (r, w\<lparr>w_tick := Suc (w_tick w), w_trace := w_trace w @ [mail_event n ev]\<rparr>) \<and>
    (if mail_ok E n (w_tick w) then r = Ok () else \<exists>e. r = Err e)"
  using assms by (auto simp: sendSMTP_def configured_def mail_ok_def seqE_run emit_def tick_def split: option.splits)

lemma sendSlack_run:
  assumes "configured n"
  shows "\<exists>r. sendSlack E n ev w = (r, w\<lparr>w_tick := Suc (w_tick w), w_trace := w_trace w @ [post_event n ev]\<rparr>) \<and>
    (if post_ok E n (w_tick w) ev then r = Ok () else \<exists>e. r = Err e)"
  using assms by (auto simp: sendSlack_def configured_def post_ok_def post_event_def seqE_run emit_def tick_def split: sum.splits)

text \<open>
  C30. On a notifier whose channels are configured, \<^verbatim>\<open>Notify\<close> sends one message on each enabled
  channel, Slack also when the mail failed, with the time of the call, and returns nil exactly if
  every server it wrote to accepted.
\<close>

theorem Notify_channels:
  assumes "configured n"
  shows "\<exists>r w'. Notify E n event w = (r, w') \<and>
    (let ev = event\<lparr>nt_Timestamp := env_now E (w_tick w)\<rparr>;
         t = Suc (w_tick w);
         t' = (if smtp_Enabled (n_smtp n) then Suc t else t) in
     w_trace w' = w_trace w @ (if smtp_Enabled (n_smtp n) then [mail_event n ev] else []) @
       (if slack_Enabled (n_slack n) then [post_event n ev] else []) \<and>
     ((\<exists>e. r = Err e) \<or> r = Ok ()) \<and>
     (r = Ok () \<longleftrightarrow> (smtp_Enabled (n_smtp n) \<longrightarrow> mail_ok E n t) \<and> (slack_Enabled (n_slack n) \<longrightarrow> post_ok E n t' ev)))"
proof -
  let ?ev = "event\<lparr>nt_Timestamp := env_now E (w_tick w)\<rparr>"
  let ?w1 = "w\<lparr>w_tick := Suc (w_tick w)\<rparr>"
  obtain r1 where r1: "sendSMTP E n ?ev ?w1 = (r1, ?w1\<lparr>w_tick := Suc (w_tick ?w1), w_trace := w_trace ?w1 @ [mail_event n ?ev]\<rparr>)"
    "if mail_ok E n (w_tick ?w1) then r1 = Ok () else \<exists>e. r1 = Err e" using sendSMTP_run [OF assms] by blast
  let ?w2 = "if smtp_Enabled (n_smtp n) then ?w1\<lparr>w_tick := Suc (w_tick ?w1), w_trace := w_trace ?w1 @ [mail_event n ?ev]\<rparr> else ?w1"
  obtain r2 where r2: "sendSlack E n ?ev ?w2 = (r2, ?w2\<lparr>w_tick := Suc (w_tick ?w2), w_trace := w_trace ?w2 @ [post_event n ?ev]\<rparr>)"
    "if post_ok E n (w_tick ?w2) ?ev then r2 = Ok () else \<exists>e. r2 = Err e" using sendSlack_run [OF assms] by blast
  show ?thesis
    using r1 r2
    by (cases "smtp_Enabled (n_smtp n)"; cases "slack_Enabled (n_slack n)")
       (auto simp: Notify_def time_now_def go_run tick_def error_line_def Let_def split: if_splits)
qed

text \<open>
  A notifier without a mail host and without a webhook, which is the only kind the reconciler
  builds, sends nothing: \<^verbatim>\<open>NotifyCritical\<close> returns normally and leaves no trace, although no one was
  told, and \<^verbatim>\<open>Notify\<close> reports an error exactly if a channel is enabled.
\<close>

theorem unconfigured_sends_nothing:
  assumes "smtp_Host (n_smtp n) = ''''" and "slack_WebhookURL (n_slack n) = ''''"
  shows "NotifyCritical E n ev w = (Ok (), w\<lparr>w_tick := Suc (w_tick w)\<rparr>) \<and>
    (\<exists>r. Notify E n ev w = (r, w\<lparr>w_tick := Suc (w_tick w)\<rparr>) \<and>
      (if smtp_Enabled (n_smtp n) \<or> slack_Enabled (n_slack n) then \<exists>e. r = Err e else r = Ok ()))"
  using assms
  by (auto simp: NotifyCritical_def Notify_def time_now_def go_run tick_def sendSMTP_def sendSlack_def error_line_def Let_def)

end
