(* ===== verification/Witnesses_State.thy ===== *)
theory Witnesses_State
  imports Scenario Rollback Notifier
begin

text \<open>The theorems on the saved state, rollbacks and notifications, applied on the node of \<open>Scenario\<close>.\<close>

section \<open>The saved state\<close>

definition kept_state :: state where
  "kept_state = state_New\<lparr>st_Phase := PhaseRenewingN1, st_FailureStep := ''sign'',
     st_Nodes := Some (fmap_of_list [(''n'', zero_node_state\<lparr>ns_Node := ''n'', ns_BackupPath := ''/b/x''\<rparr>)])\<rparr>"

lemma textual_base_time: "textual_time (base_time, 0)"
  by (simp add: base_time_def printable_year_def days_of_def ns_second_def) code_simp

lemma kept_textual: "textual_state (kept_state\<lparr>st_UpdatedAt := (base_time, 0)\<rparr>)"
  using textual_zero_time textual_base_time
  by (simp add: textual_state_def kept_state_def state_New_def zero_state_def zero_node_state_def phase_defs
      ascii_def textual_node.simps del: textual_time.simps)

lemma state_file: "resolve ''/s.json'' = (True, [''s.json''])" "filepath_Dir ''/s.json'' = ''/''" "resolve ''/'' = (True, [])"
  by code_simp+

lemma saves_at_root:
  assumes "textual_state (s\<lparr>st_UpdatedAt := now_at frozen node_world\<rparr>)"
  shows "\<exists>s' w'. state_Save frozen ''/s.json'' s node_world = (Ok (s', None), w')"
proof -
  let ?v = "node_world\<lparr>w_tick := Suc 0\<rparr>"
  obtain j where j: "marshal_state (s\<lparr>st_UpdatedAt := now_at frozen node_world\<rparr>) = Inr j" using marshal_state_ok [OF assms] by blast
  have mk: "os_MkdirAll frozen ''/'' 448 ?v = (Ok (), ?v)" by (simp add: os_MkdirAll_def ancestors_def state_file(3) ret_run)
  have no: "fs_get (w_fs ?v) (True, [''s.json'']) = None" by code_simp
  obtain w' where "os_WriteFile frozen ''/s.json'' (encode 0 j) 384 ?v = (Ok (), w')"
    using WriteFile_nf [OF calm_no_faults(2), of ?v "''/s.json''"] no unfolding state_file(1) by (auto simp: parent_def fs_get_def)
  then show ?thesis using j mk
    by (auto simp: state_Save_def write_state_def Let_def seqE_run bindE_run local_now_run ret_run of_sum_def state_file(2)
        now_at_def node_world_def)
qed

theorem Save_Load_witness:
  "\<exists>w' w''. state_Load frozen ''/s.json'' w' = (Ok (kept_state\<lparr>st_UpdatedAt := (base_time, 0)\<rparr>), w'')"
proof -
  have now: "now_at frozen node_world = (base_time, 0)" by (simp add: now_at_def frozen_def calm_def)
  have tx: "textual_state (kept_state\<lparr>st_UpdatedAt := now_at frozen node_world\<rparr>)" unfolding now by (rule kept_textual)
  obtain s' w' where "state_Save frozen ''/s.json'' kept_state node_world = (Ok (s', None), w')" using saves_at_root [OF tx] by blast
  from Save_Load [OF this tx calm_no_faults(2)] show ?thesis unfolding now by blast
qed

theorem critical_sticks_witness:
  "\<exists>s s'. (state_step frozen ''/s.json'')\<^sup>*\<^sup>* state_New s \<and> st_Critical s \<and> SetPhase frozen PhaseNotifying ''/s.json'' s node_world = s' \<and>
     (\<exists>t e w. s' = (Ok (t, e), w) \<and> st_Critical t)"
proof -
  have m: "st_Nodes state_New \<noteq> None" by (simp add: state_New_def)
  obtain s e w where s: "SetNodeRollback frozen ''n'' True ''/s.json'' state_New node_world = (Ok (s, e), w)"
    using SetNodeRollback_runs [OF m] by blast
  then have s1: "(state_step frozen ''/s.json'')\<^sup>*\<^sup>* state_New s" by (blast intro: state_step.rollback)
  have crit: "st_Critical s" using SetNodeRollback_okD [OF s] by blast
  obtain t e' w' where t: "SetPhase frozen PhaseNotifying ''/s.json'' s node_world = (Ok (t, e'), w')"
    using Save_returns unfolding SetPhase_def by blast
  then have "(state_step frozen ''/s.json'')\<^sup>*\<^sup>* s t" by (blast intro: state_step.phase)
  then have "st_Critical t" using critical_sticks [OF s1] crit by blast
  then show ?thesis using s1 crit t by blast
qed

definition bare_world :: world where
  "bare_world = blank_world\<lparr>w_fs := fmap_of_list [((True, [''s.json'']), Reg ''{}'' 384)]\<rparr>"

theorem Load_nil_map_panics_witness:
  "\<exists>s w'. state_Load calm ''/s.json'' bare_world = (Ok s, w') \<and>
     fst (SetNodeBackup calm ''n'' ''/b/x'' ''/s.json'' s w') = Panic ''assignment to entry in nil map''"
proof -
  have fl: "fs_get (w_fs bare_world) (resolve ''/s.json'') = Some (Reg ''{}'' 384)" by code_simp
  have json: "decode ''{}'' = Some (JObj [])" by code_simp
  have load: "state_Load calm ''/s.json'' bare_world = (Ok zero_state, bare_world\<lparr>w_tick := w_tick bare_world + 2\<rparr>)"
    using ReadFile_nf [OF calm_no_faults(1) fl] json
    by (simp add: state_Load_def bindE_run unmarshal_state_def of_sum_def ret_run)
  from Load_nil_map_panics [OF fl json _ load] load show ?thesis by auto
qed

section \<open>Rolling back\<close>

definition rb_mgr :: rollback_manager where
  "rb_mgr = rollback_New (backup_New ''/b'' ''/p'' ''/k'') (podrestart_New ''/m'' False) ''/s.json'' False"


definition damaged_world :: world where
  "damaged_world = blank_world\<lparr>w_fs := fmap_of_list
     [((True, [''p'']), Dir 493), ((True, [''p'', ''etcd'']), Dir 493), ((True, [''k'']), Dir 493),
      ((True, [''b'']), Dir 493), ((True, [''b'', ''x'']), Dir 493), ((True, [''b'', ''x'', ''pki'']), Dir 493),
      ((True, [''b'', ''x'', ''pki'', ''ca.crt'']), Reg ''Pd'' 384), ((True, [''p'', ''ca.crt'']), Reg ''bad'' 384),
      ((True, [''m'']), Dir 493), ((True, [''m'', ''etcd.yaml'']), Reg ''pod'' 384),
      ((True, [''m'', ''kube-apiserver.yaml'']), Reg ''pod'' 384),
      ((True, [''m'', ''kube-controller-manager.yaml'']), Reg ''pod'' 384),
      ((True, [''m'', ''kube-scheduler.yaml'']), Reg ''pod'' 384)]\<rparr>"

lemma restored_and_restarted:
  "fst (seqE (backup_Restore calm (rb_backupMgr rb_mgr) ''/b/x'') (\<lambda>_. RestartAll calm (rb_restartMgr rb_mgr)) damaged_world) = Ok ()"
  by code_simp

lemma rollback_succeeds: "\<exists>r w'. rollbackNode calm rb_mgr ''n'' (Some kept_state) 10 damaged_world = (Ok r, w') \<and> rr_Success r"
proof -
  obtain w1 w2 where 1: "backup_Restore calm (rb_backupMgr rb_mgr) ''/b/x'' damaged_world = (Ok (), w1)"
    "RestartAll calm (rb_restartMgr rb_mgr) w1 = (Ok (), w2)"
    using run_eq [OF restored_and_restarted] by (auto simp: ok_iff)
  have "\<exists>w3. retry_loop 10 calm (healthcheck_New ''n'' 10 False) 10 (15 * ns_second) 1 w2 = (Ok (), w3)"
    by (rule retry_loop_live [where T = 0]) (simp_all add: calm_def)
  then obtain w3 where 2: "CheckAllWithRetry calm (healthcheck_New ''n'' 10 False) 10 (15 * ns_second) w2 = (Ok (), w3)"
    by (auto simp: CheckAllWithRetry_def healthcheck_New_def)
  have mgr: "\<not> rb_dryRun rb_mgr" by (simp add: rb_mgr_def rollback_New_def)
  have node: "node_of kept_state ''n'' = Some (zero_node_state\<lparr>ns_Node := ''n'', ns_BackupPath := ''/b/x''\<rparr>)"
    by (simp add: node_of_def kept_state_def fmlookup_of_list)
  show ?thesis using 1 2 mgr by (simp add: rollbackNode_def node bindE_run restored_result_def seqE_run local_now_run ret_run)
qed

theorem rollback_restores_witness:
  "\<exists>r w' md. rollbackNode calm rb_mgr ''n'' (Some kept_state) 10 damaged_world = (Ok r, w') \<and>
     fs_get (w_fs w') (True, [''p'', ''ca.crt'']) = Some (Reg ''Pd'' md)"
proof -
  obtain r w' where r: "rollbackNode calm rb_mgr ''n'' (Some kept_state) 10 damaged_world = (Ok r, w')" "rr_Success r"
    using rollback_succeeds by blast
  define ns where "ns = zero_node_state\<lparr>ns_Node := ''n'', ns_BackupPath := ''/b/x''\<rparr>"
  have node: "node_of kept_state ''n'' = Some ns" by (simp add: node_of_def kept_state_def ns_def fmlookup_of_list)
  have live: "\<not> rb_dryRun rb_mgr" and sep: "separate (rb_backupMgr rb_mgr) ''/b/x''"
    and dir: "is_dir (fs_get (w_fs damaged_world) (resolve (bm_kubeconfigDir (rb_backupMgr rb_mgr))))"
    and apart: "source_paths (rb_backupMgr rb_mgr) \<inter> manifest_files (rb_restartMgr rb_mgr) = {}"
    and saved: "fs_get (w_fs damaged_world) (pki_copy ''/b/x'' ''ca.crt'') = Some (Reg ''Pd'' 384)"
    and path: "pki_path (bm_pkiDir (rb_backupMgr rb_mgr)) ''ca.crt'' = (True, [''p'', ''ca.crt''])"
    and listed: "''ca.crt'' \<in> set pkiFiles" by code_simp+
  have bp: "ns_BackupPath ns = ''/b/x''" by (simp add: ns_def)
  have "\<exists>md'. fs_get (w_fs w') (pki_path (bm_pkiDir (rb_backupMgr rb_mgr)) ''ca.crt'') = Some (Reg ''Pd'' md')"
    using rollback_restores [OF r live node sep [folded bp] dir apart] listed saved [folded bp] by blast
  then show ?thesis using r(1) unfolding path by blast
qed

section \<open>Notifications\<close>

definition both_channels :: notifier where
  "both_channels = notifier_New
     \<lparr>smtp_Enabled = True, smtp_Host = ''mail'', smtp_Port = 25, smtp_From = ''a'', smtp_To = [''b''], smtp_Username = '''', smtp_Password = ''''\<rparr>
     \<lparr>slack_Enabled = True, slack_WebhookURL = ''https://hooks''\<rparr>"

definition an_event :: notification where
  "an_event = \<lparr>nt_Type = EventRenewalSuccess, nt_Node = ''n'', nt_Timestamp = 0, nt_Message = ''ok'', nt_Details = ''''\<rparr>"

text \<open>The mail server refuses; Slack is told all the same, and the error is reported.\<close>

definition no_mail :: env where
  "no_mail = frozen\<lparr>env_mail := (\<lambda>_ _. Some (ErrMsg ''refused''))\<rparr>"

theorem Notify_channels_witness:
  "\<exists>e w'. Notify no_mail both_channels an_event node_world = (Err e, w') \<and>
     w_trace w' = [mail_event both_channels (an_event\<lparr>nt_Timestamp := base_time\<rparr>), post_event both_channels (an_event\<lparr>nt_Timestamp := base_time\<rparr>)]"
proof -
  have "configured both_channels" by (simp add: configured_def both_channels_def notifier_New_def)
  from Notify_channels [OF this, of no_mail an_event node_world] show ?thesis
    by (auto simp: Let_def mail_ok_def no_mail_def frozen_def both_channels_def notifier_New_def node_world_def)
qed

theorem unconfigured_sends_nothing_witness:
  "\<exists>w'. NotifyCritical calm (notifier_New \<lparr>smtp_Enabled = True, smtp_Host = '''', smtp_Port = 0, smtp_From = '''', smtp_To = [],
      smtp_Username = '''', smtp_Password = ''''\<rparr> \<lparr>slack_Enabled = True, slack_WebhookURL = ''''\<rparr>) an_event node_world = (Ok (), w') \<and>
    w_trace w' = []"
  using unconfigured_sends_nothing [of "notifier_New \<lparr>smtp_Enabled = True, smtp_Host = '''', smtp_Port = 0, smtp_From = '''', smtp_To = [],
      smtp_Username = '''', smtp_Password = ''''\<rparr> \<lparr>slack_Enabled = True, slack_WebhookURL = ''''\<rparr>" calm an_event node_world]
  by (auto simp: notifier_New_def node_world_def)

end
