(* ===== verification/Controller.thy ===== *)
theory Controller
  imports Detector Signer Rollback Notifier
begin

text \<open>
  \<^verbatim>\<open>internal/controller/certrotationconfig_controller.go\<close>: the reconciler of one node. \<open>w_cfg\<close> is the
  object \<^verbatim>\<open>cfg\<close> that \<^verbatim>\<open>Reconcile\<close> fetched and that every patch helper mutates, \<open>w_server\<close> the object
  in the API server.
\<close>

section \<open>The API client\<close>

definition get_cfg :: "cert_rotation_config go" where
  "get_cfg = (\<lambda>w. (Ok (w_cfg w), w))"

definition put_cfg :: "cert_rotation_config \<Rightarrow> unit go" where
  "put_cfg c = (\<lambda>w. (Ok (), w\<lparr>w_cfg := c\<rparr>))"

text \<open>A call of the API server: others may have changed the object before it, and it may fail.\<close>

definition api_call :: "env \<Rightarrow> 'a go \<Rightarrow> 'a go" where
  "api_call E m =
     seqE tick (\<lambda>t.
     seqE (\<lambda>w. (Ok (), w\<lparr>w_server := env_others E t (w_server w)\<rparr>)) (\<lambda>_.
     case env_api_fault E t of Some e \<Rightarrow> fail e | None \<Rightarrow> m))"

text \<open>
  \<^verbatim>\<open>r.Get\<close> reads the object from the manager's cache, which may lag behind the server; \<open>None\<close> is the error
  that \<^verbatim>\<open>errors.IsNotFound\<close> recognises.
\<close>

definition client_Get :: "env \<Rightarrow> cert_rotation_config option go" where
  "client_Get E = api_call E (\<lambda>w. (Ok (env_cached E (w_tick w) (w_server w)), w))"

text \<open>
  \<^verbatim>\<open>r.Status().Patch(ctx, cfg, client.MergeFrom(old))\<close>: the difference between \<open>old\<close> and \<^verbatim>\<open>cfg\<close> is
  merged into the server's object, and \<^verbatim>\<open>cfg\<close> becomes the result.
\<close>

definition Status_Patch :: "env \<Rightarrow> cert_rotation_config \<Rightarrow> unit go" where
  "Status_Patch E old =
     api_call E (\<lambda>w. case w_server w of
       None \<Rightarrow> (Err (ErrMsg ''not found''), w)
     | Some srv \<Rightarrow>
         let merged = env_merge E old (w_cfg w) srv in
         (Ok (), w\<lparr>w_cfg := merged, w_server := Some merged, w_trace := w_trace w @ [EvPatch (config_Status merged)]\<rparr>))"

text \<open>The shape of every patch helper: copy \<^verbatim>\<open>cfg\<close>, mutate it, patch.\<close>

definition patch_with :: "env \<Rightarrow> (config_status \<Rightarrow> config_status) \<Rightarrow> unit go" where
  "patch_with E f =
     seqE get_cfg (\<lambda>old.
     seqE (put_cfg (old\<lparr>config_Status := f (config_Status old)\<rparr>)) (\<lambda>_.
     Status_Patch E old))"

section \<open>Status patch helpers\<close>

definition fresh_node :: "string \<Rightarrow> node_status" where
  "fresh_node me = \<lparr>node_Node = me, node_Phase = NodePhaseIdle, node_LastCheckedAt = None, node_LastRenewedAt = None,
     node_BackupPath = '''', node_FailureReason = '''', node_Certs = []\<rparr>"

definition ensureNodes :: "string \<Rightarrow> config_status \<Rightarrow> config_status" where
  "ensureNodes me st =
     (if fmlookup (status_Nodes st) me = None then st\<lparr>status_Nodes := fmupd me (fresh_node me) (status_Nodes st)\<rparr> else st)"

text \<open>\<^verbatim>\<open>ns := cfg.Status.Nodes[r.NodeName]; ...; cfg.Status.Nodes[r.NodeName] = ns\<close> after \<^verbatim>\<open>ensureNodes\<close>.\<close>

definition update_node :: "string \<Rightarrow> (node_status \<Rightarrow> node_status) \<Rightarrow> config_status \<Rightarrow> config_status" where
  "update_node me f st =
     (let st' = ensureNodes me st; ns = the (fmlookup (status_Nodes st') me) in
      st'\<lparr>status_Nodes := fmupd me (f ns) (status_Nodes st')\<rparr>)"

definition setNodePhase :: "env \<Rightarrow> string \<Rightarrow> node_phase \<Rightarrow> string \<Rightarrow> unit go" where
  "setNodePhase E me phase failureReason =
     patch_with E (update_node me (\<lambda>ns.
       let ns' = ns\<lparr>node_Phase := phase, node_Node := me\<rparr> in
       if failureReason \<noteq> '''' then ns'\<lparr>node_FailureReason := failureReason\<rparr> else ns'))"

definition setNodeBackupPath :: "env \<Rightarrow> string \<Rightarrow> string \<Rightarrow> unit go" where
  "setNodeBackupPath E me backupPath = patch_with E (update_node me (\<lambda>ns. ns\<lparr>node_BackupPath := backupPath\<rparr>))"

definition setNodeRenewed :: "env \<Rightarrow> string \<Rightarrow> int \<Rightarrow> unit go" where
  "setNodeRenewed E me renewedAt =
     patch_with E (\<lambda>st. (update_node me (\<lambda>ns.
       ns\<lparr>node_Phase := NodePhaseIdle, node_LastRenewedAt := Some renewedAt, node_FailureReason := ''''\<rparr>) st)
       \<lparr>status_LastRenewedAt := Some renewedAt\<rparr>)"

definition updateNodeCertStatus :: "env \<Rightarrow> string \<Rightarrow> api_cert_status list \<Rightarrow> int \<Rightarrow> unit go" where
  "updateNodeCertStatus E me certs checkedAt =
     patch_with E (\<lambda>st. (update_node me (\<lambda>ns. ns\<lparr>node_Certs := certs, node_LastCheckedAt := Some checkedAt\<rparr>) st)
       \<lparr>status_LastCheckedAt := Some checkedAt\<rparr>)"

text \<open>\<^verbatim>\<open>metav1.Now()\<close>, of which JSON keeps the seconds.\<close>

definition metav1_Now :: "env \<Rightarrow> int go" where
  "metav1_Now E = seqE (time_now E) (\<lambda>t. ret (t div ns_second))"

text \<open>The loop of \<^verbatim>\<open>updateClusterConditions\<close> over the nodes: healthy, renewing, critical.\<close>

definition node_flags :: "node_status \<Rightarrow> bool \<times> bool \<times> bool \<Rightarrow> bool \<times> bool \<times> bool" where
  "node_flags ns flags = (case flags of (healthy, renewing, critical) \<Rightarrow>
     let (healthy, renewing, critical) =
       (case node_Phase ns of
          NodePhaseCritical \<Rightarrow> (False, renewing, True)
        | NodePhaseRenewing \<Rightarrow> (healthy, True, critical)
        | NodePhaseRollingBack \<Rightarrow> (healthy, True, critical)
        | NodePhaseFailed \<Rightarrow> (False, renewing, critical)
        | _ \<Rightarrow> (healthy, renewing, critical)) in
     (fold (\<lambda>c healthy. if cert_Status c \<noteq> ''OK'' then False else healthy) (node_Certs ns) healthy, renewing, critical))"

definition conditions_for :: "env \<Rightarrow> bool \<times> bool \<times> bool \<Rightarrow> int \<Rightarrow> config_status \<Rightarrow> config_status" where
  "conditions_for E flags now st = (case flags of (healthy, renewing, critical) \<Rightarrow>
     let c1 = (if healthy
         then \<lparr>cond_Type = ConditionCertsHealthy, cond_Status = ConditionTrue, cond_Reason = ''AllCertsValid'',
           cond_Message = ''All control plane certs are valid across all nodes'', cond_LastTransitionTime = now\<rparr>
         else \<lparr>cond_Type = ConditionCertsHealthy, cond_Status = ConditionFalse, cond_Reason = ''CertsExpiring'',
           cond_Message = ''One or more control plane certs are expiring or expired'', cond_LastTransitionTime = now\<rparr>);
         c2 = (if renewing
         then \<lparr>cond_Type = ConditionRenewalInProgress, cond_Status = ConditionTrue, cond_Reason = ''RenewalActive'',
           cond_Message = ''Cert renewal is in progress on one or more nodes'', cond_LastTransitionTime = now\<rparr>
         else \<lparr>cond_Type = ConditionRenewalInProgress, cond_Status = ConditionFalse, cond_Reason = ''NoRenewalInProgress'',
           cond_Message = ''No cert renewal is currently in progress'', cond_LastTransitionTime = now\<rparr>);
         c3 = (if critical
         then \<lparr>cond_Type = ConditionCriticalFailure, cond_Status = ConditionTrue, cond_Reason = ''RollbackFailed'',
           cond_Message = ''Cert renewal AND rollback failed on one or more nodes '' @ em_dash @ '' manual intervention required'',
           cond_LastTransitionTime = now\<rparr>
         else \<lparr>cond_Type = ConditionCriticalFailure, cond_Status = ConditionFalse, cond_Reason = ''NoCriticalFailure'',
           cond_Message = ''No critical failures detected'', cond_LastTransitionTime = now\<rparr>);
         conds = env_set_condition E (env_set_condition E (env_set_condition E (status_Conditions st) c1) c2) c3
     in st\<lparr>status_Conditions := conds,
           status_Phase := (if critical then ClusterPhaseFailed else if renewing then ClusterPhaseRenewing else ClusterPhaseIdle)\<rparr>)"

definition updateClusterConditions :: "env \<Rightarrow> unit go" where
  "updateClusterConditions E =
     seqE get_cfg (\<lambda>cfg.
     seqE (map_range E (sorted_list_of_fset (fmdom (status_Nodes (config_Status cfg))))) (\<lambda>names.
     let flags = fold (\<lambda>n. node_flags (the (fmlookup (status_Nodes (config_Status cfg)) n))) names (True, False, False) in
     seqE (metav1_Now E) (\<lambda>now.
     patch_with E (conditions_for E flags now))))"

section \<open>Requeueing\<close>

text \<open>\<^verbatim>\<open>hash/fnv\<close>, New32a: 32-bit multiplication wraps around.\<close>

definition fnv32a :: "string \<Rightarrow> 32 word" where
  "fnv32a s = fold (\<lambda>c h. (h XOR of_nat (of_char c)) * 16777619) s 2166136261"

definition requeueInterval :: "config_spec \<Rightarrow> int" where
  "requeueInterval spec = wrap64 (CheckIntervalHours spec * ns_hour)"

definition requeueWithJitter :: "string \<Rightarrow> config_spec \<Rightarrow> int" where
  "requeueWithJitter me spec =
     wrap64 (wrap64 (CheckIntervalHours spec * ns_hour) + int (unat (fnv32a me) mod 120) * ns_second)"

section \<open>Conversion and notification helpers\<close>

definition toCertStatuses :: "detection_result \<Rightarrow> api_cert_status list" where
  "toCertStatuses result = map (\<lambda>c. \<lparr>cert_Name = ci_Name c, cert_ExpiryTime = ci_Expiry c div ns_second,
     cert_ResidualDays = ci_ResidualDays c, cert_Status = status_string (ci_Status c)\<rparr>) (dr_Certs result)"

definition buildNotifier :: "config_spec \<Rightarrow> notifier" where
  "buildNotifier spec = notifier_New
     \<lparr>smtp_Enabled = SMTP_Enabled (SMTP (Notifications spec)), smtp_Host = '''', smtp_Port = 0, smtp_From = '''',
      smtp_To = [], smtp_Username = '''', smtp_Password = ''''\<rparr>
     \<lparr>slack_Enabled = Slack_Enabled (Slack (Notifications spec)), slack_WebhookURL = ''''\<rparr>"

definition the_event :: "event_type \<Rightarrow> string \<Rightarrow> string \<Rightarrow> notification" where
  "the_event ty node msg = \<lparr>nt_Type = ty, nt_Node = node, nt_Timestamp = fst zero_time, nt_Message = msg, nt_Details = ''''\<rparr>"

text \<open>A call whose error is dropped or only logged.\<close>

definition ignoreE :: "'a go \<Rightarrow> unit go" where
  "ignoreE m = bindE m (\<lambda>_. ret ()) (\<lambda>_. ret ())"

definition sendRenewalSuccess :: "env \<Rightarrow> string \<Rightarrow> config_spec \<Rightarrow> unit go" where
  "sendRenewalSuccess E me spec =
     ignoreE (Notify E (buildNotifier spec)
       (the_event EventRenewalSuccess me (''Node '' @ me @ '': cert renewal completed successfully'')))"

definition sendRollbackNotification :: "env \<Rightarrow> string \<Rightarrow> config_spec \<Rightarrow> goerr \<Rightarrow> unit go" where
  "sendRollbackNotification E me spec originalErr =
     seqE get_cfg (\<lambda>cfg.
     let backup = (case fmlookup (status_Nodes (config_Status cfg)) me of None \<Rightarrow> '''' | Some ns \<Rightarrow> node_BackupPath ns) in
     ignoreE (Notify E (buildNotifier spec)
       (the_event EventRollbackSuccess me (''Node '' @ me @ '': renewal failed ('' @ err_text originalErr @
         ''). Certs rolled back to '' @ backup @ ''. Investigate before next attempt.''))))"

definition sendCriticalAlert :: "env \<Rightarrow> string \<Rightarrow> config_spec \<Rightarrow> string \<Rightarrow> unit go" where
  "sendCriticalAlert E me spec criticalMsg =
     NotifyCritical E (buildNotifier spec)
       (the_event EventCritical me (''CRITICAL '' @ em_dash @ '' Node '' @ me @ '': '' @ criticalMsg))"

section \<open>The renewal pipeline\<close>

definition health_timeout :: "config_spec \<Rightarrow> int" where
  "health_timeout spec = wrap64 (HealthCheckTimeoutSeconds spec * ns_second)"

definition spec_backup_manager :: "config_spec \<Rightarrow> backup_manager" where
  "spec_backup_manager spec = backup_New (BackupDir spec) (PKIDir spec) (KubeconfigDir spec)"

definition renew_cert :: "env \<Rightarrow> config_spec \<Rightarrow> cert_info \<Rightarrow> unit go" where
  "renew_cert E spec certInfo =
     (if ci_Status certInfo = StatusOK then ret ()
      else
        seqE (wrapE (''loading existing cert '' @ ci_Name certInfo) (LoadExistingCert E (ci_Path certInfo))) (\<lambda>existing.
        seqE (wrapE (''loading CA cert for '' @ ci_Name certInfo) (LoadCACert E (fst (CAForCert (ci_Name certInfo))))) (\<lambda>caCert.
        seqE (wrapE (''loading CA key for '' @ ci_Name certInfo) (LoadCAKey E (snd (CAForCert (ci_Name certInfo))))) (\<lambda>caKey.
        seqE (wrapE (''signing cert '' @ ci_Name certInfo) (SignWithSelfKey E existing caCert caKey (the_generator E))) (\<lambda>(certPEM, keyPEM).
        case map_of CertPaths (ci_Name certInfo) of
          None \<Rightarrow> fail (ErrMsg (''unknown cert name: '' @ ci_Name certInfo @ '' '' @ em_dash @ '' no path mapping found''))
        | Some (certPath, keyPath) \<Rightarrow>
            wrapE (''writing renewed cert '' @ ci_Name certInfo)
              (WriteCertKeyPair E (writer_New (PKIDir spec) False) certPath keyPath certPEM keyPEM))))))"

definition runRenewal :: "env \<Rightarrow> string \<Rightarrow> config_spec \<Rightarrow> detection_result \<Rightarrow> unit go" where
  "runRenewal E me spec detResult =
     seqE (wrapE ''cert backup failed'' (backup_Create E (spec_backup_manager spec) me)) (\<lambda>b.
     seqE (wrapE ''persisting backup path to status'' (setNodeBackupPath E me (BackupPath b))) (\<lambda>_.
     if DryRun spec then ret ()
     else
       seqE (for_each (renew_cert E spec) (dr_Certs detResult)) (\<lambda>_.
       seqE (wrapE ''static pod restart failed'' (RestartAll E (podrestart_New (ManifestsDir spec) False))) (\<lambda>_.
       wrapE ''health check failed after cert renewal''
         (CheckAllWithRetry E (healthcheck_New me (health_timeout spec) False) (HealthCheckMaxAttempts spec) (15 * ns_second))))))"

definition runRollback :: "env \<Rightarrow> string \<Rightarrow> config_spec \<Rightarrow> goerr \<Rightarrow> unit go" where
  "runRollback E me spec originalErr =
     seqE get_cfg (\<lambda>cfg.
     let path = (case fmlookup (status_Nodes (config_Status cfg)) me of None \<Rightarrow> '''' | Some ns \<Rightarrow> node_BackupPath ns) in
     if path = '''' then fail (ErrMsg (''no backup path in status for node '' @ me @ '' '' @ em_dash @ '' cannot roll back''))
     else
       seqE (RollbackAll E (rollback_New (spec_backup_manager spec) (podrestart_New (ManifestsDir spec) (DryRun spec)) '''' (DryRun spec))
               [] me None (health_timeout spec)) (\<lambda>(results, _).
       if IsCritical results
       then fail (ErrMsg (''rollback failed: '' @ rollback_Summary results me (err_text originalErr)))
       else
         wrapE ''node unhealthy after rollback''
           (CheckAllWithRetry E (healthcheck_New me (health_timeout spec) (DryRun spec)) (HealthCheckMaxAttempts spec) (15 * ns_second))))"

section \<open>Reconcile\<close>

text \<open>\<^verbatim>\<open>ctrl.Result\<close>: the delay in nanoseconds, 0 for none.\<close>

record ctrl_result =
  RequeueAfter :: int

definition requeue :: "int \<Rightarrow> ctrl_result go" where
  "requeue d = ret \<lparr>RequeueAfter = d\<rparr>"

definition critical_message :: "goerr \<Rightarrow> goerr \<Rightarrow> string" where
  "critical_message renewErr rollbackErr =
     ''CRITICAL: renewal failed ('' @ err_text renewErr @ '') AND rollback failed ('' @ err_text rollbackErr @
     ''). Manual intervention required.''"

text \<open>After a failed renewal.\<close>

definition after_failure :: "env \<Rightarrow> string \<Rightarrow> config_spec \<Rightarrow> goerr \<Rightarrow> ctrl_result go" where
  "after_failure E me spec renewErr =
     seqE (ignoreE (setNodePhase E me NodePhaseRollingBack (err_text renewErr))) (\<lambda>_.
     bindE (runRollback E me spec renewErr)
       (\<lambda>rollbackErr.
          let criticalMsg = critical_message renewErr rollbackErr in
          seqE (ignoreE (setNodePhase E me NodePhaseCritical criticalMsg)) (\<lambda>_.
          seqE (sendCriticalAlert E me spec criticalMsg) (\<lambda>_.
          seqE (ignoreE (updateClusterConditions E)) (\<lambda>_.
          requeue 0))))
       (\<lambda>_.
          seqE (ignoreE (setNodePhase E me NodePhaseFailed (err_text renewErr))) (\<lambda>_.
          seqE (sendRollbackNotification E me spec renewErr) (\<lambda>_.
          seqE (ignoreE (updateClusterConditions E)) (\<lambda>_.
          requeue (requeueWithJitter me spec))))))"

definition after_success :: "env \<Rightarrow> string \<Rightarrow> config_spec \<Rightarrow> ctrl_result go" where
  "after_success E me spec =
     seqE (metav1_Now E) (\<lambda>renewedAt.
     seqE (setNodeRenewed E me renewedAt) (\<lambda>_.
     seqE (sendRenewalSuccess E me spec) (\<lambda>_.
     seqE (ignoreE (updateClusterConditions E)) (\<lambda>_.
     requeue (requeueWithJitter me spec)))))"

text \<open>Steps 4 to 7, on the result of the detection.\<close>

definition after_detection :: "env \<Rightarrow> string \<Rightarrow> config_spec \<Rightarrow> detection_result \<Rightarrow> ctrl_result go" where
  "after_detection E me spec detResult =
     seqE (metav1_Now E) (\<lambda>now.
     seqE (updateNodeCertStatus E me (toCertStatuses detResult) now) (\<lambda>_.
     if \<not> NeedsRenewal detResult then
       seqE (setNodePhase E me NodePhaseIdle '''') (\<lambda>_.
       seqE (ignoreE (updateClusterConditions E)) (\<lambda>_.
       requeue (requeueWithJitter me spec)))
     else
       seqE (setNodePhase E me NodePhaseRenewing '''') (\<lambda>_.
       bindE (runRenewal E me spec detResult) (after_failure E me spec) (\<lambda>_. after_success E me spec))))"

definition is_critical_node :: "string \<Rightarrow> cert_rotation_config \<Rightarrow> bool" where
  "is_critical_node me cfg \<longleftrightarrow>
     (case fmlookup (status_Nodes (config_Status cfg)) me of None \<Rightarrow> False | Some ns \<Rightarrow> node_Phase ns = NodePhaseCritical)"

text \<open>Steps 2 to 7, on the object that was fetched.\<close>

definition reconcile_fetched :: "env \<Rightarrow> string \<Rightarrow> cert_rotation_config \<Rightarrow> ctrl_result go" where
  "reconcile_fetched E me cfg =
     seqE (put_cfg cfg) (\<lambda>_.
     let spec = config_Spec cfg in
     if is_critical_node me cfg then requeue ns_hour
     else
       seqE (setNodePhase E me NodePhaseDetecting '''') (\<lambda>_.
       bindE (Detect E (detector_New (PKIDir spec) (KubeconfigDir spec) (ThresholdDays spec)) me)
         (\<lambda>err.
            seqE (ignoreE (setNodePhase E me NodePhaseFailed (''cert detection failed: '' @ err_text err))) (\<lambda>_.
            requeue (requeueInterval spec)))
         (after_detection E me spec)))"

definition Reconcile :: "env \<Rightarrow> string \<Rightarrow> ctrl_result go" where
  "Reconcile E me =
     seqE (client_Get E) (\<lambda>found. case found of
       None \<Rightarrow> requeue 0
     | Some cfg \<Rightarrow> reconcile_fetched E me cfg)"

section \<open>The identity of the node\<close>

definition NodeNameFromEnv :: "env \<Rightarrow> goerr + string" where
  "NodeNameFromEnv E =
     (let name = env_getenv E ''MY_NODE_NAME'' in
      if name = '''' then Inl (ErrMsg ''MY_NODE_NAME environment variable not set'') else Inr name)"

text \<open>\<^verbatim>\<open>SetupWithManager\<close> up to the registration with controller-runtime, which is \<open>register\<close>.\<close>

definition SetupWithManager :: "string \<Rightarrow> unit go \<Rightarrow> unit go" where
  "SetupWithManager me register =
     (if me = '''' then fail (ErrMsg (''NodeName must be set '' @ em_dash @ '' inject MY_NODE_NAME via downward API''))
      else register)"

end
