(* ===== verification/Reconcile_Frames.thy ===== *)
theory Reconcile_Frames
  imports Controller
begin

text \<open>
  What a reconciliation can and cannot do, whatever the environment: relations between its start and
  its end that every step keeps.
\<close>

section \<open>Operations that only look\<close>

context tick_blind begin

lemma keeps_parsePEMCert [keeps_intro]: "keeps R (parsePEMCert E name path data)"
  unfolding parsePEMCert_def
  by (auto intro!: keeps_seqE keeps_time_now keeps_ret keeps_fail split: option.split sum.split)

lemma keeps_parseKubeconfigCert [keeps_intro]: "keeps R (parseKubeconfigCert E name path)"
  unfolding parseKubeconfigCert_def
  by (auto intro!: keeps_bindE keeps_ReadFile keeps_seqE keeps_time_now keeps_ret keeps_fail split: sum.split)

lemma keeps_Detect [keeps_intro]: "keeps R (Detect E d node)"
  unfolding Detect_def detect_pki_def detect_kubeconfig_def parseCert_def Let_def
  by (auto intro!: keeps_seqE keeps_map_range keeps_fold_go keeps_wrapE keeps_ReadFile keeps_parsePEMCert
      keeps_parseKubeconfigCert keeps_ret split: prod.split option.split)

lemma keeps_get_cfg [keeps_intro]: "keeps R get_cfg"
  by (simp add: keeps_def get_cfg_def kept_refl)

lemma keeps_metav1_Now [keeps_intro]: "keeps R (metav1_Now E)"
  unfolding metav1_Now_def by (intro keeps_seqE keeps_time_now keeps_ret)

lemma keeps_ignoreE [keeps_intro]: "keeps R m \<Longrightarrow> keeps R (ignoreE m)"
  unfolding ignoreE_def by (intro keeps_bindE keeps_ret)

lemma keeps_unsent [keeps_intro]:
  assumes "smtp_Host (n_smtp n) = ''''" and "slack_WebhookURL (n_slack n) = ''''"
  shows "keeps R (Notify E n ev)" and "keeps R (NotifyCritical E n ev)"
  unfolding Notify_def NotifyCritical_def sendSMTP_def sendSlack_def Let_def using assms
  by (auto intro!: keeps_seqE keeps_catchE keeps_time_now keeps_ret keeps_fail)

end

section \<open>Relations that a reconciliation keeps\<close>

text \<open>An update of the status that leaves the entries of the other nodes alone.\<close>

definition own_update :: "string \<Rightarrow> (config_status \<Rightarrow> config_status) \<Rightarrow> bool" where
  "own_update me f \<longleftrightarrow> (\<forall>st n. n \<noteq> me \<longrightarrow> fmlookup (status_Nodes (f st)) n = fmlookup (status_Nodes st) n)"

lemma own_update_node: "own_update me (update_node me f)"
  by (simp add: own_update_def update_node_def ensureNodes_def Let_def)

lemma own_update_conditions: "own_update me (conditions_for E flags now)"
  by (auto simp: own_update_def conditions_for_def Let_def split: prod.split)

lemma own_update_fields:
  "own_update me f \<Longrightarrow> own_update me (\<lambda>st. f st\<lparr>status_LastRenewedAt := x\<rparr>)"
  "own_update me f \<Longrightarrow> own_update me (\<lambda>st. f st\<lparr>status_LastCheckedAt := x\<rparr>)"
  by (simp_all add: own_update_def)

text \<open>
  The steps of a reconciliation of node \<open>me\<close> with specification \<open>spec\<close> that are not only looking: on the
  node, and on the custom resource. A relation that each of them keeps is kept by the whole.
\<close>

locale node_frame = tick_blind R for R :: "world \<Rightarrow> world \<Rightarrow> bool" +
  fixes E :: env and me :: string and spec :: config_spec
  assumes step_backup: "keeps R (backup_Create E (spec_backup_manager spec) me)"
    and step_pair: "(name, c, k) \<in> set CertPaths \<Longrightarrow> keeps R (WriteCertKeyPair E (writer_New (PKIDir spec) False) c k x y)"
    and step_restart: "keeps R (RestartAll E (podrestart_New (ManifestsDir spec) False))"
    and step_event: "keeps R (time_sleep E d)" "keeps R (emit (EvDial a))" "keeps R (emit (EvHttpGet u))"
begin

lemmas keeps_retry = keeps_CheckAllWithRetry [OF step_event(2,3,1)]

lemma keeps_renew_cert: "keeps R (renew_cert E spec ci)"
  unfolding renew_cert_def LoadCACert_def
  by (auto intro!: keeps_seqE keeps_wrapE keeps_LoadExistingCert keeps_LoadCAKey keeps_SignWithSelfKey
      keeps_ret keeps_fail step_pair dest: map_of_SomeD split: prod.split option.split)

end

locale reconcile_frame = node_frame +
  assumes step_api: "keeps R (put_cfg cfg)" "own_update me f \<Longrightarrow> keeps R (patch_with E f)"
begin

lemma keeps_setNodePhase: "keeps R (setNodePhase E me phase reason)"
  unfolding setNodePhase_def by (intro step_api own_update_node)

lemma keeps_updateClusterConditions: "keeps R (updateClusterConditions E)"
  unfolding updateClusterConditions_def Let_def
  by (intro keeps_seqE keeps_get_cfg keeps_map_range keeps_metav1_Now step_api own_update_conditions)

lemma keeps_runRenewal: "keeps R (runRenewal E me spec det)"
  unfolding runRenewal_def setNodeBackupPath_def
  by (auto intro!: keeps_seqE keeps_wrapE step_backup step_api own_update_node keeps_for_each keeps_renew_cert
      step_restart keeps_retry keeps_ret)

lemma keeps_runRollback: "keeps R (runRollback E me spec e)"
proof -
  have "RollbackAll E m [] me None t = panic nil_deref" for m t
    unfolding RollbackAll_def rollback_order by (rule ext) (simp add: rollback_step_def rollbackNode_def seqE_run)
  then show ?thesis unfolding runRollback_def Let_def
    by (auto intro!: keeps_seqE keeps_get_cfg keeps_fail keeps_panic keeps_wrapE keeps_retry split: prod.split)
qed

lemma keeps_after_failure: "keeps R (after_failure E me spec e)"
  unfolding after_failure_def sendCriticalAlert_def sendRollbackNotification_def requeue_def Let_def
  by (intro keeps_seqE keeps_bindE keeps_ignoreE keeps_setNodePhase keeps_runRollback keeps_get_cfg
      keeps_updateClusterConditions keeps_ret keeps_unsent) (simp_all add: buildNotifier_def notifier_New_def)

lemma keeps_after_success: "keeps R (after_success E me spec)"
  unfolding after_success_def sendRenewalSuccess_def requeue_def setNodeRenewed_def
  by (intro keeps_seqE keeps_metav1_Now keeps_ignoreE step_api own_update_fields own_update_node
      keeps_updateClusterConditions keeps_ret keeps_unsent) (simp_all add: buildNotifier_def notifier_New_def)

lemma keeps_after_detection: "keeps R (after_detection E me spec det)"
  unfolding after_detection_def updateNodeCertStatus_def requeue_def
  by (auto intro!: keeps_seqE keeps_bindE keeps_metav1_Now keeps_ignoreE step_api own_update_fields own_update_node
      keeps_setNodePhase keeps_updateClusterConditions keeps_runRenewal keeps_after_failure keeps_after_success keeps_ret)

lemma keeps_fetched:
  assumes cfg: "config_Spec cfg = spec"
  shows "keeps R (reconcile_fetched E me cfg)"
  unfolding reconcile_fetched_def requeue_def Let_def cfg
  by (auto intro!: keeps_seqE keeps_bindE step_api keeps_ignoreE keeps_setNodePhase keeps_Detect
      keeps_after_detection keeps_ret)

end

text \<open>A relation that does not depend on which files are written and which object is fetched.\<close>

locale effect_frame = tick_blind R for R :: "world \<Rightarrow> world \<Rightarrow> bool" +
  fixes E :: env and me :: string
  assumes any_file: "keeps R (mkdir_one E perm p)" "keeps R (open_trunc E path perm)" "keeps R (write_data E path data)"
    and any_event: "keeps R (time_sleep E d)" "keeps R (emit (EvDial a))" "keeps R (emit (EvHttpGet u))"
begin

lemma keeps_WriteFile: "keeps R (os_WriteFile E path data perm)"
  unfolding os_WriteFile_def by (intro keeps_seqE any_file)

lemma keeps_MkdirAll: "keeps R (os_MkdirAll E path perm)"
  unfolding os_MkdirAll_def by (intro keeps_for_each any_file)

lemma keeps_Create: "keeps R (backup_Create E m node)"
  unfolding backup_Create_def create_at_def copy_or_skip_def copyFile_def Let_def
  by (auto intro!: keeps_seqE keeps_bindE keeps_for_each keeps_wrapE keeps_time_now keeps_MkdirAll keeps_Open
      keeps_file_Mode any_file keeps_io_Copy keeps_ret keeps_fail)

lemma keeps_WriteCertKeyPair: "keeps R (WriteCertKeyPair E wr c k x y)"
  unfolding WriteCertKeyPair_def WriteCert_def WriteKey_def Let_def
  by (intro keeps_seqE keeps_if keeps_wrapE keeps_MkdirAll keeps_WriteFile keeps_ret)

lemma keeps_RestartAll: "keeps R (RestartAll E m)"
  unfolding RestartAll_def restart_and_wait_def Restart_def
  by (auto intro!: keeps_for_each keeps_seqE keeps_wrapE keeps_find_manifest keeps_ReadFile keeps_inject keeps_Stat
      keeps_WriteFile any_event keeps_ret)

end

sublocale effect_frame \<subseteq> node: node_frame R E me spec for spec
  by unfold_locales (rule keeps_Create keeps_WriteCertKeyPair keeps_RestartAll any_event)+

locale confined = effect_frame +
  assumes any_api: "keeps R (client_Get E)" "keeps R (put_cfg cfg)" "own_update me f \<Longrightarrow> keeps R (patch_with E f)"

sublocale confined \<subseteq> frame: reconcile_frame R E me spec for spec
  by unfold_locales (rule any_api, assumption?)+

context confined begin

lemma keeps_Reconcile: "keeps R (Reconcile E me)"
  unfolding Reconcile_def requeue_def
  by (auto intro!: keeps_seqE any_api keeps_ret frame.keeps_fetched split: option.split)

end

section \<open>No alert leaves the node\<close>

definition is_alert :: "event \<Rightarrow> bool" where
  "is_alert e = (case e of EvMail _ _ _ _ _ \<Rightarrow> True | EvHttpPost _ _ \<Rightarrow> True | _ \<Rightarrow> False)"

lemma api_call_keeps:
  assumes "\<And>w t. R w (w\<lparr>w_tick := Suc (w_tick w), w_server := env_others E t (w_server w)\<rparr>)" and "keeps R m"
    and "\<And>s t u. R s t \<Longrightarrow> R t u \<Longrightarrow> R s u"
  shows "keeps R (api_call E m)"
proof
  fix w :: world
  let ?v = "w\<lparr>w_tick := Suc (w_tick w), w_server := env_others E (w_tick w) (w_server w)\<rparr>"
  have "R ?v (snd (m ?v))" using assms(2) by (simp add: keeps_def)
  with assms(1,3) have "R w (snd (m ?v))" by blast
  then show "R w (snd (api_call E m w))"
    using assms(1) by (simp add: api_call_def seqE_run tick_def split: option.split)
qed

interpretation silent: confined "emits (\<lambda>e. \<not> is_alert e)" E me for E me
proof unfold_locales
  have tr: "keeps (emits (\<lambda>e. \<not> is_alert e)) (api_call E m)" if "keeps (emits (\<lambda>e. \<not> is_alert e)) m" for m :: "'a go"
    using that by (intro api_call_keeps) (auto simp: emits_def intro: trace_frame.kept_trans)
  show "keeps (emits (\<lambda>e. \<not> is_alert e)) (client_Get E)"
    unfolding client_Get_def by (rule tr) (simp add: keeps_def trace_frame.kept_refl)
  have patch: "keeps (emits (\<lambda>e. \<not> is_alert e)) (Status_Patch E old)" for old
    unfolding Status_Patch_def
    by (rule tr) (auto simp: keeps_def emits_def is_alert_def Let_def split: option.split)
  show put: "keeps (emits (\<lambda>e. \<not> is_alert e)) (put_cfg cfg)" for cfg
    by (simp add: keeps_def put_cfg_def emits_def)
  show "keeps (emits (\<lambda>e. \<not> is_alert e)) (patch_with E f)" for f
    unfolding patch_with_def by (intro trace_frame.keeps_seqE trace_frame.keeps_get_cfg put patch)
qed (auto intro!: mkdir_one_keeps_trace open_trunc_keeps_trace write_data_keeps_trace sleep_keeps_trace emit_keeps_trace
     simp: is_alert_def)

text \<open>
  C26. No reconciliation ever sends an alert: on every outcome, a failed renewal and a critical failure
  included, and whatever the specification says about notifications, what it adds to the trace holds
  no mail and no post to a webhook.
\<close>

theorem alerts_never_sent:
  "\<exists>es. w_trace (snd (Reconcile E me w)) = w_trace w @ es \<and> list_all (\<lambda>e. \<not> is_alert e) es"
  using silent.keeps_Reconcile by (auto simp: keeps_def emits_def list_all_iff)

section \<open>The entries of the other nodes\<close>

text \<open>
  What is relied on of a merge patch: it sets what differs between the two objects of the client, as
  long as the server's object has the client's old value, and leaves the rest as the server has it;
  a patch of the status does not change the specification.
\<close>

definition merged_value :: "'a \<Rightarrow> 'a \<Rightarrow> 'a \<Rightarrow> 'a \<Rightarrow> bool" where
  "merged_value old new srv m \<longleftrightarrow> (old = new \<longrightarrow> m = srv) \<and> (srv = old \<longrightarrow> m = new)"

definition merge_contract :: "env \<Rightarrow> bool" where
  "merge_contract E \<longleftrightarrow> (\<forall>old new srv.
     let m = env_merge E old new srv; a = config_Status old; b = config_Status new; s = config_Status srv; c = config_Status m in
     config_Spec m = config_Spec srv \<and> config_Name m = config_Name srv \<and>
     (\<forall>n. merged_value (fmlookup (status_Nodes a) n) (fmlookup (status_Nodes b) n) (fmlookup (status_Nodes s) n) (fmlookup (status_Nodes c) n)) \<and>
     merged_value (status_Phase a) (status_Phase b) (status_Phase s) (status_Phase c) \<and>
     merged_value (status_Conditions a) (status_Conditions b) (status_Conditions s) (status_Conditions c))"

text \<open>Nobody else touches the custom resource while the reconciliation runs.\<close>

definition alone :: "env \<Rightarrow> bool" where
  "alone E \<longleftrightarrow> (\<forall>t srv. env_others E t srv = srv)"

text \<open>The cache of the manager has caught up whenever it is read.\<close>

definition fresh_reads :: "env \<Rightarrow> bool" where
  "fresh_reads E \<longleftrightarrow> (\<forall>t srv. env_cached E t srv = srv)"

definition others_kept :: "string \<Rightarrow> world \<Rightarrow> world \<Rightarrow> bool" where
  "others_kept me w w' \<longleftrightarrow>
     (case w_server w of
        None \<Rightarrow> w_server w' = None
      | Some s \<Rightarrow> \<exists>s'. w_server w' = Some s' \<and> config_Spec s' = config_Spec s \<and>
          (\<forall>n. n \<noteq> me \<longrightarrow> fmlookup (status_Nodes (config_Status s')) n = fmlookup (status_Nodes (config_Status s)) n))"

lemma others_kept_same: "w_server w' = w_server w \<Longrightarrow> others_kept me w w'"
  by (simp add: others_kept_def split: option.split)

lemma others_kept_api: "same_api w w' \<Longrightarrow> others_kept me w w'"
  by (rule others_kept_same) (simp add: same_api_def)

lemma own_patch_merge:
  assumes "merge_contract E" and "own_update me f"
  shows "config_Spec (env_merge E old (old\<lparr>config_Status := f (config_Status old)\<rparr>) srv) = config_Spec srv"
    and "n \<noteq> me \<Longrightarrow> fmlookup (status_Nodes (config_Status (env_merge E old (old\<lparr>config_Status := f (config_Status old)\<rparr>) srv))) n =
      fmlookup (status_Nodes (config_Status srv)) n"
  using assms by (auto simp: merge_contract_def own_update_def Let_def merged_value_def)

lemma confined_others:
  assumes merge: "merge_contract E" and alone: "alone E"
  shows "confined (others_kept me) E me"
proof unfold_locales
  show "others_kept me s s" for s by (rule others_kept_same) simp
  show trans: "others_kept me s u" if "others_kept me s t" "others_kept me t u" for s t u
    using that by (auto simp: others_kept_def split: option.splits)
  show "others_kept me w (w\<lparr>w_tick := n\<rparr>)" for w :: world and n by (rule others_kept_same) simp
  have tr: "keeps (others_kept me) (api_call E m)" if "keeps (others_kept me) m" for m :: "'a go"
    using that alone by (intro api_call_keeps) (auto simp: alone_def intro: others_kept_same trans)
  show "keeps (others_kept me) (client_Get E)"
    unfolding client_Get_def by (rule tr) (simp add: keeps_def others_kept_same)
  show "keeps (others_kept me) (put_cfg cfg)" for cfg
    by (simp add: keeps_def put_cfg_def others_kept_same)
  show "keeps (others_kept me) (patch_with E f)" if f: "own_update me f" for f
  proof
    fix w :: world
    show "others_kept me w (snd (patch_with E f w))"
      using alone own_patch_merge [OF merge f, where old = "w_cfg w"]
      by (auto simp: patch_with_def Status_Patch_def api_call_def seqE_run get_cfg_def put_cfg_def tick_def alone_def
          others_kept_def Let_def split: option.split)
  qed
  show "keeps (others_kept me) (mkdir_one E perm p)" "keeps (others_kept me) (open_trunc E path perm)"
    "keeps (others_kept me) (write_data E path data)" "keeps (others_kept me) (time_sleep E d)"
    "keeps (others_kept me) (emit (EvDial a))" "keeps (others_kept me) (emit (EvHttpGet u))" for perm p path data d a u
    by (rule keeps_mono [OF _ others_kept_api], rule mkdir_one_keeps_api open_trunc_keeps_api write_data_keeps_api
        sleep_keeps_api emit_keeps_api, assumption)+
qed

text \<open>
  C8. A node changes its own entry of the status only: while nobody else writes, after a reconciliation
  with any outcome the specification and the entry of every other node on the server are as before.
\<close>

theorem only_own_entry:
  assumes "merge_contract E" and "alone E" and "w_server w = Some srv" and "n \<noteq> me"
  shows "\<exists>srv'. w_server (snd (Reconcile E me w)) = Some srv' \<and> config_Spec srv' = config_Spec srv \<and>
    fmlookup (status_Nodes (config_Status srv')) n = fmlookup (status_Nodes (config_Status srv)) n"
proof -
  from confined.keeps_Reconcile [OF confined_others [OF assms(1,2), of me]]
  have "others_kept me w (snd (Reconcile E me w))" by (simp add: keeps_def)
  then show ?thesis using assms(3,4) by (auto simp: others_kept_def)
qed

end
