(* ===== verification/Reconcile_Outcomes.thy ===== *)
theory Reconcile_Outcomes
  imports Reconcile_Frames
begin

text \<open>
  What a reconciliation does: the files it may write, the critical state, the ways a renewal fails and
  what becomes of it, the dry run, the conditions of the cluster and the delays.
\<close>

section \<open>The files of a reconciliation\<close>

text \<open>Certificates and keys with a place in the PKI directory, the backups of this node, the manifests.\<close>

definition reconcile_files :: "string \<Rightarrow> config_spec \<Rightarrow> fpath set" where
  "reconcile_files me spec =
     (\<Union>(name, c, k)\<in>set CertPaths. {resolve (filepath_Join [PKIDir spec, c]), resolve (filepath_Join [PKIDir spec, k])}) \<union>
     (\<Union>t. backup_paths (filepath_Join [BackupDir spec, me, backup_stamp t])) \<union>
     manifest_files (podrestart_New (ManifestsDir spec) False)"

lemma touches_frame: "reconcile_frame (touches (reconcile_files me spec)) E me spec"
proof unfold_locales
  let ?R = "touches (reconcile_files me spec)"
  show "keeps ?R (backup_Create E (spec_backup_manager spec) me)"
  proof -
    have sub: "backup_paths (filepath_Join [BackupDir spec, me, backup_stamp t]) \<subseteq> reconcile_files me spec" for t
      unfolding reconcile_files_def by blast
    have "keeps ?R (create_at E (spec_backup_manager spec) me (filepath_Join [BackupDir spec, me, backup_stamp t]))" for t
      by (rule keeps_mono [OF create_at_touches touches_mono [OF _ sub]])
    then show ?thesis unfolding backup_Create_def
      by (intro touch_frame.keeps_seqE touch_frame.keeps_time_now) (simp add: spec_backup_manager_def backup_New_def)
  qed
  show "keeps ?R (WriteCertKeyPair E (writer_New (PKIDir spec) False) c k x y)" if "(name, c, k) \<in> set CertPaths" for name c k x y
  proof -
    have "resolve (filepath_Join [PKIDir spec, c]) \<in> reconcile_files me spec"
      "resolve (filepath_Join [PKIDir spec, k]) \<in> reconcile_files me spec"
      using that unfolding reconcile_files_def by blast+
    then show ?thesis unfolding WriteCertKeyPair_def WriteCert_def WriteKey_def Let_def writer_New_def
      by (intro touch_frame.keeps_seqE touch_frame.keeps_if touch_frame.keeps_wrapE MkdirAll_touches WriteFile_touches
          touch_frame.keeps_ret) simp_all
  qed
  show "keeps ?R (RestartAll E (podrestart_New (ManifestsDir spec) False))"
    by (rule keeps_mono [OF RestartAll_touches touches_mono]) (auto simp: reconcile_files_def)
  have api: "keeps ?R (api_call E m)" if "keeps ?R m" for m :: "'a go"
    by (rule api_call_keeps) (simp add: touches_def, rule that, rule touch_frame.kept_trans)
  show put: "keeps ?R (put_cfg cfg)" for cfg by (simp add: keeps_def put_cfg_def touches_def)
  have "keeps ?R (Status_Patch E old)" for old
    unfolding Status_Patch_def
    by (rule api) (auto simp: keeps_def touches_def Let_def split: option.split)
  then show "keeps ?R (patch_with E f)" for f
    unfolding patch_with_def by (intro touch_frame.keeps_seqE touch_frame.keeps_get_cfg put)
qed (auto intro: sleep_touches emit_touches)

lemma client_Get_run:
  "client_Get E w = (let v = w\<lparr>w_tick := Suc (w_tick w), w_server := env_others E (w_tick w) (w_server w)\<rparr> in
     case env_api_fault E (w_tick w) of Some e \<Rightarrow> (Err e, v) | None \<Rightarrow> (Ok (env_cached E (w_tick v) (w_server v)), v))"
  by (simp add: client_Get_def api_call_def seqE_run tick_def Let_def split: option.split)

text \<open>
  C16. A reconciliation, whatever its outcome, writes no file but the certificates and keys of the
  writer's table, the copies in a backup directory of this node and the manifests of the static pods:
  every other regular file, the kubeconfigs and the CA's own files among them, is as it was (the paths are
  those of the object as it was read).
\<close>

theorem Reconcile_writes:
  assumes "env_cached E (Suc (w_tick w)) (env_others E (w_tick w) (w_server w)) = Some cfg" and "p \<notin> reconcile_files me (config_Spec cfg)"
  shows "fs_get (w_fs (snd (Reconcile E me w))) p = Some (Reg d md) \<longleftrightarrow> fs_get (w_fs w) p = Some (Reg d md)"
proof -
  let ?v = "w\<lparr>w_tick := Suc (w_tick w), w_server := env_others E (w_tick w) (w_server w)\<rparr>" and ?A = "reconcile_files me (config_Spec cfg)"
  have "touches ?A ?v (snd (reconcile_fetched E me cfg ?v))"
    using reconcile_frame.keeps_fetched [OF touches_frame refl] by (simp add: keeps_def)
  then have "touches ?A w (snd (Reconcile E me w))"
    using assms(1) by (auto simp: Reconcile_def seqE_run client_Get_run Let_def touches_def split: option.split)
  then show ?thesis using touches_reg_iff assms(2) by blast
qed

section \<open>The critical state\<close>

text \<open>
  A node in the critical state is left alone: the reconciliation reads the custom resource, asks to
  be called again in an hour, and changes nothing: no file, no event, no patch. Only a change of the
  resource by someone else ends the state.
\<close>

theorem critical_is_left_alone:
  assumes "env_cached E (Suc (w_tick w)) (env_others E (w_tick w) (w_server w)) = Some cfg" and "env_api_fault E (w_tick w) = None"
    and "is_critical_node me cfg"
  shows "Reconcile E me w = (Ok \<lparr>RequeueAfter = ns_hour\<rparr>,
    w\<lparr>w_tick := Suc (w_tick w), w_server := env_others E (w_tick w) (w_server w), w_cfg := cfg\<rparr>)"
  using assms by (simp add: Reconcile_def seqE_run client_Get_run reconcile_fetched_def requeue_def put_cfg_def Let_def)

section \<open>Rolling back\<close>

definition backup_path_of :: "string \<Rightarrow> cert_rotation_config \<Rightarrow> string" where
  "backup_path_of me cfg = (case fmlookup (status_Nodes (config_Status cfg)) me of None \<Rightarrow> '''' | Some ns \<Rightarrow> node_BackupPath ns)"

lemma rollback_panics: "RollbackAll E m [] me None t = panic nil_deref"
  unfolding RollbackAll_def rollback_order by (rule ext) (simp add: rollback_step_def rollbackNode_def seqE_run)

lemma runRollback_run:
  "\<exists>e. runRollback E me spec renewErr w =
     (if backup_path_of me (w_cfg w) = '''' then Err e else Panic nil_deref, w)"
  by (auto simp: runRollback_def backup_path_of_def seqE_run get_cfg_def rollback_panics Let_def)

section \<open>Renewals that cannot succeed\<close>

text \<open>
  C18. A certificate without a place in the writer's table, which every kubeconfig certificate is, makes
  the renewal of the whole node fail when it is due (outside a dry run): \<^verbatim>\<open>runRenewal\<close> never returns
  nil then, whatever it has done to the certificates before it.
\<close>

theorem unplaced_cert_blocks_renewal:
  assumes "c \<in> set (dr_Certs det)" and "ci_Status c \<noteq> StatusOK" and "map_of CertPaths (ci_Name c) = None"
    and "\<not> DryRun spec"
  shows "fst (runRenewal E me spec det w) \<noteq> Ok ()"
proof
  assume ok: "fst (runRenewal E me spec det w) = Ok ()"
  obtain w' where "runRenewal E me spec det w = (Ok (), w')" using ok by (metis prod.collapse)
  then obtain w1 w2 where "for_each (renew_cert E spec) (dr_Certs det) w1 = (Ok (), w2)"
    using assms(4) by (auto simp: runRenewal_def ok_iff)
  moreover obtain xs ys where "dr_Certs det = xs @ c # ys" using assms(1) by (meson split_list)
  ultimately obtain v v' where "renew_cert E spec c v = (Ok (), v')" by (auto simp: for_each_append ok_iff)
  then show False using assms(2,3) by (auto simp: renew_cert_def ok_iff split: prod.splits)
qed

text \<open>Every name that \<^verbatim>\<open>Detect\<close> gives to a kubeconfig certificate is such a name.\<close>

lemma kubeconfig_names_unplaced: "name \<in> fst ` set kubeconfigCerts \<Longrightarrow> map_of CertPaths name = None"
  by (auto simp: kubeconfigCerts_def CertPaths_def)

end
