(* ===== verification/Reconcile_Phases.thy ===== *)
theory Reconcile_Phases
  imports Reconcile_Outcomes
begin

text \<open>
  The phases of a node as a state machine: the steps that a reconciliation patches into the status,
  with assertions carried through its code, while the API server answers and nobody else writes.
\<close>

section \<open>The state machine\<close>

inductive phase_step :: "node_phase \<Rightarrow> node_phase \<Rightarrow> bool" where
  start: "p \<noteq> NodePhaseCritical \<Longrightarrow> phase_step p NodePhaseDetecting"
| detection_failed: "phase_step NodePhaseDetecting NodePhaseFailed"
| healthy: "phase_step NodePhaseDetecting NodePhaseIdle"
| renew: "phase_step NodePhaseDetecting NodePhaseRenewing"
| renewed: "phase_step NodePhaseRenewing NodePhaseIdle"
| failing: "phase_step NodePhaseRenewing NodePhaseRollingBack"
| give_up: "phase_step NodePhaseRollingBack NodePhaseCritical"

inductive_cases phase_step_from_critical: "phase_step NodePhaseCritical q"
inductive_simps phase_step_to_critical: "phase_step p NodePhaseCritical"
code_pred phase_step .

text \<open>The phase of a node in a status; a node without an entry counts as idle, as \<^verbatim>\<open>ensureNodes\<close> makes it.\<close>

definition phase_in :: "string \<Rightarrow> config_status \<Rightarrow> node_phase" where
  "phase_in me st = (case fmlookup (status_Nodes st) me of None \<Rightarrow> NodePhaseIdle | Some ns \<Rightarrow> node_Phase ns)"

text \<open>A trace follows the machine: each patch keeps the phase or takes a step.\<close>

fun phase_path :: "string \<Rightarrow> node_phase \<Rightarrow> event list \<Rightarrow> bool" where
  "phase_path me p [] = True"
| "phase_path me p (EvPatch st # es) =
     ((phase_in me st = p \<or> phase_step p (phase_in me st)) \<and> phase_path me (phase_in me st) es)"
| "phase_path me p (e # es) = phase_path me p es"

fun last_phase :: "string \<Rightarrow> node_phase \<Rightarrow> event list \<Rightarrow> node_phase" where
  "last_phase me p [] = p"
| "last_phase me p (EvPatch st # es) = last_phase me (phase_in me st) es"
| "last_phase me p (e # es) = last_phase me p es"

lemma phase_path_append: "phase_path me p (es @ fs) \<longleftrightarrow> phase_path me p es \<and> phase_path me (last_phase me p es) fs"
  by (induction me p es rule: phase_path.induct) auto

lemma last_phase_append: "last_phase me p (es @ fs) = last_phase me (last_phase me p es) fs"
  by (induction me p es rule: phase_path.induct) auto

text \<open>Along a path that follows the machine, the last phase is reachable from the first.\<close>

lemma phase_path_reachable: "phase_path me p es \<Longrightarrow> phase_step\<^sup>*\<^sup>* p (last_phase me p es)"
proof (induction me p es rule: phase_path.induct)
  case (2 me p st es)
  then have "phase_step\<^sup>*\<^sup>* (phase_in me st) (last_phase me p (EvPatch st # es))" by simp
  moreover have "phase_step\<^sup>*\<^sup>* p (phase_in me st)" using 2 by auto
  ultimately show ?case by (rule rtranclp_trans [rotated])
qed auto

lemma critical_is_final: "phase_step\<^sup>*\<^sup>* NodePhaseCritical q \<Longrightarrow> q = NodePhaseCritical"
  by (induction rule: rtranclp_induct) (auto elim: phase_step_from_critical)

section \<open>Assertions\<close>

definition triple :: "('s \<Rightarrow> bool) \<Rightarrow> ('s, 'a) run \<Rightarrow> ('a outcome \<Rightarrow> 's \<Rightarrow> bool) \<Rightarrow> bool" where
  "triple P m Q \<longleftrightarrow> (\<forall>s. P s \<longrightarrow> (case m s of (r, s') \<Rightarrow> Q r s'))"

lemma tripleD: "triple P m Q \<Longrightarrow> P s \<Longrightarrow> m s = (r, s') \<Longrightarrow> Q r s'"
  by (auto simp: triple_def)

lemma triple_weaken: "triple P m Q \<Longrightarrow> (\<And>r s. Q r s \<Longrightarrow> Q' r s) \<Longrightarrow> triple P m Q'"
  by (auto simp: triple_def split: prod.splits)

lemma triple_bindE:
  assumes "triple P m M" and "\<And>x. triple (M (Ok x)) (k x) Q" and "\<And>e. triple (M (Err e)) (h e) Q"
    and "\<And>p s. M (Panic p) s \<Longrightarrow> Q (Panic p) s"
  shows "triple P (bindE m h k) Q"
  unfolding triple_def
proof (intro allI impI)
  fix s assume "P s"
  obtain r t where m: "m s = (r, t)" by (cases "m s")
  have M: "M r t" using tripleD [OF assms(1) \<open>P s\<close> m] .
  show "case bindE m h k s of (r, s') \<Rightarrow> Q r s'"
    using assms(2,3,4) M m by (cases r) (auto simp: bindE_run triple_def)
qed

lemma triple_seqE:
  assumes "triple P m M" and "\<And>x. triple (M (Ok x)) (k x) Q"
    and "\<And>e s. M (Err e) s \<Longrightarrow> Q (Err e) s" and "\<And>p s. M (Panic p) s \<Longrightarrow> Q (Panic p) s"
  shows "triple P (seqE m k) Q"
  unfolding seqE_def by (rule triple_bindE [OF assms(1,2)]) (use assms(3,4) in \<open>auto simp: triple_def\<close>)

lemma triple_ret: "(\<And>s. P s \<Longrightarrow> Q (Ok x) s) \<Longrightarrow> triple P (ret x) Q"
  by (simp add: triple_def)

lemma triple_if: "(b \<Longrightarrow> triple P f Q) \<Longrightarrow> (\<not> b \<Longrightarrow> triple P g Q) \<Longrightarrow> triple P (if b then f else g) Q"
  by simp

section \<open>Patches while the client's object and the server's agree\<close>

definition own :: "string \<Rightarrow> cert_rotation_config \<Rightarrow> node_status option" where
  "own me cfg = fmlookup (status_Nodes (config_Status cfg)) me"

definition synced :: "string \<Rightarrow> world \<Rightarrow> bool" where
  "synced me w \<longleftrightarrow> (\<exists>srv. w_server w = Some srv \<and> own me srv = own me (w_cfg w))"

text \<open>The API answers, nobody else writes, and the object is read as it is on the server.\<close>

definition answering :: "env \<Rightarrow> bool" where
  "answering E \<longleftrightarrow> merge_contract E \<and> alone E \<and> fresh_reads E \<and> (\<forall>t. env_api_fault E t = None)"

lemma patch_synced:
  assumes "answering E" and "synced me w"
  shows "\<exists>m. patch_with E f w = (Ok (), w\<lparr>w_tick := Suc (w_tick w), w_cfg := m, w_server := Some m,
      w_trace := w_trace w @ [EvPatch (config_Status m)]\<rparr>) \<and>
    own me m = fmlookup (status_Nodes (f (config_Status (w_cfg w)))) me"
proof -
  from assms(2) obtain srv where srv: "w_server w = Some srv" "own me srv = own me (w_cfg w)"
    by (auto simp: synced_def)
  let ?m = "env_merge E (w_cfg w) (w_cfg w\<lparr>config_Status := f (config_Status (w_cfg w))\<rparr>) srv"
  have "own me ?m = fmlookup (status_Nodes (f (config_Status (w_cfg w)))) me"
    using assms(1) srv(2) by (auto simp: answering_def merge_contract_def merged_value_def own_def Let_def)
  then show ?thesis using assms(1) srv(1)
    by (intro exI [of _ ?m])
       (simp add: patch_with_def Status_Patch_def api_call_def seqE_run get_cfg_def put_cfg_def tick_def answering_def alone_def Let_def)
qed

text \<open>
  The assertion at a point of the code: the client and the server agree on the own entry, its phase is
  \<open>q\<close>, and the patches since \<open>w0\<close> followed the machine from \<open>p\<close> to \<open>q\<close>.
\<close>

definition at_phase :: "string \<Rightarrow> node_phase \<Rightarrow> world \<Rightarrow> node_phase \<Rightarrow> world \<Rightarrow> bool" where
  "at_phase me p w0 q w \<longleftrightarrow> synced me w \<and> phase_in me (config_Status (w_cfg w)) = q \<and>
     (\<exists>es. w_trace w = w_trace w0 @ es \<and> phase_path me p es \<and> last_phase me p es = q)"

text \<open>Operations that neither patch nor touch the objects keep every assertion.\<close>

definition patchless :: "world \<Rightarrow> world \<Rightarrow> bool" where
  "patchless w w' \<longleftrightarrow> same_api w w' \<and> emits (\<lambda>e. \<forall>st. e \<noteq> EvPatch st) w w'"

interpretation patchless: tick_blind patchless
proof unfold_locales
  show "patchless s u" if "patchless s t" "patchless t u" for s t u
    using that unfolding patchless_def by (blast intro: api_frame.kept_trans trace_frame.kept_trans)
qed (simp_all add: patchless_def api_frame.kept_refl trace_frame.kept_refl same_api_def emits_def)

lemma path_without_patches:
  "list_all (\<lambda>e. \<forall>st. e \<noteq> EvPatch st) es \<Longrightarrow> phase_path me q es \<and> last_phase me q es = q"
  by (induction me q es rule: phase_path.induct) auto

lemma at_phase_patchless: "at_phase me p w0 q w \<Longrightarrow> patchless w w' \<Longrightarrow> at_phase me p w0 q w'"
  unfolding at_phase_def patchless_def emits_def synced_def same_api_def
  by (auto simp: phase_path_append last_phase_append list_all_iff [symmetric] dest: path_without_patches)

lemma triple_patchless: "keeps patchless m \<Longrightarrow> triple (at_phase me p w0 q) m (\<lambda>r. at_phase me p w0 q)"
  unfolding triple_def by (auto intro: at_phase_patchless dest: keepsD split: prod.splits)

lemma triple_patch:
  assumes "answering E"
    and "\<And>st. phase_in me st = q \<Longrightarrow> phase_in me (f st) = q'" and "q' = q \<or> phase_step q q'"
  shows "triple (at_phase me p w0 q) (patch_with E f) (\<lambda>r w. r = Ok () \<and> at_phase me p w0 q' w)"
  unfolding triple_def
proof (intro allI impI)
  fix w assume at: "at_phase me p w0 q w"
  then have "synced me w" by (simp add: at_phase_def)
  from patch_synced [OF assms(1) this, of f] obtain m where
    m: "patch_with E f w = (Ok (), w\<lparr>w_tick := Suc (w_tick w), w_cfg := m, w_server := Some m,
      w_trace := w_trace w @ [EvPatch (config_Status m)]\<rparr>)" and
    own: "own me m = fmlookup (status_Nodes (f (config_Status (w_cfg w)))) me" by blast
  have "phase_in me (config_Status m) = phase_in me (f (config_Status (w_cfg w)))"
    using own by (simp add: phase_in_def own_def)
  also have "\<dots> = q'" using at by (intro assms(2)) (simp add: at_phase_def)
  finally have q': "phase_in me (config_Status m) = q'" .
  from at obtain es where "w_trace w = w_trace w0 @ es" "phase_path me p es" "last_phase me p es = q"
    by (auto simp: at_phase_def)
  then show "case patch_with E f w of (r, w) \<Rightarrow> r = Ok () \<and> at_phase me p w0 q' w"
    using m q' assms(3) by (auto simp: at_phase_def synced_def phase_path_append last_phase_append)
qed

section \<open>The steps of a reconciliation\<close>

lemma patchlessI:
  "keeps same_api m \<Longrightarrow> keeps (emits (\<lambda>e. \<forall>st. e \<noteq> EvPatch st)) m \<Longrightarrow> keeps patchless m"
  by (simp add: keeps_def patchless_def)

interpretation patchless_node: effect_frame patchless E me for E me
  by (unfold_locales; rule patchlessI)
    (auto intro!: mkdir_one_keeps_api open_trunc_keeps_api write_data_keeps_api sleep_keeps_api emit_keeps_api
      mkdir_one_keeps_trace open_trunc_keeps_trace write_data_keeps_trace sleep_keeps_trace emit_keeps_trace)

lemma phase_in_update [simp]: "phase_in me (update_node me f st) =
    node_Phase (f (case fmlookup (status_Nodes st) me of None \<Rightarrow> fresh_node me | Some ns \<Rightarrow> ns))"
  by (simp add: phase_in_def update_node_def ensureNodes_def Let_def split: option.split)

lemma phase_in_fields [simp]:
  "phase_in me (st\<lparr>status_LastRenewedAt := x\<rparr>) = phase_in me st"
  "phase_in me (st\<lparr>status_LastCheckedAt := x\<rparr>) = phase_in me st"
  "phase_in me (conditions_for E flags now st) = phase_in me st"
  by (simp_all add: phase_in_def conditions_for_def Let_def split: prod.split)

lemma phase_of_entry: "node_Phase (case fmlookup (status_Nodes st) me of None \<Rightarrow> fresh_node me | Some ns \<Rightarrow> ns) = phase_in me st"
  by (simp add: phase_in_def fresh_node_def split: option.split)

lemma triple_setNodePhase:
  "answering E \<Longrightarrow> phase_step q q' \<Longrightarrow>
    triple (at_phase me p w0 q) (setNodePhase E me q' reason) (\<lambda>r w. r = Ok () \<and> at_phase me p w0 q' w)"
  unfolding setNodePhase_def by (rule triple_patch) (auto simp: Let_def)

lemma triple_ignoreE:
  "triple P m (\<lambda>r w. r = Ok u \<and> Q w) \<Longrightarrow> triple P (ignoreE m) (\<lambda>r w. r = Ok () \<and> Q w)"
  by (auto simp: triple_def ignoreE_def bindE_run split: prod.splits)

lemma triple_then: "triple P m (\<lambda>r w. r = Ok () \<and> M w) \<Longrightarrow> triple M (k ()) Q \<Longrightarrow> triple P (seqE m k) Q"
  by (rule triple_seqE [where M = "\<lambda>r w. r = Ok () \<and> M w"]) (auto simp: triple_def)

lemma triple_returns:
  assumes "keeps patchless m" and "returns m"
  shows "triple (at_phase me p w0 q) m (\<lambda>r w. (\<forall>e. r \<noteq> Panic e) \<and> at_phase me p w0 q w)"
  unfolding triple_def using assms by (auto intro: at_phase_patchless dest: keepsD returnsD split: prod.splits)

text \<open>A call that always gives a value, and does not patch.\<close>

lemma triple_value:
  assumes "keeps patchless m" and "\<And>w. \<exists>x w'. m w = (Ok x, w')"
  shows "triple (at_phase me p w0 q) m (\<lambda>r w. (\<exists>x. r = Ok x) \<and> at_phase me p w0 q w)"
  unfolding triple_def
proof (intro allI impI)
  fix w assume at: "at_phase me p w0 q w"
  obtain x w' where m: "m w = (Ok x, w')" using assms(2) by blast
  then show "case m w of (r, w) \<Rightarrow> (\<exists>x. r = Ok x) \<and> at_phase me p w0 q w"
    using at_phase_patchless [OF at keepsD [OF assms(1) m]] by simp
qed

lemma triple_let:
  "triple P m (\<lambda>r w. (\<exists>x. r = Ok x) \<and> M w) \<Longrightarrow> (\<And>x. triple M (k x) Q) \<Longrightarrow> triple P (seqE m k) Q"
  by (rule triple_seqE [where M = "\<lambda>r w. (\<exists>x. r = Ok x) \<and> M w"]) (auto simp: triple_def)

lemma triple_now:
  "triple (at_phase me p w0 q) (metav1_Now E) (\<lambda>r w. (\<exists>x. r = Ok x) \<and> at_phase me p w0 q w)"
  by (rule triple_value [OF patchless.keeps_metav1_Now]) (simp add: metav1_Now_def seqE_run time_now_run)

lemma triple_conditions:
  assumes "answering E"
  shows "triple (at_phase me p w0 q) (updateClusterConditions E) (\<lambda>r w. r = Ok () \<and> at_phase me p w0 q w)"
  unfolding updateClusterConditions_def Let_def
proof (intro triple_let)
  show "triple (at_phase me p w0 q) get_cfg (\<lambda>r w. (\<exists>x. r = Ok x) \<and> at_phase me p w0 q w)"
    by (rule triple_value [OF patchless.keeps_get_cfg]) (simp add: get_cfg_def)
  show "triple (at_phase me p w0 q) (map_range E ns) (\<lambda>r w. (\<exists>x. r = Ok x) \<and> at_phase me p w0 q w)" for ns :: "string list"
    by (rule triple_value [OF patchless.keeps_map_range]) (simp add: map_range_def seqE_run tick_def)
  show "triple (at_phase me p w0 q) (metav1_Now E) (\<lambda>r w. (\<exists>x. r = Ok x) \<and> at_phase me p w0 q w)" by (rule triple_now)
  show "triple (at_phase me p w0 q) (patch_with E (conditions_for E flags t)) (\<lambda>r w. r = Ok () \<and> at_phase me p w0 q w)" for flags t
    by (rule triple_patch [OF assms]) simp_all
qed

lemma returns_Detect: "returns (Detect E d node)"
  unfolding Detect_def detect_pki_def detect_kubeconfig_def parseCert_def parsePEMCert_def parseKubeconfigCert_def Let_def
  by (intro returns_intro) (auto intro!: returns_intro split: prod.split option.split sum.split)

text \<open>Where a reconciliation that began at \<open>w0\<close> in phase \<open>p\<close> may end.\<close>

definition ends_well :: "string \<Rightarrow> node_phase \<Rightarrow> world \<Rightarrow> ctrl_result outcome \<Rightarrow> world \<Rightarrow> bool" where
  "ends_well me p w0 r w \<longleftrightarrow> (\<exists>q. at_phase me p w0 q w \<and>
     (case r of Ok _ \<Rightarrow> q \<in> {NodePhaseIdle, NodePhaseFailed, NodePhaseCritical}
      | Err _ \<Rightarrow> False
      | Panic _ \<Rightarrow> q \<in> {NodePhaseRenewing, NodePhaseRollingBack}))"

lemma triple_requeue:
  "q \<in> {NodePhaseIdle, NodePhaseFailed, NodePhaseCritical} \<Longrightarrow> triple (at_phase me p w0 q) (requeue d) (ends_well me p w0)"
  unfolding requeue_def by (rule triple_ret) (auto simp: ends_well_def)

lemma triple_silent:
  assumes "keeps patchless m" and "\<And>w. \<exists>w'. m w = (Ok (), w')"
  shows "triple (at_phase me p w0 q) m (\<lambda>r w. r = Ok () \<and> at_phase me p w0 q w)"
  unfolding triple_def
proof (intro allI impI)
  fix w assume at: "at_phase me p w0 q w"
  obtain w' where m: "m w = (Ok (), w')" using assms(2) by blast
  then show "case m w of (r, w) \<Rightarrow> r = Ok () \<and> at_phase me p w0 q w"
    using at_phase_patchless [OF at keepsD [OF assms(1) m]] by simp
qed

lemma buildNotifier_unset: "smtp_Host (n_smtp (buildNotifier spec)) = ''''" "slack_WebhookURL (n_slack (buildNotifier spec)) = ''''"
  by (simp_all add: buildNotifier_def notifier_New_def)

lemma unsent_run:
  assumes "smtp_Host (n_smtp n) = ''''" and "slack_WebhookURL (n_slack n) = ''''"
  shows "NotifyCritical E n ev w = (Ok (), w\<lparr>w_tick := Suc (w_tick w)\<rparr>)"
    and "ignoreE (Notify E n ev) w = (Ok (), w\<lparr>w_tick := Suc (w_tick w)\<rparr>)"
  using assms
  by (simp_all add: NotifyCritical_def Notify_def ignoreE_def time_now_def go_run tick_def sendSMTP_def sendSlack_def error_line_def Let_def)

lemma triple_alert:
  "triple (at_phase me p w0 q) (sendCriticalAlert E me spec msg) (\<lambda>r w. r = Ok () \<and> at_phase me p w0 q w)"
  "triple (at_phase me p w0 q) (sendRenewalSuccess E me spec) (\<lambda>r w. r = Ok () \<and> at_phase me p w0 q w)"
  unfolding sendCriticalAlert_def sendRenewalSuccess_def
  by (rule triple_silent; auto simp: unsent_run buildNotifier_unset patchless.keeps_unsent patchless.keeps_ignoreE)+

lemma triple_runRollback:
  "triple (at_phase me p w0 q) (runRollback E me spec e) (\<lambda>r w. (\<forall>x. r \<noteq> Ok x) \<and> at_phase me p w0 q w)"
  unfolding triple_def
proof (intro allI impI)
  fix w assume at: "at_phase me p w0 q w"
  obtain e' where "runRollback E me spec e w = (if backup_path_of me (w_cfg w) = '''' then Err e' else Panic nil_deref, w)"
    using runRollback_run by blast
  then show "case runRollback E me spec e w of (r, w) \<Rightarrow> (\<forall>x. r \<noteq> Ok x) \<and> at_phase me p w0 q w" using at by simp
qed

lemma triple_after_failure:
  assumes "answering E"
  shows "triple (at_phase me p w0 NodePhaseRenewing) (after_failure E me spec e) (ends_well me p w0)"
  unfolding after_failure_def Let_def
proof (rule triple_then [OF triple_ignoreE [OF triple_setNodePhase [OF assms failing]]], rule triple_bindE [OF triple_runRollback])
  fix e'
  show "triple (\<lambda>w. (\<forall>x. Err e' \<noteq> Ok x) \<and> at_phase me p w0 NodePhaseRollingBack w)
     (seqE (ignoreE (setNodePhase E me NodePhaseCritical (critical_message e e')))
       (\<lambda>_. seqE (sendCriticalAlert E me spec (critical_message e e'))
       (\<lambda>_. seqE (ignoreE (updateClusterConditions E)) (\<lambda>_. requeue 0)))) (ends_well me p w0)"
    unfolding outcome.distinct not_True_eq_False
    by (simp, rule triple_then [OF triple_ignoreE [OF triple_setNodePhase [OF assms give_up]]],
        rule triple_then [OF triple_alert(1)], rule triple_then [OF triple_ignoreE [OF triple_conditions [OF assms]]],
        rule triple_requeue, simp)
qed (auto simp: triple_def ends_well_def)

lemma triple_after_success:
  assumes "answering E"
  shows "triple (at_phase me p w0 NodePhaseRenewing) (after_success E me spec) (ends_well me p w0)"
  unfolding after_success_def
proof (rule triple_let [OF triple_now])
  have renewed: "triple (at_phase me p w0 NodePhaseRenewing) (setNodeRenewed E me t) (\<lambda>r w. r = Ok () \<and> at_phase me p w0 NodePhaseIdle w)" for t
    unfolding setNodeRenewed_def by (rule triple_patch [OF assms]) (auto intro: phase_step.intros)
  show "triple (at_phase me p w0 NodePhaseRenewing)
     (seqE (setNodeRenewed E me t) (\<lambda>_. seqE (sendRenewalSuccess E me spec)
       (\<lambda>_. seqE (ignoreE (updateClusterConditions E)) (\<lambda>_. requeue (requeueWithJitter me spec))))) (ends_well me p w0)" for t
    by (rule triple_then [OF renewed], rule triple_then [OF triple_alert(2)],
        rule triple_then [OF triple_ignoreE [OF triple_conditions [OF assms]]], rule triple_requeue, simp)
qed

lemma triple_runRenewal:
  assumes "answering E"
  shows "triple (at_phase me p w0 q) (runRenewal E me spec det) (\<lambda>r. at_phase me p w0 q)"
  unfolding runRenewal_def
proof (rule triple_seqE)
  have patch: "triple (at_phase me p w0 q) (setNodeBackupPath E me b) (\<lambda>r. at_phase me p w0 q)" for b
    unfolding setNodeBackupPath_def
    by (rule triple_weaken [OF triple_patch [OF assms]]) (auto simp: phase_of_entry)
  have wrap: "triple P (wrapE c m) (\<lambda>r. Q)" if "triple P m (\<lambda>r. Q)" for P c Q and m :: "unit go"
    using that by (auto simp: triple_def wrapE_run split: prod.splits outcome.splits)
  show "triple (at_phase me p w0 q) (wrapE ''cert backup failed'' (backup_Create E (spec_backup_manager spec) me)) (\<lambda>r. at_phase me p w0 q)"
    by (intro triple_patchless patchless.keeps_wrapE patchless_node.keeps_Create)
  show "triple (at_phase me p w0 q)
     (seqE (wrapE ''persisting backup path to status'' (setNodeBackupPath E me (BackupPath b)))
      (\<lambda>_. if DryRun spec then ret ()
       else seqE (for_each (renew_cert E spec) (dr_Certs det))
        (\<lambda>_. seqE (wrapE ''static pod restart failed'' (RestartAll E (podrestart_New (ManifestsDir spec) False)))
        (\<lambda>_. wrapE ''health check failed after cert renewal''
          (CheckAllWithRetry E (healthcheck_New me (health_timeout spec) False) (HealthCheckMaxAttempts spec) (15 * ns_second))))))
     (\<lambda>r. at_phase me p w0 q)" for b
    by (rule triple_seqE [OF wrap [OF patch]])
       (auto intro!: triple_patchless patchless.keeps_seqE patchless.keeps_for_each patchless.keeps_wrapE patchless.keeps_ret
         patchless_node.node.keeps_renew_cert patchless_node.keeps_RestartAll patchless_node.node.keeps_retry)
qed auto

lemma triple_after_detection:
  assumes "answering E"
  shows "triple (at_phase me p w0 NodePhaseDetecting) (after_detection E me spec det) (ends_well me p w0)"
  unfolding after_detection_def
proof (rule triple_let [OF triple_now], rule triple_then [where M = "at_phase me p w0 NodePhaseDetecting"])
  show "triple (at_phase me p w0 NodePhaseDetecting) (updateNodeCertStatus E me certs t)
     (\<lambda>r w. r = Ok () \<and> at_phase me p w0 NodePhaseDetecting w)" for certs t
    unfolding updateNodeCertStatus_def by (rule triple_patch [OF assms]) (auto simp: phase_of_entry)
  have idle: "triple (at_phase me p w0 NodePhaseDetecting)
     (seqE (setNodePhase E me NodePhaseIdle '''')
       (\<lambda>_. seqE (ignoreE (updateClusterConditions E)) (\<lambda>_. requeue (requeueWithJitter me spec)))) (ends_well me p w0)"
    by (rule triple_then [OF triple_setNodePhase [OF assms healthy]],
        rule triple_then [OF triple_ignoreE [OF triple_conditions [OF assms]]], rule triple_requeue, simp)
  have due: "triple (at_phase me p w0 NodePhaseDetecting)
     (seqE (setNodePhase E me NodePhaseRenewing '''')
       (\<lambda>_. bindE (runRenewal E me spec det) (after_failure E me spec) (\<lambda>_. after_success E me spec))) (ends_well me p w0)"
    by (rule triple_then [OF triple_setNodePhase [OF assms renew]], rule triple_bindE [OF triple_runRenewal [OF assms]])
       (auto intro: triple_after_success triple_after_failure assms simp: ends_well_def)
  show "triple (at_phase me p w0 NodePhaseDetecting)
     (if \<not> NeedsRenewal det
      then seqE (setNodePhase E me NodePhaseIdle '''')
        (\<lambda>_. seqE (ignoreE (updateClusterConditions E)) (\<lambda>_. requeue (requeueWithJitter me spec)))
      else seqE (setNodePhase E me NodePhaseRenewing '''')
        (\<lambda>_. bindE (runRenewal E me spec det) (after_failure E me spec) (\<lambda>_. after_success E me spec))) (ends_well me p w0)"
    by (intro triple_if idle due)
qed

text \<open>
  C2. The phases of a node follow the state machine. While the API server answers and nobody else
  writes, every phase that a reconciliation of a node that is not critical patches is a step of
  \<open>phase_step\<close> from the one before (or the same), the client's copy agrees with the server at the end,
  and the reconciliation never returns an error: a normal return leaves the node idle, failed or
  critical, a panic leaves it renewing or rolling back.
\<close>

theorem phases_follow_machine:
  assumes "answering E" and "w_server w = Some cfg" and "phase_in me (config_Status cfg) \<noteq> NodePhaseCritical"
    and "Reconcile E me w = (r, w')"
  shows "\<exists>es srv. w_trace w' = w_trace w @ es \<and> phase_path me (phase_in me (config_Status cfg)) es \<and>
    w_server w' = Some srv \<and> own me srv = own me (w_cfg w') \<and>
    phase_in me (config_Status srv) = last_phase me (phase_in me (config_Status cfg)) es \<and>
    (case r of Ok _ \<Rightarrow> phase_in me (config_Status srv) \<in> {NodePhaseIdle, NodePhaseFailed, NodePhaseCritical}
     | Err _ \<Rightarrow> False
     | Panic _ \<Rightarrow> phase_in me (config_Status srv) \<in> {NodePhaseRenewing, NodePhaseRollingBack})"
proof -
  let ?p = "phase_in me (config_Status cfg)" and ?v = "w\<lparr>w_tick := Suc (w_tick w), w_server := Some cfg, w_cfg := cfg\<rparr>"
  have begin_at: "at_phase me ?p w ?p ?v" using assms(2) by (simp add: at_phase_def synced_def)
  let ?d = "detector_New (PKIDir (config_Spec cfg)) (KubeconfigDir (config_Spec cfg)) (ThresholdDays (config_Spec cfg))"
  have run: "triple (at_phase me ?p w ?p)
    (seqE (setNodePhase E me NodePhaseDetecting '''') (\<lambda>_.
       bindE (Detect E ?d me)
         (\<lambda>err. seqE (ignoreE (setNodePhase E me NodePhaseFailed (''cert detection failed: '' @ err_text err)))
            (\<lambda>_. requeue (requeueInterval (config_Spec cfg))))
         (after_detection E me (config_Spec cfg)))) (ends_well me ?p w)"
  proof (rule triple_then [OF triple_setNodePhase [OF assms(1) start [OF assms(3)]]],
      rule triple_bindE [OF triple_returns [OF patchless.keeps_Detect returns_Detect]])
    show "triple (\<lambda>u. (\<forall>e. Ok det \<noteq> Panic e) \<and> at_phase me ?p w NodePhaseDetecting u)
      (after_detection E me (config_Spec cfg) det) (ends_well me ?p w)" for det
      using triple_after_detection [OF assms(1)] by simp
    have "triple (at_phase me ?p w NodePhaseDetecting)
      (seqE (ignoreE (setNodePhase E me NodePhaseFailed reason)) (\<lambda>_. requeue d)) (ends_well me ?p w)" for reason d
      by (rule triple_then [OF triple_ignoreE [OF triple_setNodePhase [OF assms(1) detection_failed]]], rule triple_requeue) simp
    then show "triple (\<lambda>u. (\<forall>e. (Err err :: detection_result outcome) \<noteq> Panic e) \<and> at_phase me ?p w NodePhaseDetecting u)
      (seqE (ignoreE (setNodePhase E me NodePhaseFailed (''cert detection failed: '' @ err_text err)))
        (\<lambda>_. requeue (requeueInterval (config_Spec cfg)))) (ends_well me ?p w)" for err
      by simp
  qed auto
  have "\<not> is_critical_node me cfg" using assms(3) by (auto simp: is_critical_node_def phase_in_def split: option.splits)
  then have "Reconcile E me w = seqE (setNodePhase E me NodePhaseDetecting '''') (\<lambda>_.
       bindE (Detect E ?d me)
         (\<lambda>err. seqE (ignoreE (setNodePhase E me NodePhaseFailed (''cert detection failed: '' @ err_text err)))
            (\<lambda>_. requeue (requeueInterval (config_Spec cfg))))
         (after_detection E me (config_Spec cfg))) ?v"
    using assms(1,2) by (simp add: Reconcile_def seqE_run client_Get_run answering_def alone_def fresh_reads_def reconcile_fetched_def put_cfg_def Let_def)
  then have "ends_well me ?p w r w'" using tripleD [OF run begin_at] assms(4) by simp
  then show ?thesis
    by (auto simp: ends_well_def at_phase_def synced_def phase_in_def own_def split: outcome.splits)
qed

end
