(* ===== verification/Reconcile_Results.thy ===== *)
theory Reconcile_Results
  imports Reconcile_Phases
begin

text \<open>
  The results of a reconciliation in the status: what a healthy node, a dry run, a renewal and a failed
  renewal leave there, the conditions of the cluster, updates that are lost, and the delays.
\<close>

section \<open>The own entry\<close>

definition owns :: "string \<Rightarrow> node_status option \<Rightarrow> (fpath, fnode) fmap \<Rightarrow> world \<Rightarrow> bool" where
  "owns me x fs w \<longleftrightarrow> synced me w \<and> own me (w_cfg w) = x \<and> w_fs w = fs"

lemma owns_quiet: "owns me x fs w \<Longrightarrow> quiet w w' \<Longrightarrow> owns me x fs w'"
  by (auto simp: owns_def synced_def quiet_def)

lemma triple_owns_quiet: "keeps quiet m \<Longrightarrow> triple (owns me x fs) m (\<lambda>r. owns me x fs)"
  unfolding triple_def by (auto intro: owns_quiet dest: keepsD split: prod.splits)

lemma triple_owns_value:
  assumes "keeps quiet m" and "\<And>w. \<exists>y w'. m w = (Ok y, w')"
  shows "triple (owns me x fs) m (\<lambda>r w. (\<exists>y. r = Ok y) \<and> owns me x fs w)"
  unfolding triple_def
proof (intro allI impI)
  fix w assume at: "owns me x fs w"
  obtain y w' where m: "m w = (Ok y, w')" using assms(2) by blast
  then show "case m w of (r, w) \<Rightarrow> (\<exists>y. r = Ok y) \<and> owns me x fs w"
    using owns_quiet [OF at keepsD [OF assms(1) m]] by simp
qed

lemma triple_owns_patch:
  assumes "answering E" and "\<And>st. fmlookup (status_Nodes st) me = x \<Longrightarrow> fmlookup (status_Nodes (f st)) me = y"
  shows "triple (owns me x fs) (patch_with E f) (\<lambda>r w. r = Ok () \<and> owns me y fs w)"
  unfolding triple_def
proof (intro allI impI)
  fix w assume at: "owns me x fs w"
  then have "synced me w" by (simp add: owns_def)
  from patch_synced [OF assms(1) this, of f] assms(2) [of "config_Status (w_cfg w)"] at
  show "case patch_with E f w of (r, w) \<Rightarrow> r = Ok () \<and> owns me y fs w"
    by (auto simp: owns_def synced_def own_def)
qed

lemma lookup_update [simp]: "fmlookup (status_Nodes (update_node me f st)) me =
    Some (f (case fmlookup (status_Nodes st) me of None \<Rightarrow> fresh_node me | Some ns \<Rightarrow> ns))"
  by (simp add: update_node_def ensureNodes_def Let_def split: option.split)

lemma lookup_conditions [simp]: "fmlookup (status_Nodes (conditions_for E flags t st)) n = fmlookup (status_Nodes st) n"
  by (simp add: conditions_for_def Let_def split: prod.split)

lemma triple_owns_now: "triple (owns me x fs) (metav1_Now E) (\<lambda>r w. (\<exists>y. r = Ok y) \<and> owns me x fs w)"
  by (rule triple_owns_value [OF look.keeps_metav1_Now]) (simp add: metav1_Now_def seqE_run time_now_run)

lemma triple_owns_conditions:
  assumes "answering E"
  shows "triple (owns me x fs) (updateClusterConditions E) (\<lambda>r w. r = Ok () \<and> owns me x fs w)"
  unfolding updateClusterConditions_def Let_def
proof (intro triple_let)
  show "triple (owns me x fs) get_cfg (\<lambda>r w. (\<exists>y. r = Ok y) \<and> owns me x fs w)"
    by (rule triple_owns_value [OF look.keeps_get_cfg]) (simp add: get_cfg_def)
  show "triple (owns me x fs) (map_range E ns) (\<lambda>r w. (\<exists>y. r = Ok y) \<and> owns me x fs w)" for ns :: "string list"
    by (rule triple_owns_value [OF look.keeps_map_range]) (simp add: map_range_def seqE_run tick_def)
  show "triple (owns me x fs) (metav1_Now E) (\<lambda>r w. (\<exists>y. r = Ok y) \<and> owns me x fs w)" by (rule triple_owns_now)
  show "triple (owns me x fs) (patch_with E (conditions_for E flags t)) (\<lambda>r w. r = Ok () \<and> owns me x fs w)" for flags t
    by (rule triple_owns_patch [OF assms]) simp
qed

section \<open>A failed renewal\<close>

lemma Join_not_empty:
  assumes "\<exists>e\<in>set es. e \<noteq> ''''" shows "filepath_Join es \<noteq> ''''"
proof -
  have "render p \<noteq> ''''" if wf: "wf_fpath p" for p
  proof (cases p)
    case (Pair r cs)
    show ?thesis
    proof (cases cs)
      case (Cons c ds)
      then have "c \<noteq> ''''" using wf_nonempty [OF wf, of c] Pair by simp
      then have "join_slash (c # ds) \<noteq> ''''" by (cases ds) simp_all
      then show ?thesis using Pair Cons by simp
    qed (simp add: Pair)
  qed
  moreover have "dropWhile (\<lambda>e. e = '''') es \<noteq> []" using assms by (simp add: dropWhile_eq_Nil_conv)
  ultimately show ?thesis using wf_resolve by (simp add: filepath_Join_def filepath_Clean_def Let_def)
qed

lemma Create_path_not_empty: "backup_Create E m node w = (Ok b, w') \<Longrightarrow> BackupPath b \<noteq> ''''"
proof -
  assume run: "backup_Create E m node w = (Ok b, w')"
  obtain t where "BackupPath b = filepath_Join [bm_backupDir m, node, backup_stamp t]"
    using run unfolding backup_Create_def create_at_def Let_def by (auto simp only: ok_iff backup.simps)
  moreover have "backup_stamp t \<noteq> ''''" using plain_stamp [of t] by (simp add: plain_def)
  ultimately show ?thesis by (simp add: Join_not_empty)
qed

text \<open>
  The reconciler's rollback never restores anything and never returns normally: without a backup
  path in the status it reports an error, and with one it panics, because it hands a nil state to
  \<^verbatim>\<open>RollbackAll\<close>. In both cases the world is as before.
\<close>

theorem runRollback_never_restores:
  "\<exists>e. runRollback E me spec renewErr w =
     (if backup_path_of me (w_cfg w) = '''' then Err e else Panic nil_deref, w)"
  by (rule runRollback_run)

lemma wrapE_value_iff: "wrapE c m w = (Ok x, w') \<longleftrightarrow> m w = (Ok x, w')"
  by (rule wrapE_ok_iff)

lemma owns_fs_change: "synced me w \<Longrightarrow> own me (w_cfg w) = x \<Longrightarrow> same_api w w' \<Longrightarrow> synced me w' \<and> own me (w_cfg w') = x"
  by (auto simp: synced_def same_api_def)

interpretation api_node: effect_frame same_api E me for E me
  by unfold_locales (rule mkdir_one_keeps_api open_trunc_keeps_api write_data_keeps_api sleep_keeps_api emit_keeps_api)+

definition entry_of :: "string \<Rightarrow> cert_rotation_config \<Rightarrow> node_status" where
  "entry_of me cfg = (case own me cfg of None \<Rightarrow> fresh_node me | Some ns \<Rightarrow> ns)"

text \<open>After the backup, the renewal does nothing to the custom resource but recording the backup's path.\<close>

lemma runRenewal_own:
  assumes ans: "answering E" and sync: "synced me w" and create: "backup_Create E (spec_backup_manager spec) me w = (Ok b, wb)"
    and run: "runRenewal E me spec det w = (r, w1)"
  shows "synced me w1" and "own me (w_cfg w1) = Some ((entry_of me (w_cfg w))\<lparr>node_BackupPath := BackupPath b\<rparr>)"
proof -
  have "same_api w wb" using keepsD [OF api_node.keeps_Create create] .
  then have wb: "synced me wb" "w_cfg wb = w_cfg w" using sync by (auto simp: synced_def same_api_def)
  let ?rest = "if DryRun spec then ret () else
      seqE (for_each (renew_cert E spec) (dr_Certs det))
        (\<lambda>_. seqE (wrapE ''static pod restart failed'' (RestartAll E (podrestart_New (ManifestsDir spec) False)))
        (\<lambda>_. wrapE ''health check failed after cert renewal''
          (CheckAllWithRetry E (healthcheck_New me (health_timeout spec) False) (HealthCheckMaxAttempts spec) (15 * ns_second))))"
  have rest: "keeps same_api ?rest"
    by (auto intro!: api_frame.keeps_seqE api_frame.keeps_for_each api_frame.keeps_wrapE api_frame.keeps_ret
         api_node.node.keeps_renew_cert api_node.keeps_RestartAll api_node.node.keeps_retry)
  from patch_synced [OF ans wb(1), of "update_node me (\<lambda>ns. ns\<lparr>node_BackupPath := BackupPath b\<rparr>)"] obtain v where
    v: "setNodeBackupPath E me (BackupPath b) wb = (Ok (), v)" "synced me v"
      "own me (w_cfg v) = Some ((entry_of me (w_cfg w))\<lparr>node_BackupPath := BackupPath b\<rparr>)"
    using wb(2) by (auto simp: setNodeBackupPath_def synced_def entry_of_def own_def)
  have "runRenewal E me spec det w = ?rest v"
    using create v(1) by (simp add: runRenewal_def seqE_run wrapE_run)
  then have "?rest v = (r, w1)" using run by (simp only:)
  then have "same_api v w1" by (rule keepsD [OF rest])
  then show "synced me w1" "own me (w_cfg w1) = Some ((entry_of me (w_cfg w))\<lparr>node_BackupPath := BackupPath b\<rparr>)"
    using v(2,3) by (auto simp: synced_def same_api_def)
qed

text \<open>
  C3. When the renewal of a node fails after its backup was made (and the API server answers), the
  operator dies: \<^verbatim>\<open>Reconcile\<close> marks the node as rolling back and panics in the rollback. Every file is
  as the failed renewal left it, so nothing has been restored.
\<close>

theorem failed_renewal_panics:
  assumes "answering E" and "synced me w" and "backup_Create E (spec_backup_manager spec) me w = (Ok b, wb)"
    and "runRenewal E me spec det w = (Err e, w1)"
  shows "\<exists>w2. bindE (runRenewal E me spec det) (after_failure E me spec) (\<lambda>_. after_success E me spec) w = (Panic nil_deref, w2) \<and>
    w_fs w2 = w_fs w1 \<and> (\<exists>srv. w_server w2 = Some srv \<and> phase_in me (config_Status srv) = NodePhaseRollingBack)"
proof -
  from runRenewal_own [OF assms] obtain ns where s: "synced me w1" "own me (w_cfg w1) = Some ns" "node_BackupPath ns = BackupPath b"
    by simp
  let ?f = "update_node me (\<lambda>ns. let ns' = ns\<lparr>node_Phase := NodePhaseRollingBack, node_Node := me\<rparr> in
       if err_text e \<noteq> '''' then ns'\<lparr>node_FailureReason := err_text e\<rparr> else ns')"
  from patch_synced [OF assms(1) s(1), of ?f] obtain w2 ns2 where
    p: "setNodePhase E me NodePhaseRollingBack (err_text e) w1 = (Ok (), w2)" "w_fs w2 = w_fs w1"
      "synced me w2" "own me (w_cfg w2) = Some ns2" "node_BackupPath ns2 = BackupPath b" "node_Phase ns2 = NodePhaseRollingBack"
    using s(2,3) by (auto simp: setNodePhase_def own_def synced_def Let_def)
  have "backup_path_of me (w_cfg w2) \<noteq> ''''"
    using p(4,5) Create_path_not_empty [OF assms(3)] by (simp add: backup_path_of_def own_def)
  then have "runRollback E me spec e w2 = (Panic nil_deref, w2)" using runRollback_run [of E me spec e w2] by auto
  then have "after_failure E me spec e w1 = (Panic nil_deref, w2)"
    using p(1) by (simp add: after_failure_def ignoreE_def seqE_run bindE_run)
  moreover have "\<exists>srv. w_server w2 = Some srv \<and> phase_in me (config_Status srv) = NodePhaseRollingBack"
    using p(3,4,6) by (auto simp: synced_def phase_in_def own_def)
  ultimately show ?thesis using assms(4) p(2) by (simp add: bindE_run)
qed

section \<open>A healthy node\<close>

definition detector_of :: "config_spec \<Rightarrow> detector" where
  "detector_of spec = detector_New (PKIDir spec) (KubeconfigDir spec) (ThresholdDays spec)"

lemma triple_ok_run: "triple P m (\<lambda>r w. r = Ok x \<and> Q w) \<Longrightarrow> P w \<Longrightarrow> \<exists>w'. m w = (Ok x, w') \<and> Q w'"
  by (cases "m w") (auto simp: triple_def)

lemma triple_healthy:
  assumes "answering E" and "\<not> NeedsRenewal det"
  shows "triple (owns me (Some ns) fs) (after_detection E me spec det) (\<lambda>r w. r = Ok \<lparr>RequeueAfter = requeueWithJitter me spec\<rparr> \<and>
    (\<exists>t. owns me (Some (ns\<lparr>node_Certs := toCertStatuses det, node_LastCheckedAt := Some t,
      node_Phase := NodePhaseIdle, node_Node := me\<rparr>)) fs w))"
  unfolding after_detection_def
proof (rule triple_let [OF triple_owns_now], simp only: assms(2) not_False_eq_True if_True)
  fix t
  let ?ns = "ns\<lparr>node_Certs := toCertStatuses det, node_LastCheckedAt := Some t\<rparr>"
  have certs: "triple (owns me (Some ns) fs) (updateNodeCertStatus E me (toCertStatuses det) t) (\<lambda>r w. r = Ok () \<and> owns me (Some ?ns) fs w)"
    unfolding updateNodeCertStatus_def by (rule triple_owns_patch [OF assms(1)]) simp
  have phase: "triple (owns me (Some ?ns) fs) (setNodePhase E me NodePhaseIdle '''')
      (\<lambda>r w. r = Ok () \<and> owns me (Some (?ns\<lparr>node_Phase := NodePhaseIdle, node_Node := me\<rparr>)) fs w)"
    unfolding setNodePhase_def by (rule triple_owns_patch [OF assms(1)]) simp
  have "triple (owns me (Some ns) fs)
     (seqE (updateNodeCertStatus E me (toCertStatuses det) t) (\<lambda>_. seqE (setNodePhase E me NodePhaseIdle '''')
       (\<lambda>_. seqE (ignoreE (updateClusterConditions E)) (\<lambda>_. requeue (requeueWithJitter me spec)))))
     (\<lambda>r w. r = Ok \<lparr>RequeueAfter = requeueWithJitter me spec\<rparr> \<and> owns me (Some (?ns\<lparr>node_Phase := NodePhaseIdle, node_Node := me\<rparr>)) fs w)"
    by (rule triple_then [OF certs], rule triple_then [OF phase],
        rule triple_then [OF triple_ignoreE [OF triple_owns_conditions [OF assms(1)]]])
       (simp add: requeue_def triple_ret)
  then show "triple (owns me (Some ns) fs)
     (seqE (updateNodeCertStatus E me (toCertStatuses det) t) (\<lambda>_. seqE (setNodePhase E me NodePhaseIdle '''')
       (\<lambda>_. seqE (ignoreE (updateClusterConditions E)) (\<lambda>_. requeue (requeueWithJitter me spec)))))
     (\<lambda>r w. r = Ok \<lparr>RequeueAfter = requeueWithJitter me spec\<rparr> \<and>
       (\<exists>t. owns me (Some (ns\<lparr>node_Certs := toCertStatuses det, node_LastCheckedAt := Some t,
          node_Phase := NodePhaseIdle, node_Node := me\<rparr>)) fs w))"
    by (rule triple_weaken) (auto intro!: exI [of _ t])
qed

text \<open>What every reconciliation of a node that is not critical does first: it detects, as the phase says.\<close>

lemma Reconcile_detects:
  assumes "answering E" and "w_server w = Some cfg" and "\<not> is_critical_node me cfg"
  obtains v q v' where "w_fs v = w_fs w" and "Detect E (detector_of (config_Spec cfg)) me v = (q, v')"
    and "owns me (Some ((entry_of me cfg)\<lparr>node_Phase := NodePhaseDetecting, node_Node := me\<rparr>)) (w_fs w) v'"
    and "\<And>det. q = Ok det \<Longrightarrow> Reconcile E me w = after_detection E me (config_Spec cfg) det v'"
proof -
  let ?v0 = "w\<lparr>w_tick := Suc (w_tick w), w_server := Some cfg, w_cfg := cfg\<rparr>"
  let ?ns = "(entry_of me cfg)\<lparr>node_Phase := NodePhaseDetecting, node_Node := me\<rparr>"
  have at0: "owns me (own me cfg) (w_fs w) ?v0" by (simp add: owns_def synced_def)
  have phase: "triple (owns me (own me cfg) (w_fs w)) (setNodePhase E me NodePhaseDetecting '''')
      (\<lambda>r u. r = Ok () \<and> owns me (Some ?ns) (w_fs w) u)"
    unfolding setNodePhase_def by (rule triple_owns_patch [OF assms(1)]) (simp add: entry_of_def)
  obtain v where v: "setNodePhase E me NodePhaseDetecting '''' ?v0 = (Ok (), v)" "owns me (Some ?ns) (w_fs w) v"
    using triple_ok_run [OF phase at0] by (elim exE conjE)
  obtain q v' where q: "Detect E (detector_of (config_Spec cfg)) me v = (q, v')" by fastforce
  have v': "owns me (Some ?ns) (w_fs w) v'" using owns_quiet [OF v(2) keepsD [OF look.keeps_Detect q]] .
  have fetched: "Reconcile E me w = reconcile_fetched E me cfg (w\<lparr>w_tick := Suc (w_tick w), w_server := Some cfg\<rparr>)"
    using assms(1,2) by (simp add: Reconcile_def seqE_run client_Get_run answering_def alone_def fresh_reads_def Let_def)
  have "Reconcile E me w = after_detection E me (config_Spec cfg) det v'" if "q = Ok det" for det
    using assms(3) v(1) q that unfolding fetched reconcile_fetched_def Let_def detector_of_def
    by (simp add: seqE_run bindE_run put_cfg_def)
  moreover have "w_fs v = w_fs w" using v(2) by (simp add: owns_def)
  ultimately show ?thesis using that q v' by blast
qed

text \<open>
  C15. A node whose certificates are all fine: when the detection, run on the files as they are, finds
  nothing due, the reconciliation writes no file, leaves the node idle with the certificates found and
  the time of the check in its entry, and asks to be called again after the interval with the jitter.
  The rest of the entry is untouched; in particular the failure reason of an earlier attempt stays.
\<close>

theorem healthy_node:
  assumes "answering E" and "w_server w = Some cfg" and "\<not> is_critical_node me cfg" and "Reconcile E me w = (r, w')"
  shows "\<exists>v q v'. w_fs v = w_fs w \<and> Detect E (detector_of (config_Spec cfg)) me v = (q, v') \<and>
    (\<forall>det. q = Ok det \<and> \<not> NeedsRenewal det \<longrightarrow>
      r = Ok \<lparr>RequeueAfter = requeueWithJitter me (config_Spec cfg)\<rparr> \<and> w_fs w' = w_fs w \<and>
      (\<exists>srv t. w_server w' = Some srv \<and> own me srv = Some ((entry_of me cfg)\<lparr>node_Certs := toCertStatuses det,
        node_LastCheckedAt := Some t, node_Phase := NodePhaseIdle, node_Node := me\<rparr>)))"
proof -
  let ?ns = "(entry_of me cfg)\<lparr>node_Phase := NodePhaseDetecting, node_Node := me\<rparr>"
  obtain v q v' where v: "w_fs v = w_fs w" "Detect E (detector_of (config_Spec cfg)) me v = (q, v')" "owns me (Some ?ns) (w_fs w) v'"
    and run: "\<And>det. q = Ok det \<Longrightarrow> Reconcile E me w = after_detection E me (config_Spec cfg) det v'"
    using Reconcile_detects [OF assms(1-3)] by metis
  have "r = Ok \<lparr>RequeueAfter = requeueWithJitter me (config_Spec cfg)\<rparr> \<and> w_fs w' = w_fs w \<and>
      (\<exists>srv t. w_server w' = Some srv \<and> own me srv = Some ((entry_of me cfg)\<lparr>node_Certs := toCertStatuses det,
        node_LastCheckedAt := Some t, node_Phase := NodePhaseIdle, node_Node := me\<rparr>))" if det: "q = Ok det" "\<not> NeedsRenewal det" for det
  proof -
    have "after_detection E me (config_Spec cfg) det v' = (r, w')" using run [OF det(1)] assms(4) by simp
    from tripleD [OF triple_healthy [OF assms(1) det(2)] v(3) this] obtain t where
      "r = Ok \<lparr>RequeueAfter = requeueWithJitter me (config_Spec cfg)\<rparr>"
      "owns me (Some (?ns\<lparr>node_Certs := toCertStatuses det, node_LastCheckedAt := Some t, node_Phase := NodePhaseIdle, node_Node := me\<rparr>)) (w_fs w) w'"
      by blast
    then show ?thesis unfolding owns_def synced_def by auto
  qed
  then show ?thesis using v(1,2) by blast
qed

section \<open>A renewal that succeeded, or was a dry run\<close>

lemma renewal_recorded:
  assumes "answering E" and "owns me (Some ns) fs w1" and "runRenewal E me spec det w = (Ok (), w1)"
  shows "\<exists>w2 srv t. bindE (runRenewal E me spec det) (after_failure E me spec) (\<lambda>_. after_success E me spec) w =
      (Ok \<lparr>RequeueAfter = requeueWithJitter me spec\<rparr>, w2) \<and> w_fs w2 = fs \<and> w_server w2 = Some srv \<and>
    own me srv = Some (ns\<lparr>node_Phase := NodePhaseIdle, node_LastRenewedAt := Some t, node_FailureReason := ''''\<rparr>)"
proof -
  have send: "triple (owns me x fs) (sendRenewalSuccess E me spec) (\<lambda>r w. r = Ok () \<and> owns me x fs w)" for x
    unfolding sendRenewalSuccess_def triple_def by (auto simp: unsent_run buildNotifier_unset owns_def synced_def)
  have renewed: "triple (owns me (Some ns) fs) (setNodeRenewed E me t)
      (\<lambda>r w. r = Ok () \<and> owns me (Some (ns\<lparr>node_Phase := NodePhaseIdle, node_LastRenewedAt := Some t, node_FailureReason := ''''\<rparr>)) fs w)" for t
    unfolding setNodeRenewed_def by (rule triple_owns_patch [OF assms(1)]) simp
  have tail: "triple (owns me (Some ns) fs) (seqE (setNodeRenewed E me t) (\<lambda>_. seqE (sendRenewalSuccess E me spec)
       (\<lambda>_. seqE (ignoreE (updateClusterConditions E)) (\<lambda>_. requeue (requeueWithJitter me spec)))))
     (\<lambda>r w. r = Ok \<lparr>RequeueAfter = requeueWithJitter me spec\<rparr> \<and>
       owns me (Some (ns\<lparr>node_Phase := NodePhaseIdle, node_LastRenewedAt := Some t, node_FailureReason := ''''\<rparr>)) fs w)" for t
    by (rule triple_then [OF renewed], rule triple_then [OF send],
        rule triple_then [OF triple_ignoreE [OF triple_owns_conditions [OF assms(1)]]])
       (simp add: requeue_def triple_ret)
  have all: "triple (owns me (Some ns) fs) (after_success E me spec) (\<lambda>r w. \<exists>t. r = Ok \<lparr>RequeueAfter = requeueWithJitter me spec\<rparr> \<and>
       owns me (Some (ns\<lparr>node_Phase := NodePhaseIdle, node_LastRenewedAt := Some t, node_FailureReason := ''''\<rparr>)) fs w)"
    unfolding after_success_def by (rule triple_let [OF triple_owns_now], rule triple_weaken [OF tail]) blast
  obtain r w2 where w2: "after_success E me spec w1 = (r, w2)" by fastforce
  obtain t where t: "r = Ok \<lparr>RequeueAfter = requeueWithJitter me spec\<rparr>"
    "owns me (Some (ns\<lparr>node_Phase := NodePhaseIdle, node_LastRenewedAt := Some t, node_FailureReason := ''''\<rparr>)) fs w2"
    using tripleD [OF all assms(2) w2] by (elim exE conjE)
  have "bindE (runRenewal E me spec det) (after_failure E me spec) (\<lambda>_. after_success E me spec) w = (r, w2)"
    using assms(3) w2 by (simp add: bindE_run)
  then show ?thesis using t unfolding owns_def synced_def by auto
qed

text \<open>
  After a renewal that returned nil the node is marked idle and renewed now, without a failure
  reason, and no file changes any more; but the certificates in its entry stay those of the detection
  before the renewal.
\<close>

theorem renewal_is_recorded:
  assumes "answering E" and "owns me (Some ns) fs w1" and "runRenewal E me spec det w = (Ok (), w1)"
  shows "\<exists>w2 srv t. bindE (runRenewal E me spec det) (after_failure E me spec) (\<lambda>_. after_success E me spec) w =
      (Ok \<lparr>RequeueAfter = requeueWithJitter me spec\<rparr>, w2) \<and> w_fs w2 = fs \<and> w_server w2 = Some srv \<and>
    own me srv = Some (ns\<lparr>node_Phase := NodePhaseIdle, node_LastRenewedAt := Some t, node_FailureReason := ''''\<rparr>)"
  by (rule renewal_recorded [OF assms])

text \<open>
  C27. A dry run reports a renewal: it makes the backup, renews nothing, and then records the node as
  renewed now (the last renewal is what an operator sees of it), clears its failure reason and asks
  for the next regular check.
\<close>

theorem dry_run_marks_renewed:
  assumes "answering E" and "synced me w" and "DryRun spec"
    and "backup_Create E (spec_backup_manager spec) me w = (Ok b, wb)"
  shows "\<exists>w2 srv t ns. bindE (runRenewal E me spec det) (after_failure E me spec) (\<lambda>_. after_success E me spec) w =
      (Ok \<lparr>RequeueAfter = requeueWithJitter me spec\<rparr>, w2) \<and> w_fs w2 = w_fs wb \<and> w_server w2 = Some srv \<and>
    own me srv = Some ns \<and> node_Phase ns = NodePhaseIdle \<and> node_LastRenewedAt ns = Some t \<and>
    node_FailureReason ns = '''' \<and> node_BackupPath ns = BackupPath b"
proof -
  have "same_api w wb" using keepsD [OF api_node.keeps_Create assms(4)] .
  then have wb: "owns me (own me (w_cfg w)) (w_fs wb) wb" using assms(2) by (auto simp: owns_def synced_def same_api_def)
  have save: "triple (owns me (own me (w_cfg w)) (w_fs wb)) (setNodeBackupPath E me (BackupPath b))
      (\<lambda>r u. r = Ok () \<and> owns me (Some ((entry_of me (w_cfg w))\<lparr>node_BackupPath := BackupPath b\<rparr>)) (w_fs wb) u)"
    unfolding setNodeBackupPath_def by (rule triple_owns_patch [OF assms(1)]) (simp add: entry_of_def)
  obtain w1 where w1: "setNodeBackupPath E me (BackupPath b) wb = (Ok (), w1)"
    "owns me (Some ((entry_of me (w_cfg w))\<lparr>node_BackupPath := BackupPath b\<rparr>)) (w_fs wb) w1"
    using triple_ok_run [OF save wb] by (elim exE conjE)
  have "runRenewal E me spec det w = (Ok (), w1)"
    using assms(3,4) w1(1) by (simp add: runRenewal_def seqE_run wrapE_run)
  from renewal_recorded [OF assms(1) w1(2) this] show ?thesis by fastforce
qed

section \<open>The conditions of the cluster\<close>

definition certs_ok :: "node_status \<Rightarrow> bool" where
  "certs_ok ns \<longleftrightarrow> (\<forall>c\<in>set (node_Certs ns). cert_Status c = ''OK'')"

definition entry_good :: "node_status \<Rightarrow> bool" where
  "entry_good ns \<longleftrightarrow> certs_ok ns \<and> node_Phase ns \<notin> {NodePhaseFailed, NodePhaseCritical}"

definition entry_renewing :: "node_status \<Rightarrow> bool" where
  "entry_renewing ns \<longleftrightarrow> node_Phase ns = NodePhaseRenewing \<or> node_Phase ns = NodePhaseRollingBack"

definition entry_critical :: "node_status \<Rightarrow> bool" where
  "entry_critical ns \<longleftrightarrow> node_Phase ns = NodePhaseCritical"

lemma node_flags_step: "node_flags ns (h, r, c) = (h \<and> entry_good ns, r \<or> entry_renewing ns, c \<or> entry_critical ns)"
proof -
  have certs: "fold (\<lambda>c healthy. if cert_Status c \<noteq> ''OK'' then False else healthy) cs b = (b \<and> (\<forall>c\<in>set cs. cert_Status c = ''OK''))" for cs b
    by (induction cs arbitrary: b) auto
  show ?thesis unfolding node_flags_def certs
    by (cases "node_Phase ns") (auto simp: entry_good_def certs_ok_def entry_renewing_def entry_critical_def)
qed

lemma node_flags_fold:
  "fold (\<lambda>n. node_flags (f n)) ns (h, r, c) =
    (h \<and> (\<forall>n\<in>set ns. entry_good (f n)), r \<or> (\<exists>n\<in>set ns. entry_renewing (f n)), c \<or> (\<exists>n\<in>set ns. entry_critical (f n)))"
  by (induction ns arbitrary: h r c) (auto simp: node_flags_step)

text \<open>
  What a condition of a type says, by its status, reason and message, and what
  \<^verbatim>\<open>meta.SetStatusCondition\<close> is relied on to do: it sets them, and leaves the conditions of other types alone.
\<close>

definition condition_says :: "condition list \<Rightarrow> string \<Rightarrow> (condition_status \<times> string \<times> string) option" where
  "condition_says cs ty = map_option (\<lambda>c. (cond_Status c, cond_Reason c, cond_Message c)) (find (\<lambda>c. cond_Type c = ty) cs)"

definition conditions_contract :: "env \<Rightarrow> bool" where
  "conditions_contract E \<longleftrightarrow> (\<forall>cs c ty. condition_says (env_set_condition E cs c) ty =
     (if ty = cond_Type c then Some (cond_Status c, cond_Reason c, cond_Message c) else condition_says cs ty))"

definition health_report :: "bool \<Rightarrow> condition_status \<times> string \<times> string" where
  "health_report b = (if b then (ConditionTrue, ''AllCertsValid'', ''All control plane certs are valid across all nodes'')
     else (ConditionFalse, ''CertsExpiring'', ''One or more control plane certs are expiring or expired''))"

definition renewal_report :: "bool \<Rightarrow> condition_status \<times> string \<times> string" where
  "renewal_report b = (if b then (ConditionTrue, ''RenewalActive'', ''Cert renewal is in progress on one or more nodes'')
     else (ConditionFalse, ''NoRenewalInProgress'', ''No cert renewal is currently in progress''))"

definition critical_report :: "bool \<Rightarrow> condition_status \<times> string \<times> string" where
  "critical_report b = (if b then (ConditionTrue, ''RollbackFailed'',
       ''Cert renewal AND rollback failed on one or more nodes '' @ em_dash @ '' manual intervention required'')
     else (ConditionFalse, ''NoCriticalFailure'', ''No critical failures detected''))"

definition entries :: "cert_rotation_config \<Rightarrow> node_status set" where
  "entries cfg = {ns. \<exists>n. fmlookup (status_Nodes (config_Status cfg)) n = Some ns}"

lemma conditions_for_status:
  assumes "conditions_contract E"
  shows "condition_says (status_Conditions (conditions_for E (h, r, c) t st)) ConditionCertsHealthy = Some (health_report h)"
    and "condition_says (status_Conditions (conditions_for E (h, r, c) t st)) ConditionRenewalInProgress = Some (renewal_report r)"
    and "condition_says (status_Conditions (conditions_for E (h, r, c) t st)) ConditionCriticalFailure = Some (critical_report c)"
    and "status_Phase (conditions_for E (h, r, c) t st) = (if c then ClusterPhaseFailed else if r then ClusterPhaseRenewing else ClusterPhaseIdle)"
  using assms condition_types_distinct by (auto simp: conditions_for_def conditions_contract_def health_report_def renewal_report_def critical_report_def Let_def)

lemma updateClusterConditions_run:
  "\<exists>t. updateClusterConditions E w = patch_with E (conditions_for E
     (\<forall>ns\<in>entries (w_cfg w). entry_good ns, \<exists>ns\<in>entries (w_cfg w). entry_renewing ns, \<exists>ns\<in>entries (w_cfg w). entry_critical ns) t)
     (w\<lparr>w_tick := w_tick w + 2\<rparr>)"
proof -
  let ?nodes = "status_Nodes (config_Status (w_cfg w))" and ?E = "entries (w_cfg w)"
  let ?names = "shuffle (env_pick E (w_tick w)) (sorted_list_of_fset (fmdom ?nodes))"
  have names: "(\<lambda>n. the (fmlookup ?nodes n)) ` set ?names = ?E"
    by (force simp: entries_def fmlookup_dom_iff image_iff)
  have "fold (\<lambda>n. node_flags (the (fmlookup ?nodes n))) ?names (True, False, False) =
    (\<forall>ns\<in>?E. entry_good ns, \<exists>ns\<in>?E. entry_renewing ns, \<exists>ns\<in>?E. entry_critical ns)"
    unfolding node_flags_fold names [symmetric] by simp
  then show ?thesis
    by (auto simp: updateClusterConditions_def seqE_run get_cfg_def map_range_def tick_def metav1_Now_def time_now_run Let_def)
qed

text \<open>
  C23. What the conditions say, exactly: when the client's copy is the server's object,
  \<^verbatim>\<open>updateClusterConditions\<close> leaves on the server that a renewal is in progress iff some node is renewing or
  rolling back, a critical failure iff some node is critical, the phase of the cluster that follows from
  these two, and \<^verbatim>\<open>CertsHealthy\<close> true iff every certificate on record is OK and no node is failed or
  critical. The last goes beyond the documentation of the condition, by which it is about
  the certificates only: a failed or critical node, all of whose certificates are OK, makes it false, with
  the reason \<^verbatim>\<open>CertsExpiring\<close> and the message that certificates are expiring.
\<close>

theorem conditions_report:
  assumes "answering E" and "conditions_contract E" and "w_server w = Some (w_cfg w)"
  shows "\<exists>w' srv. updateClusterConditions E w = (Ok (), w') \<and> w_server w' = Some srv \<and>
    (let cs = status_Conditions (config_Status srv); ns = entries (w_cfg w);
         stuck = (\<exists>n\<in>ns. node_Phase n \<in> {NodePhaseFailed, NodePhaseCritical}) in
     condition_says cs ConditionCertsHealthy = Some (health_report ((\<forall>n\<in>ns. certs_ok n) \<and> \<not> stuck)) \<and>
     (stuck \<longrightarrow> condition_says cs ConditionCertsHealthy =
       Some (ConditionFalse, ''CertsExpiring'', ''One or more control plane certs are expiring or expired'')) \<and>
     condition_says cs ConditionRenewalInProgress = Some (renewal_report (\<exists>n\<in>ns. entry_renewing n)) \<and>
     condition_says cs ConditionCriticalFailure = Some (critical_report (\<exists>n\<in>ns. entry_critical n)) \<and>
     status_Phase (config_Status srv) = (if \<exists>n\<in>ns. entry_critical n then ClusterPhaseFailed
       else if \<exists>n\<in>ns. entry_renewing n then ClusterPhaseRenewing else ClusterPhaseIdle))"
proof -
  let ?c = "w_cfg w" and ?E = "entries (w_cfg w)"
  obtain t n where run: "updateClusterConditions E w = patch_with E (conditions_for E
     (\<forall>ns\<in>?E. entry_good ns, \<exists>ns\<in>?E. entry_renewing ns, \<exists>ns\<in>?E. entry_critical ns) t) (w\<lparr>w_tick := n\<rparr>)"
    using updateClusterConditions_run by blast
  let ?st = "conditions_for E (\<forall>ns\<in>?E. entry_good ns, \<exists>ns\<in>?E. entry_renewing ns, \<exists>ns\<in>?E. entry_critical ns) t (config_Status ?c)"
  let ?m = "env_merge E ?c (?c\<lparr>config_Status := ?st\<rparr>) ?c"
  have m: "status_Conditions (config_Status ?m) = status_Conditions ?st" "status_Phase (config_Status ?m) = status_Phase ?st"
    using assms(1) by (auto simp: answering_def merge_contract_def merged_value_def Let_def)
  have "\<exists>w'. patch_with E (conditions_for E
     (\<forall>ns\<in>?E. entry_good ns, \<exists>ns\<in>?E. entry_renewing ns, \<exists>ns\<in>?E. entry_critical ns) t) (w\<lparr>w_tick := n\<rparr>) = (Ok (), w') \<and> w_server w' = Some ?m"
    using assms(1,3) by (simp add: patch_with_def Status_Patch_def api_call_def seqE_run get_cfg_def put_cfg_def tick_def answering_def alone_def Let_def)
  then obtain w' where w': "updateClusterConditions E w = (Ok (), w')" "w_server w' = Some ?m" unfolding run by blast
  let ?cs = "status_Conditions (config_Status ?m)"
  have says: "condition_says ?cs ConditionCertsHealthy = Some (health_report (\<forall>ns\<in>?E. entry_good ns))"
    "condition_says ?cs ConditionRenewalInProgress = Some (renewal_report (\<exists>ns\<in>?E. entry_renewing ns))"
    "condition_says ?cs ConditionCriticalFailure = Some (critical_report (\<exists>ns\<in>?E. entry_critical ns))"
    "status_Phase (config_Status ?m) = (if \<exists>ns\<in>?E. entry_critical ns then ClusterPhaseFailed
       else if \<exists>ns\<in>?E. entry_renewing ns then ClusterPhaseRenewing else ClusterPhaseIdle)"
    unfolding m by (rule conditions_for_status [OF assms(2)])+
  have good: "((\<forall>n\<in>?E. certs_ok n) \<and> \<not> (\<exists>n\<in>?E. node_Phase n \<in> {NodePhaseFailed, NodePhaseCritical})) \<longleftrightarrow>
      (\<forall>ns\<in>?E. entry_good ns)"
    by (auto simp: entry_good_def)
  have stuck: "\<not> (\<forall>ns\<in>?E. entry_good ns)" if "\<exists>n\<in>?E. node_Phase n \<in> {NodePhaseFailed, NodePhaseCritical}"
    using that good by blast
  show ?thesis
    unfolding Let_def good
    by (intro exI conjI impI, rule w'(1), rule w'(2)) (simp_all only: says, simp only: health_report_def stuck if_False)
qed

text \<open>
  C28. A failed patch is never made up for: the helpers change the client's copy first and send only what
  later changes to it add. When the patch that should record the critical phase fails, and the update
  of the conditions after it succeeds, the entry of the node on the server is as before, so it is not
  critical there and the next reconciliation renews again.
\<close>

theorem critical_phase_can_be_lost:
  assumes "merge_contract E" and "alone E" and "synced me w" and "env_api_fault E (w_tick w) = Some e"
    and "setNodePhase E me NodePhaseCritical msg w = (r, w1)" and "updateClusterConditions E w1 = (Ok (), w2)"
  shows "r = Err e \<and> (\<exists>srv srv'. w_server w = Some srv \<and> w_server w2 = Some srv' \<and> own me srv' = own me srv)"
proof -
  from assms(3) obtain srv where srv: "w_server w = Some srv" by (auto simp: synced_def)
  have 1: "r = Err e" "w_server w1 = Some srv"
    using assms(2,4,5) srv
    by (auto simp: setNodePhase_def patch_with_def Status_Patch_def api_call_def seqE_run get_cfg_def put_cfg_def tick_def alone_def Let_def)
  obtain flags t where run: "updateClusterConditions E w1 = patch_with E (conditions_for E flags t) (w1\<lparr>w_tick := w_tick w1 + 2\<rparr>)"
    using updateClusterConditions_run by blast
  let ?m = "env_merge E (w_cfg w1) (w_cfg w1\<lparr>config_Status := conditions_for E flags t (config_Status (w_cfg w1))\<rparr>) srv"
  have "own me ?m = own me srv" using assms(1) by (auto simp: merge_contract_def merged_value_def own_def Let_def)
  moreover have "w_server w2 = Some ?m"
    using assms(2,6) 1(2) unfolding run
    by (auto simp: patch_with_def Status_Patch_def api_call_def seqE_run get_cfg_def put_cfg_def tick_def alone_def Let_def split: option.splits)
  ultimately show ?thesis using srv 1(1) by blast
qed

section \<open>Delays\<close>

text \<open>
  The delay to the next check is the interval of the specification plus less than two minutes that
  depend on the name of the node only, for every interval up to the 168 hours the resource allows and
  far beyond: nothing wraps around.
\<close>

theorem jitter_bounds:
  assumes "0 \<le> CheckIntervalHours spec" and "CheckIntervalHours spec \<le> 2562046"
  shows "requeueWithJitter me spec = CheckIntervalHours spec * ns_hour + int (unat (fnv32a me) mod 120) * ns_second \<and>
    requeueInterval spec \<le> requeueWithJitter me spec \<and> requeueWithJitter me spec < requeueInterval spec + 120 * ns_second"
proof -
  define h j where "h = CheckIntervalHours spec" and "j = int (unat (fnv32a me) mod 120)"
  have j: "0 \<le> j" "j \<le> 119" unfolding j_def by linarith+
  have ns: "ns_hour = 3600000000000" "ns_second = 1000000000" by (simp_all add: ns_hour_def ns_minute_def ns_second_def)
  have h: "0 \<le> h" "h \<le> 2562046" using assms by (simp_all add: h_def)
  have 1: "wrap64 (h * 3600000000000) = h * 3600000000000" by (rule wrap64_id; use h in simp)
  have 2: "wrap64 (h * 3600000000000 + j * 1000000000) = h * 3600000000000 + j * 1000000000"
    by (rule wrap64_id; use h j in simp)
  show ?thesis unfolding requeueWithJitter_def requeueInterval_def ns h_def [symmetric] j_def [symmetric] 1 2
    using j by simp
qed

end
