(* ===== verification/Witnesses_Controller.thy ===== *)
theory Witnesses_Controller
  imports Witnesses_Files Reconcile_Results
begin

text \<open>The theorems on the reconciler, applied on the node of \<open>Scenario\<close>.\<close>

section \<open>The environment keeps its contracts\<close>

lemma calm_merges: "merge_contract calm" "merge_contract frozen"
  by (auto simp: merge_contract_def calm_def frozen_def calm_merge_def merged_value_def Let_def)

lemma calm_alone: "alone calm" "alone frozen"
  by (simp_all add: alone_def calm_def frozen_def)

lemma calm_fresh: "fresh_reads calm" "fresh_reads frozen"
  by (simp_all add: fresh_reads_def calm_def frozen_def)

lemma calm_answering: "answering calm" "answering frozen"
  using calm_merges calm_alone calm_fresh by (simp_all add: answering_def calm_def frozen_def)

lemma find_filter_other: "find P (filter (\<lambda>x. \<not> Q x) xs) = find P xs" if "\<And>x. P x \<Longrightarrow> \<not> Q x"
  using that by (induction xs) auto

lemma find_append: "find P (xs @ ys) = (case find P xs of None \<Rightarrow> find P ys | Some x \<Rightarrow> Some x)"
  by (induction xs) auto

lemma calm_conditions: "conditions_contract calm"
proof -
  have "condition_says (calm_set_condition cs c) ty =
    (if ty = cond_Type c then Some (cond_Status c, cond_Reason c, cond_Message c) else condition_says cs ty)" for cs c ty
  proof (cases "ty = cond_Type c")
    case True
    have "find (\<lambda>d. cond_Type d = cond_Type c) (filter (\<lambda>d. cond_Type d \<noteq> cond_Type c) cs) = None" by (simp add: find_None_iff)
    then show ?thesis using True by (simp add: condition_says_def calm_set_condition_def find_append)
  next
    case False
    then have "find (\<lambda>d. cond_Type d = ty) (filter (\<lambda>d. cond_Type d \<noteq> cond_Type c) cs) = find (\<lambda>d. cond_Type d = ty) cs"
      using find_filter_other [of "\<lambda>d. cond_Type d = ty" "\<lambda>d. cond_Type d = cond_Type c" cs] by auto
    then show ?thesis using False by (simp add: condition_says_def calm_set_condition_def find_append split: option.split)
  qed
  then show ?thesis by (simp add: conditions_contract_def calm_def)
qed

section \<open>The whole reconciliation\<close>

definition with_node :: "string \<Rightarrow> node_phase \<Rightarrow> cert_rotation_config" where
  "with_node n p = node_cfg\<lparr>config_Status := (config_Status node_cfg)\<lparr>status_Nodes := fmap_of_list [(n, (fresh_node n)\<lparr>node_Phase := p\<rparr>)]\<rparr>\<rparr>"

definition serving :: "cert_rotation_config \<Rightarrow> world" where
  "serving cfg = node_world\<lparr>w_server := Some cfg, w_cfg := cfg\<rparr>"

theorem only_own_entry_witness:
  "\<exists>srv. w_server (snd (Reconcile calm ''n'' (serving (with_node ''other'' NodePhaseRenewing)))) = Some srv \<and>
     fmlookup (status_Nodes (config_Status srv)) ''other'' = Some ((fresh_node ''other'')\<lparr>node_Phase := NodePhaseRenewing\<rparr>)"
proof -
  have "w_server (serving (with_node ''other'' NodePhaseRenewing)) = Some (with_node ''other'' NodePhaseRenewing)" "''other'' \<noteq> ''n''"
    by (simp_all add: serving_def)
  from only_own_entry [OF calm_merges(1) calm_alone(1) this] show ?thesis
    by (auto simp: with_node_def fmlookup_of_list)
qed

lemma home_untouched: "(True, ''home'' # cs) \<notin> reconcile_files ''n'' node_spec"
proof -
  have 1: "resolve (filepath_Join [PKIDir node_spec, c]) \<noteq> (True, ''home'' # cs)" "resolve (filepath_Join [PKIDir node_spec, k]) \<noteq> (True, ''home'' # cs)"
    if "(name, c, k) \<in> set CertPaths" for name c k
  proof -
    have "plain_rel c" "plain_rel k" using CertPaths_plain that by fastforce+
    moreover have "resolve (PKIDir node_spec) = (True, [''etc'', ''kubernetes'', ''pki''])" by code_simp
    ultimately show "resolve (filepath_Join [PKIDir node_spec, c]) \<noteq> (True, ''home'' # cs)"
      "resolve (filepath_Join [PKIDir node_spec, k]) \<noteq> (True, ''home'' # cs)"
      by (simp_all add: resolve_pki pki_path_def below_def)
  qed
  have "plain ''n''" by (simp add: plain_def)
  moreover have "resolve (BackupDir node_spec) = (True, [''var'', ''backups''])" by code_simp
  ultimately have 2: "(True, ''home'' # cs) \<notin> backup_paths (filepath_Join [BackupDir node_spec, ''n'', backup_stamp t])" for t
    by (auto simp: backup_paths_def pki_copy_def kube_copy_def below_stamp) (auto simp: below_def)
  have "\<forall>p\<in>manifest_files (podrestart_New (ManifestsDir node_spec) False). hd (snd p) = ''etc''" by code_simp
  then have 3: "(True, ''home'' # cs) \<notin> manifest_files (podrestart_New (ManifestsDir node_spec) False)" by force
  show ?thesis using 1 2 3 by (fastforce simp: reconcile_files_def)
qed

theorem Reconcile_writes_witness:
  "fs_get (w_fs (snd (Reconcile calm ''n'' (node_world\<lparr>w_fs := fmupd (True, [''home'', ''x'']) (Reg ''x'' 420) node_fs\<rparr>)))) (True, [''home'', ''x'']) = Some (Reg ''x'' 420)"
proof -
  let ?w = "node_world\<lparr>w_fs := fmupd (True, [''home'', ''x'']) (Reg ''x'' 420) node_fs\<rparr>"
  have "env_cached calm (Suc (w_tick ?w)) (env_others calm (w_tick ?w) (w_server ?w)) = Some node_cfg" by (simp add: calm_def node_world_def)
  from Reconcile_writes [OF this, of "(True, [''home'', ''x''])" "''n''" "''x''" 420] home_untouched [of "[''x'']"]
  show ?thesis by (simp add: node_cfg_def fs_get_def)
qed

theorem critical_is_left_alone_witness:
  "fst (Reconcile calm ''n'' (serving (with_node ''n'' NodePhaseCritical))) = Ok \<lparr>RequeueAfter = ns_hour\<rparr>"
proof -
  let ?w = "serving (with_node ''n'' NodePhaseCritical)"
  have "env_cached calm (Suc (w_tick ?w)) (env_others calm (w_tick ?w) (w_server ?w)) = Some (with_node ''n'' NodePhaseCritical)" "env_api_fault calm (w_tick ?w) = None"
    "is_critical_node ''n'' (with_node ''n'' NodePhaseCritical)"
    by (simp_all add: calm_def serving_def with_node_def is_critical_node_def fmlookup_of_list)
  from critical_is_left_alone [OF this] show ?thesis by simp
qed

theorem phases_follow_machine_witness:
  "\<exists>es srv. w_trace (snd (Reconcile calm ''n'' node_world)) = es \<and> phase_path ''n'' NodePhaseIdle es \<and>
     w_server (snd (Reconcile calm ''n'' node_world)) = Some srv \<and>
     phase_in ''n'' (config_Status srv) = last_phase ''n'' NodePhaseIdle es"
proof -
  have idle: "phase_in ''n'' (config_Status node_cfg) = NodePhaseIdle" by (simp add: phase_in_def node_cfg_def)
  have "w_server node_world = Some node_cfg" by (simp add: node_world_def)
  from phases_follow_machine [OF calm_answering(1) this, of "''n''"] idle show ?thesis
    by (cases "Reconcile calm ''n'' node_world") (fastforce simp: node_world_def)
qed

text \<open>A node on which every certificate is fine.\<close>

definition healthy_world :: world where
  "healthy_world = node_world\<lparr>w_fs := fmupd (True, [''etc'', ''kubernetes'', ''pki'', ''apiserver.crt'']) (Reg valid_cert 384) node_fs\<rparr>"

definition all_fine :: "cert_info list option list \<Rightarrow> bool" where
  "all_fine rs \<longleftrightarrow> None \<notin> set rs \<and> list_all (\<lambda>c. ci_Status c = StatusOK) (concat (map the rs))"

lemma healthy_reports: "all_fine (expected_reports frozen (detector_of node_spec) (w_fs healthy_world) base_time)"
  by code_simp

theorem healthy_node_witness:
  "\<exists>w' srv ns. Reconcile frozen ''n'' healthy_world = (Ok \<lparr>RequeueAfter = requeueWithJitter ''n'' node_spec\<rparr>, w') \<and>
     w_fs w' = w_fs healthy_world \<and> w_server w' = Some srv \<and> own ''n'' srv = Some ns \<and> node_Phase ns = NodePhaseIdle"
proof -
  obtain r w' where run: "Reconcile frozen ''n'' healthy_world = (r, w')" by fastforce
  have srv: "w_server healthy_world = Some node_cfg" and nc: "\<not> is_critical_node ''n'' node_cfg" and sp: "config_Spec node_cfg = node_spec"
    by (simp_all add: healthy_world_def node_world_def node_cfg_def is_critical_node_def)
  have clock: "\<forall>t. env_now frozen t = base_time" by (simp add: frozen_def)
  have fine: "\<exists>det. fst (Detect frozen (detector_of node_spec) ''n'' v) = Ok det \<and> \<not> NeedsRenewal det" if v: "w_fs v = w_fs healthy_world" for v
  proof -
    obtain det v' where det: "Detect frozen (detector_of node_spec) ''n'' v = (Ok det, v')"
      "mset (dr_Certs det) = mset (concat (map the (expected_reports frozen (detector_of node_spec) (w_fs v) base_time)))"
      using Detect_run [OF calm_no_faults(2) clock, of v "detector_of node_spec" "''n''"] healthy_reports v by (auto simp: all_fine_def)
    have "\<not> NeedsRenewal det" using mset_eq_setD [OF det(2)] healthy_reports v by (auto simp: NeedsRenewal_def all_fine_def list_all_iff)
    then show ?thesis using det(1) by simp
  qed
  from healthy_node [OF calm_answering(2) srv nc run] obtain v q v' where v: "w_fs v = w_fs healthy_world"
    "Detect frozen (detector_of node_spec) ''n'' v = (q, v')" and res: "\<And>det. q = Ok det \<and> \<not> NeedsRenewal det \<Longrightarrow>
      r = Ok \<lparr>RequeueAfter = requeueWithJitter ''n'' node_spec\<rparr> \<and> w_fs w' = w_fs healthy_world \<and>
      (\<exists>srv t. w_server w' = Some srv \<and> own ''n'' srv = Some ((entry_of ''n'' node_cfg)\<lparr>node_Certs := toCertStatuses det,
        node_LastCheckedAt := Some t, node_Phase := NodePhaseIdle, node_Node := ''n''\<rparr>))" unfolding sp by blast
  from fine [OF v(1)] v(2) obtain det where "q = Ok det \<and> \<not> NeedsRenewal det" by auto
  from res [OF this] show ?thesis using run by auto
qed

section \<open>Renewals\<close>

definition small_spec :: config_spec where
  "small_spec = node_spec\<lparr>BackupDir := ''/b'', PKIDir := ''/p'', KubeconfigDir := ''/k''\<rparr>"

definition admin_due :: detection_result where
  "admin_due = \<lparr>dr_Node = ''n'', dr_Certs = [\<lparr>ci_Name = ''admin.conf'', ci_Path = ''/nope'', ci_Expiry = base_time, ci_ResidualDays = 0,
     ci_Status = StatusExpired, ci_Subject = '''', ci_DNSNames = [], ci_IPAddresses = []\<rparr>]\<rparr>"

theorem unplaced_cert_blocks_renewal_witness:
  "fst (runRenewal calm ''n'' small_spec admin_due small_world) \<noteq> Ok ()"
  by (rule unplaced_cert_blocks_renewal [where c = "hd (dr_Certs admin_due)"])
     (simp_all add: admin_due_def CertPaths_def small_spec_def node_spec_def)

lemma small_backup: "spec_backup_manager small_spec = small_mgr" "spec_backup_manager (small_spec\<lparr>DryRun := True\<rparr>) = small_mgr"
  by (simp_all add: spec_backup_manager_def small_spec_def small_mgr_def)

lemma small_synced: "synced ''n'' small_world"
  by (simp add: synced_def small_world_def blank_world_def)

lemma small_created: "\<exists>b. backup_Create frozen small_mgr ''n'' small_world = (Ok b, snd saved_run)"
proof -
  obtain b s1 where "saved_run = (Ok b, s1)" using saved_okD by blast
  then show ?thesis unfolding Create_saved by (metis snd_conv)
qed

text \<open>The backup writes only below its directory, so nothing can be read from a path outside it.\<close>

lemma nope_unread:
  assumes "w_fs v = w_fs (snd saved_run)" shows "\<exists>e u. os_ReadFile frozen ''/nope'' v = (Err e, u)"
proof -
  let ?bp = "''/b/n/2023-11-14T22-13-20Z''"
  have t: "touches (backup_paths ?bp) (small_world\<lparr>w_tick := 1\<rparr>) (snd saved_run)"
    using create_at_touches [of ?bp frozen small_mgr "''n''"] unfolding saved_run_def keeps_def by blast
  have p: "resolve ''/nope'' = (True, [''nope''])" by code_simp
  have none: "fs_get (w_fs (small_world\<lparr>w_tick := 1\<rparr>)) (True, [''nope'']) = None" by code_simp
  have "snd (resolve ?bp) \<noteq> []" by code_simp
  then have "(True, [''nope'']) \<notin> backup_paths ?bp"
    by (cases "snd (resolve ?bp)") (auto simp: backup_paths_def pki_copy_def kube_copy_def below_def)
  then have "\<not> is_reg (fs_get (w_fs v) (True, [''nope'']))" using t none unfolding assms touches_def by (metis is_dir.elims(2) is_reg.simps(2,3))
  then show ?thesis using ReadFile_cases_nf [OF calm_no_faults(2), of v "''/nope''"] unfolding p
    by (auto split: option.splits fnode.splits)
qed

lemma small_renewal_fails: "\<exists>e w1. runRenewal frozen ''n'' small_spec admin_due small_world = (Err e, w1)"
proof -
  obtain b where b: "backup_Create frozen small_mgr ''n'' small_world = (Ok b, snd saved_run)" using small_created by blast
  have "synced ''n'' (snd saved_run)"
    using small_synced keepsD [OF api_node.keeps_Create b] by (auto simp: synced_def same_api_def)
  from patch_synced [OF calm_answering(2) this, of "update_node ''n'' (\<lambda>ns. ns\<lparr>node_BackupPath := BackupPath b\<rparr>)"]
  obtain v where v: "setNodeBackupPath frozen ''n'' (BackupPath b) (snd saved_run) = (Ok (), v)" "w_fs v = w_fs (snd saved_run)"
    by (auto simp: setNodeBackupPath_def)
  obtain e u where "os_ReadFile frozen ''/nope'' v = (Err e, u)" using nope_unread [OF v(2)] by blast
  then show ?thesis using b v(1) small_backup
    by (simp add: runRenewal_def seqE_run wrapE_run admin_due_def renew_cert_def LoadExistingCert_def readPEMFile_def
        small_spec_def node_spec_def)
qed

theorem failed_renewal_panics_witness:
  "\<exists>w2 srv. bindE (runRenewal frozen ''n'' small_spec admin_due) (after_failure frozen ''n'' small_spec)
      (\<lambda>_. after_success frozen ''n'' small_spec) small_world = (Panic nil_deref, w2) \<and>
    w_server w2 = Some srv \<and> phase_in ''n'' (config_Status srv) = NodePhaseRollingBack"
proof -
  obtain b where b: "backup_Create frozen (spec_backup_manager small_spec) ''n'' small_world = (Ok b, snd saved_run)"
    using small_created small_backup by auto
  obtain e w1 where "runRenewal frozen ''n'' small_spec admin_due small_world = (Err e, w1)" using small_renewal_fails by blast
  from failed_renewal_panics [OF calm_answering(2) small_synced b this] show ?thesis by blast
qed

theorem dry_run_marks_renewed_witness:
  "\<exists>w2 srv t ns. bindE (runRenewal frozen ''n'' (small_spec\<lparr>DryRun := True\<rparr>) admin_due) (after_failure frozen ''n'' (small_spec\<lparr>DryRun := True\<rparr>))
      (\<lambda>_. after_success frozen ''n'' (small_spec\<lparr>DryRun := True\<rparr>)) small_world =
      (Ok \<lparr>RequeueAfter = requeueWithJitter ''n'' (small_spec\<lparr>DryRun := True\<rparr>)\<rparr>, w2) \<and>
    w_server w2 = Some srv \<and> own ''n'' srv = Some ns \<and> node_LastRenewedAt ns = Some t"
proof -
  obtain b where b: "backup_Create frozen (spec_backup_manager (small_spec\<lparr>DryRun := True\<rparr>)) ''n'' small_world = (Ok b, snd saved_run)"
    using small_created small_backup by auto
  have "DryRun (small_spec\<lparr>DryRun := True\<rparr>)" by simp
  from dry_run_marks_renewed [OF calm_answering(2) small_synced this b] show ?thesis by blast
qed

section \<open>Conditions, lost updates, delays\<close>

theorem conditions_report_witness:
  "\<exists>w' srv. updateClusterConditions calm (serving (with_node ''other'' NodePhaseCritical)) = (Ok (), w') \<and> w_server w' = Some srv \<and>
     condition_says (status_Conditions (config_Status srv)) ConditionCriticalFailure = Some (critical_report True) \<and>
     condition_says (status_Conditions (config_Status srv)) ConditionCertsHealthy =
       Some (ConditionFalse, ''CertsExpiring'', ''One or more control plane certs are expiring or expired'') \<and>
     status_Phase (config_Status srv) = ClusterPhaseFailed"
proof -
  let ?w = "serving (with_node ''other'' NodePhaseCritical)"
  have es: "entries (w_cfg ?w) = {(fresh_node ''other'')\<lparr>node_Phase := NodePhaseCritical\<rparr>}"
    by (auto simp: entries_def serving_def with_node_def fmlookup_of_list split: if_splits)
  have "w_server ?w = Some (w_cfg ?w)" by (simp add: serving_def)
  from conditions_report [OF calm_answering(1) calm_conditions this] show ?thesis unfolding es Let_def
    by (auto simp: entry_critical_def entry_renewing_def)
qed

text \<open>The first call of the API server fails.\<close>

definition hiccup :: env where
  "hiccup = calm\<lparr>env_api_fault := (\<lambda>t. if t = 0 then Some (ErrMsg ''timeout'') else None)\<rparr>"

theorem critical_phase_can_be_lost_witness:
  "\<exists>w1 w2 srv. setNodePhase hiccup ''n'' NodePhaseCritical ''x'' node_world = (Err (ErrMsg ''timeout''), w1) \<and>
     updateClusterConditions hiccup w1 = (Ok (), w2) \<and> w_server w2 = Some srv \<and> own ''n'' srv = None"
proof -
  have env: "merge_contract hiccup" "alone hiccup" "env_api_fault hiccup (w_tick node_world) = Some (ErrMsg ''timeout'')"
    using calm_merges(1) calm_alone(1) by (simp_all add: hiccup_def merge_contract_def alone_def node_world_def)
  have sync: "synced ''n'' node_world" by (simp add: synced_def node_world_def)
  obtain r w1 where 1: "setNodePhase hiccup ''n'' NodePhaseCritical ''x'' node_world = (r, w1)" by fastforce
  then have w1: "w_tick w1 = 1" "w_server w1 = Some node_cfg"
    by (auto simp: setNodePhase_def patch_with_def Status_Patch_def api_call_def seqE_run get_cfg_def put_cfg_def tick_def
        hiccup_def calm_def node_world_def Let_def)
  obtain flags t where "updateClusterConditions hiccup w1 = patch_with hiccup (conditions_for hiccup flags t) (w1\<lparr>w_tick := w_tick w1 + 2\<rparr>)"
    using updateClusterConditions_run by blast
  then obtain w2 where 2: "updateClusterConditions hiccup w1 = (Ok (), w2)"
    using w1(2) by (auto simp: patch_with_def Status_Patch_def api_call_def seqE_run get_cfg_def put_cfg_def tick_def hiccup_def calm_def Let_def)
  from critical_phase_can_be_lost [OF env(1,2) sync env(3) 1 2] 1 2 show ?thesis
    by (auto simp: node_world_def own_def node_cfg_def)
qed

theorem jitter_bounds_witness:
  "requeueInterval node_spec \<le> requeueWithJitter ''n'' node_spec \<and> requeueWithJitter ''n'' node_spec < requeueInterval node_spec + 120 * ns_second"
  using jitter_bounds [of node_spec "''n''"] by (simp add: node_spec_def)

end
