(* ===== verification/Kubeconfig.thy ===== *)
theory Kubeconfig
  imports Detector Signer Go_Json_Struct Returns
begin

text \<open>
  \<^verbatim>\<open>pkg/kubeconfig/kubeconfig.go\<close>: new client certificates for the kubeconfig files. Their Go structs
  carry \<^verbatim>\<open>yaml\<close> tags, and \<^verbatim>\<open>sigs.k8s.io/yaml\<close> goes through \<^verbatim>\<open>encoding/json\<close>, which knows \<^verbatim>\<open>json\<close> tags
  only: fields are read by the names of the Go fields, whatever their case, and written under them.
\<close>

section \<open>The file\<close>

text \<open>A slice is \<open>None\<close> when it is nil.\<close>

record cluster_info =
  Server :: string
  CertificateAuthorityData :: string

record kube_cluster =
  cluster_Name :: string
  cluster_Cluster :: cluster_info

record user_data =
  ClientCertificateData :: string
  ClientKeyData :: string

record kube_user =
  user_Name :: string
  user_User :: user_data

record context_info =
  context_Cluster :: string
  context_User :: string

record kube_context =
  context_Name :: string
  context_Context :: context_info

record kubeconfig_file =
  APIVersion :: string
  Kind :: string
  Clusters :: "kube_cluster list option"
  Users :: "kube_user list option"
  Contexts :: "kube_context list option"
  CurrentContext :: string

definition zero_kubeconfig :: kubeconfig_file where
  "zero_kubeconfig = \<lparr>APIVersion = '''', Kind = '''', Clusters = None, Users = None, Contexts = None, CurrentContext = ''''\<rparr>"

section \<open>Reading it\<close>

text \<open>
  A struct and a slice of structs, by the function that sets a field. A slice is decoded into zero
  values: that a second spelling of its key in one object would be decoded over the elements of the first
  is not modelled.
\<close>

definition into_struct :: "(string \<Rightarrow> json \<Rightarrow> 'a \<Rightarrow> goerr + 'a) \<Rightarrow> json \<Rightarrow> 'a \<Rightarrow> goerr + 'a" where
  "into_struct set_field j old = (case j of
     JNull \<Rightarrow> Inr old
   | JObj kvs \<Rightarrow> set_fields set_field kvs old
   | _ \<Rightarrow> type_error j ''struct'')"

fun into_items :: "(json \<Rightarrow> goerr + 'a) \<Rightarrow> json list \<Rightarrow> goerr + 'a list" where
  "into_items f [] = Inr []"
| "into_items f (j # js) = (case f j of Inl e \<Rightarrow> Inl e | Inr x \<Rightarrow> map_ok (\<lambda>xs. x # xs) (into_items f js))"

definition into_slice :: "(json \<Rightarrow> goerr + 'a) \<Rightarrow> json \<Rightarrow> goerr + 'a list option" where
  "into_slice f j = (case j of
     JNull \<Rightarrow> Inr None
   | JArr js \<Rightarrow> map_ok Some (into_items f js)
   | _ \<Rightarrow> type_error j ''slice'')"

definition set_cluster_info :: "string \<Rightarrow> json \<Rightarrow> cluster_info \<Rightarrow> goerr + cluster_info" where
  "set_cluster_info k j c =
     (if equal_fold k ''Server'' then map_ok (\<lambda>v. c\<lparr>Server := v\<rparr>) (into_string j (Server c))
      else if equal_fold k ''CertificateAuthorityData''
      then map_ok (\<lambda>v. c\<lparr>CertificateAuthorityData := v\<rparr>) (into_string j (CertificateAuthorityData c))
      else Inr c)"

definition set_cluster :: "string \<Rightarrow> json \<Rightarrow> kube_cluster \<Rightarrow> goerr + kube_cluster" where
  "set_cluster k j c =
     (if equal_fold k ''Name'' then map_ok (\<lambda>v. c\<lparr>cluster_Name := v\<rparr>) (into_string j (cluster_Name c))
      else if equal_fold k ''Cluster''
      then map_ok (\<lambda>v. c\<lparr>cluster_Cluster := v\<rparr>) (into_struct set_cluster_info j (cluster_Cluster c))
      else Inr c)"

definition set_user_data :: "string \<Rightarrow> json \<Rightarrow> user_data \<Rightarrow> goerr + user_data" where
  "set_user_data k j u =
     (if equal_fold k ''ClientCertificateData''
      then map_ok (\<lambda>v. u\<lparr>ClientCertificateData := v\<rparr>) (into_string j (ClientCertificateData u))
      else if equal_fold k ''ClientKeyData'' then map_ok (\<lambda>v. u\<lparr>ClientKeyData := v\<rparr>) (into_string j (ClientKeyData u))
      else Inr u)"

definition set_user :: "string \<Rightarrow> json \<Rightarrow> kube_user \<Rightarrow> goerr + kube_user" where
  "set_user k j u =
     (if equal_fold k ''Name'' then map_ok (\<lambda>v. u\<lparr>user_Name := v\<rparr>) (into_string j (user_Name u))
      else if equal_fold k ''User'' then map_ok (\<lambda>v. u\<lparr>user_User := v\<rparr>) (into_struct set_user_data j (user_User u))
      else Inr u)"

definition set_context_info :: "string \<Rightarrow> json \<Rightarrow> context_info \<Rightarrow> goerr + context_info" where
  "set_context_info k j c =
     (if equal_fold k ''Cluster'' then map_ok (\<lambda>v. c\<lparr>context_Cluster := v\<rparr>) (into_string j (context_Cluster c))
      else if equal_fold k ''User'' then map_ok (\<lambda>v. c\<lparr>context_User := v\<rparr>) (into_string j (context_User c))
      else Inr c)"

definition set_context :: "string \<Rightarrow> json \<Rightarrow> kube_context \<Rightarrow> goerr + kube_context" where
  "set_context k j c =
     (if equal_fold k ''Name'' then map_ok (\<lambda>v. c\<lparr>context_Name := v\<rparr>) (into_string j (context_Name c))
      else if equal_fold k ''Context''
      then map_ok (\<lambda>v. c\<lparr>context_Context := v\<rparr>) (into_struct set_context_info j (context_Context c))
      else Inr c)"

definition zero_cluster :: kube_cluster where
  "zero_cluster = \<lparr>cluster_Name = '''', cluster_Cluster = \<lparr>Server = '''', CertificateAuthorityData = ''''\<rparr>\<rparr>"

definition zero_user :: kube_user where
  "zero_user = \<lparr>user_Name = '''', user_User = \<lparr>ClientCertificateData = '''', ClientKeyData = ''''\<rparr>\<rparr>"

definition zero_context :: kube_context where
  "zero_context = \<lparr>context_Name = '''', context_Context = \<lparr>context_Cluster = '''', context_User = ''''\<rparr>\<rparr>"

definition set_kubeconfig :: "string \<Rightarrow> json \<Rightarrow> kubeconfig_file \<Rightarrow> goerr + kubeconfig_file" where
  "set_kubeconfig k j kc =
     (if equal_fold k ''APIVersion'' then map_ok (\<lambda>v. kc\<lparr>APIVersion := v\<rparr>) (into_string j (APIVersion kc))
      else if equal_fold k ''Kind'' then map_ok (\<lambda>v. kc\<lparr>Kind := v\<rparr>) (into_string j (Kind kc))
      else if equal_fold k ''Clusters''
      then map_ok (\<lambda>v. kc\<lparr>Clusters := v\<rparr>) (into_slice (\<lambda>j. into_struct set_cluster j zero_cluster) j)
      else if equal_fold k ''Users''
      then map_ok (\<lambda>v. kc\<lparr>Users := v\<rparr>) (into_slice (\<lambda>j. into_struct set_user j zero_user) j)
      else if equal_fold k ''Contexts''
      then map_ok (\<lambda>v. kc\<lparr>Contexts := v\<rparr>) (into_slice (\<lambda>j. into_struct set_context j zero_context) j)
      else if equal_fold k ''CurrentContext'' then map_ok (\<lambda>v. kc\<lparr>CurrentContext := v\<rparr>) (into_string j (CurrentContext kc))
      else Inr kc)"

text \<open>\<^verbatim>\<open>yaml.Unmarshal(data, &kc)\<close> and \<^verbatim>\<open>yaml.Marshal(&kc)\<close>\<close>

definition unmarshal_kubeconfig :: "env \<Rightarrow> string \<Rightarrow> goerr + kubeconfig_file" where
  "unmarshal_kubeconfig E data = (case env_yaml_to_strings E data of
     Inl e \<Rightarrow> Inl e
   | Inr j \<Rightarrow> into_struct set_kubeconfig j zero_kubeconfig)"

section \<open>Writing it\<close>

definition slice_json :: "('a \<Rightarrow> json) \<Rightarrow> 'a list option \<Rightarrow> json" where
  "slice_json f xs = (case xs of None \<Rightarrow> JNull | Some xs \<Rightarrow> JArr (map f xs))"

definition cluster_json :: "kube_cluster \<Rightarrow> json" where
  "cluster_json c = JObj [(''Name'', JStr (cluster_Name c)),
     (''Cluster'', JObj [(''Server'', JStr (Server (cluster_Cluster c))),
        (''CertificateAuthorityData'', JStr (CertificateAuthorityData (cluster_Cluster c)))])]"

definition user_json :: "kube_user \<Rightarrow> json" where
  "user_json u = JObj [(''Name'', JStr (user_Name u)),
     (''User'', JObj [(''ClientCertificateData'', JStr (ClientCertificateData (user_User u))),
        (''ClientKeyData'', JStr (ClientKeyData (user_User u)))])]"

definition context_json :: "kube_context \<Rightarrow> json" where
  "context_json c = JObj [(''Name'', JStr (context_Name c)),
     (''Context'', JObj [(''Cluster'', JStr (context_Cluster (context_Context c))),
        (''User'', JStr (context_User (context_Context c)))])]"

definition kubeconfig_json :: "kubeconfig_file \<Rightarrow> json" where
  "kubeconfig_json kc = JObj
     [(''APIVersion'', JStr (APIVersion kc)), (''Kind'', JStr (Kind kc)),
      (''Clusters'', slice_json cluster_json (Clusters kc)), (''Users'', slice_json user_json (Users kc)),
      (''Contexts'', slice_json context_json (Contexts kc)), (''CurrentContext'', JStr (CurrentContext kc))]"

definition marshal_kubeconfig :: "env \<Rightarrow> kubeconfig_file \<Rightarrow> goerr + string" where
  "marshal_kubeconfig E kc = env_json_to_yaml E (kubeconfig_json kc)"

section \<open>Renewing\<close>

definition kubeconfig_identities :: "(string \<times> string) list" where
  "kubeconfig_identities =
     [(''admin.conf'', ''kubernetes-admin''),
      (''controller-manager.conf'', ''system:kube-controller-manager''),
      (''scheduler.conf'', ''system:kube-scheduler''),
      (''super-admin.conf'', ''kubernetes-super-admin'')]"

record kubeconfig_manager =
  km_kubeconfigDir :: string
  km_pkiDir :: string
  km_dryRun :: bool

definition kubeconfig_New :: "string \<Rightarrow> string \<Rightarrow> bool \<Rightarrow> kubeconfig_manager" where
  "kubeconfig_New kdir pdir dry = \<lparr>km_kubeconfigDir = kdir, km_pkiDir = pdir, km_dryRun = dry\<rparr>"

text \<open>
  \<^verbatim>\<open>x509.KeyUsageDigitalSignature\<close> is bit 0 and \<^verbatim>\<open>x509.KeyUsageKeyEncipherment\<close> bit 2;
  \<^verbatim>\<open>x509.ExtKeyUsageClientAuth\<close> is 2. The clock is read once for each end of the validity.
\<close>

definition buildClientCertTemplate :: "env \<Rightarrow> string \<Rightarrow> certificate go" where
  "buildClientCertTemplate E commonName =
     seqE tick (\<lambda>t.
       case env_rand_serial E t of
         Inl e \<Rightarrow> fail (Wrapf ''generating serial'' e)
       | Inr serial \<Rightarrow>
           seqE (time_now E) (\<lambda>now1. seqE (time_now E) (\<lambda>now2. ret (zero_certificate
             \<lparr>SerialNumber := serial,
              Subject := zero_name\<lparr>CommonName := commonName, Organization := [''system:masters'']\<rparr>,
              NotBefore := now1 - 10 * ns_minute,
              NotAfter := now2 + 365 * 24 * ns_hour,
              KeyUsage := 1 OR 4,
              ExtKeyUsage := [2],
              BasicConstraintsValid := True\<rparr>))))"

definition generateClientCert :: "env \<Rightarrow> string \<Rightarrow> certificate \<Rightarrow> rsa_key \<Rightarrow> (string \<times> string) go" where
  "generateClientCert E commonName caCert caKey =
     seqE (wrapE ''generating key'' (GenerateKey E)) (\<lambda>newKey.
     seqE (buildClientCertTemplate E commonName) (\<lambda>template.
     seqE (Sign E template caCert caKey (PublicKey newKey)) (\<lambda>certDER.
     ret (EncodeCertPEM E certDER, EncodeKeyPEM E newKey))))"

text \<open>The first user gets the new pair.\<close>

definition embed :: "string \<Rightarrow> string \<Rightarrow> kubeconfig_file \<Rightarrow> kubeconfig_file" where
  "embed certPEM keyPEM kc = (case Users kc of
     Some (u # us) \<Rightarrow> kc\<lparr>Users := Some (u\<lparr>user_User := \<lparr>ClientCertificateData = base64_encode certPEM,
        ClientKeyData = base64_encode keyPEM\<rparr>\<rparr> # us)\<rparr>
   | _ \<Rightarrow> kc)"

definition no_users :: "kubeconfig_file \<Rightarrow> bool" where
  "no_users kc \<longleftrightarrow> (case Users kc of None \<Rightarrow> True | Some us \<Rightarrow> us = [])"

text \<open>After the file was read.\<close>

definition renew_data :: "env \<Rightarrow> kubeconfig_manager \<Rightarrow> string \<Rightarrow> string \<Rightarrow> string \<Rightarrow> string \<Rightarrow> unit go" where
  "renew_data E m filename commonName fullPath data =
     (case unmarshal_kubeconfig E data of
        Inl e \<Rightarrow> fail (Wrapf (''parsing '' @ filename) e)
      | Inr kc \<Rightarrow>
          if no_users kc then fail (ErrMsg (''no users found in '' @ filename))
          else
            seqE (wrapE ''loading CA cert'' (LoadCACert E (filepath_Join [km_pkiDir m, ''ca.crt'']))) (\<lambda>caCert.
            seqE (wrapE ''loading CA key'' (LoadCAKey E (filepath_Join [km_pkiDir m, ''ca.key'']))) (\<lambda>caKey.
            seqE (wrapE (''generating client cert for '' @ commonName) (generateClientCert E commonName caCert caKey))
              (\<lambda>(certPEM, keyPEM).
            if km_dryRun m then ret ()
            else (case marshal_kubeconfig E (embed certPEM keyPEM kc) of
                Inl e \<Rightarrow> fail (Wrapf (''marshalling updated '' @ filename) e)
              | Inr updated \<Rightarrow>
                  seqE (wrapE (''statting '' @ fullPath) (os_Stat E fullPath)) (\<lambda>info.
                  wrapE (''writing updated '' @ filename) (os_WriteFile E fullPath updated (fi_Mode info))))))))"

definition kubeconfig_Renew :: "env \<Rightarrow> kubeconfig_manager \<Rightarrow> string \<Rightarrow> string \<Rightarrow> unit go" where
  "kubeconfig_Renew E m filename commonName =
     (let fullPath = filepath_Join [km_kubeconfigDir m, filename] in
      bindE (os_ReadFile E fullPath)
        (\<lambda>e. if is_not_exist e then ret () else fail (Wrapf (''reading '' @ filename) e))
        (renew_data E m filename commonName fullPath))"

definition kubeconfig_RenewAll :: "env \<Rightarrow> kubeconfig_manager \<Rightarrow> unit go" where
  "kubeconfig_RenewAll E m =
     seqE (map_range E kubeconfig_identities) (\<lambda>kvs.
     for_each (\<lambda>(filename, commonName).
       wrapE (''renewing kubeconfig '' @ filename) (kubeconfig_Renew E m filename commonName)) kvs)"

section \<open>What a renewal writes\<close>

context tick_blind begin

lemma keeps_generateClientCert [keeps_intro]: "keeps R (generateClientCert E commonName caCert caKey)"
  unfolding generateClientCert_def buildClientCertTemplate_def
  by (auto intro!: keeps_seqE keeps_wrapE keeps_tick keeps_time_now keeps_GenerateKey keeps_Sign keeps_ret keeps_fail
      split: sum.split)

lemma keeps_renew_data:
  assumes "\<And>data perm. \<not> km_dryRun m \<Longrightarrow> keeps R (os_WriteFile E path data perm)"
  shows "keeps R (renew_data E m filename commonName path data)"
  unfolding renew_data_def LoadCACert_def using assms
  by (auto intro!: keeps_seqE keeps_wrapE keeps_if keeps_LoadExistingCert keeps_LoadCAKey keeps_generateClientCert
      keeps_Stat keeps_ret keeps_fail split: sum.split prod.split)

lemma keeps_kubeconfig_Renew:
  assumes "\<And>data perm. \<not> km_dryRun m \<Longrightarrow> keeps R (os_WriteFile E (filepath_Join [km_kubeconfigDir m, filename]) data perm)"
  shows "keeps R (kubeconfig_Renew E m filename commonName)"
  unfolding kubeconfig_Renew_def Let_def using assms
  by (auto intro!: keeps_bindE keeps_ReadFile keeps_if keeps_renew_data keeps_ret keeps_fail)

lemma keeps_for_range:
  assumes "\<And>x. x \<in> set xs \<Longrightarrow> keeps R (f x)" shows "keeps R (seqE (map_range E xs) (for_each f))"
proof
  fix w :: world
  let ?ys = "shuffle (env_pick E (w_tick w)) xs" and ?v = "w\<lparr>w_tick := Suc (w_tick w)\<rparr>"
  have "keeps R (for_each f ?ys)" using assms by (intro keeps_for_each) simp
  then have "R ?v (snd (for_each f ?ys ?v))" by (simp add: keeps_def)
  moreover have "seqE (map_range E xs) (for_each f) w = for_each f ?ys ?v"
    by (simp add: map_range_def seqE_run tick_def)
  ultimately show "R w (snd (seqE (map_range E xs) (for_each f) w))" using blind kept_trans by metis
qed

end

definition kubeconfig_paths :: "kubeconfig_manager \<Rightarrow> fpath set" where
  "kubeconfig_paths m = (\<lambda>f. resolve (filepath_Join [km_kubeconfigDir m, f])) ` fst ` set kubeconfig_identities"

text \<open>
  \<^verbatim>\<open>RenewAll\<close> changes nothing but the four kubeconfig files, whatever fails on the way, and in a
  dry run nothing at all.
\<close>

theorem RenewAll_writes:
  "\<exists>r w'. kubeconfig_RenewAll E m w = (r, w') \<and> changes_only (if km_dryRun m then {} else kubeconfig_paths m) w w'"
proof -
  let ?A = "if km_dryRun m then {} else kubeconfig_paths m"
  have "keeps (changes_only ?A) (kubeconfig_Renew E m f cn)" if "(f, cn) \<in> set kubeconfig_identities" for f cn
    using that by (intro fs_frame.keeps_kubeconfig_Renew WriteFile_keeps_fs) (force simp: kubeconfig_paths_def)
  then have "keeps (changes_only ?A) (kubeconfig_RenewAll E m)"
    unfolding kubeconfig_RenewAll_def by (intro fs_frame.keeps_for_range) (auto intro!: fs_frame.keeps_wrapE)
  then show ?thesis by (simp add: keeps_def prod_eq_iff)
qed

lemma generateClientCert_okD:
  assumes "generateClientCert E commonName caCert caKey w = (Ok (certPEM, keyPEM), w')"
  shows "\<exists>key template der t. env_create_cert E t template caCert (PublicKey key) caKey = Inr der \<and>
    Subject template = zero_name\<lparr>CommonName := commonName, Organization := [''system:masters'']\<rparr> \<and>
    ExtKeyUsage template = [2] \<and> \<not> IsCA template \<and>
    certPEM = EncodeCertPEM E der \<and> keyPEM = EncodeKeyPEM E key"
proof -
  from assms obtain key w1 template w2 der where run: "buildClientCertTemplate E commonName w1 = (Ok template, w2)"
    "env_create_cert E (w_tick w2) template caCert (PublicKey key) caKey = Inr der"
    "certPEM = EncodeCertPEM E der" "keyPEM = EncodeKeyPEM E key"
    unfolding generateClientCert_def Sign_def by (auto simp: ok_iff tick_def)
  moreover from run(1) have "Subject template = zero_name\<lparr>CommonName := commonName, Organization := [''system:masters'']\<rparr>"
    "ExtKeyUsage template = [2]" "\<not> IsCA template"
    by (auto simp: buildClientCertTemplate_def ok_iff zero_certificate_def)
  ultimately show ?thesis by blast
qed

text \<open>A renewal that returns nil for a file that is there.\<close>

lemma kubeconfig_Renew_okD:
  assumes run: "kubeconfig_Renew E m filename commonName w = (Ok u, w')" and live: "\<not> km_dryRun m"
    and old: "fs_get (w_fs w) (resolve (filepath_Join [km_kubeconfigDir m, filename])) = Some (Reg data mode)"
  shows "\<exists>kc caCert caKey certPEM keyPEM updated w1 w2.
    unmarshal_kubeconfig E data = Inr kc \<and> \<not> no_users kc \<and>
    generateClientCert E commonName caCert caKey w1 = (Ok (certPEM, keyPEM), w2) \<and>
    marshal_kubeconfig E (embed certPEM keyPEM kc) = Inr updated \<and>
    fs_get (w_fs w') (resolve (filepath_Join [km_kubeconfigDir m, filename])) = Some (Reg updated mode)"
proof -
  let ?p = "filepath_Join [km_kubeconfigDir m, filename]"
  have "\<not> is_not_exist e" if "os_ReadFile E ?p w = (Err e, v)" for e v
    using that old by (auto simp: os_ReadFile_def syscall_def go_run tick_def get_fs_def split: option.splits)
  with run obtain d v where d: "os_ReadFile E ?p w = (Ok d, v)"
    and r: "renew_data E m filename commonName ?p d v = (Ok u, w')"
    unfolding kubeconfig_Renew_def Let_def by (auto simp: ok_iff split: if_splits)
  from ReadFile_okD [OF d] old have dv: "d = data" "w_fs v = w_fs w" by auto
  from r dv(1) live obtain kc caCert caKey w0 w1 certPEM keyPEM w2 updated info w3
    where *: "unmarshal_kubeconfig E data = Inr kc" "\<not> no_users kc"
    "LoadCACert E (filepath_Join [km_pkiDir m, ''ca.crt'']) v = (Ok caCert, w0)"
    "LoadCAKey E (filepath_Join [km_pkiDir m, ''ca.key'']) w0 = (Ok caKey, w1)"
    "generateClientCert E commonName caCert caKey w1 = (Ok (certPEM, keyPEM), w2)"
    "marshal_kubeconfig E (embed certPEM keyPEM kc) = Inr updated"
    "os_Stat E ?p w2 = (Ok info, w3)" "os_WriteFile E ?p updated (fi_Mode info) w3 = (Ok u, w')"
    unfolding renew_data_def by (auto simp: ok_iff split: if_splits)
  have "keeps quiet (LoadCACert E q)" for q
    unfolding LoadCACert_def by (rule look.keeps_LoadExistingCert)
  then have "quiet v w0" using *(3) by (rule keepsD)
  moreover have "quiet w0 w1" using look.keeps_LoadCAKey *(4) by (rule keepsD)
  moreover have "quiet w1 w2" using look.keeps_generateClientCert *(5) by (rule keepsD)
  moreover have "quiet w2 w3" using look.keeps_Stat *(7) by (rule keepsD)
  ultimately have "w_fs w3 = w_fs w" using dv(2) by (simp add: quiet_def)
  then have "fs_get (w_fs w') (resolve ?p) = Some (Reg updated mode)"
    using WriteFile_okD [OF *(8)] old by (simp add: written_mode_def)
  then show ?thesis using *(1,2,5,6) by blast
qed

text \<open>
  C17. A kubeconfig that is renewed holds a new pair for its first user: the CA's signature over a client
  certificate for the identity, in the group \<^verbatim>\<open>system:masters\<close> and for client authentication
  only, with the matching key, both in base64; the other users and the permission bits stay.
\<close>

theorem kubeconfig_Renew_embeds:
  assumes "kubeconfig_Renew E m filename commonName w = (Ok u, w')" and "\<not> km_dryRun m"
    and "fs_get (w_fs w) (resolve (filepath_Join [km_kubeconfigDir m, filename])) = Some (Reg data mode)"
  shows "\<exists>kc a us a' updated caCert caKey key template der t.
    unmarshal_kubeconfig E data = Inr kc \<and> Users kc = Some (a # us) \<and>
    fs_get (w_fs w') (resolve (filepath_Join [km_kubeconfigDir m, filename])) = Some (Reg updated mode) \<and>
    marshal_kubeconfig E (kc\<lparr>Users := Some (a' # us)\<rparr>) = Inr updated \<and> user_Name a' = user_Name a \<and>
    base64_decode (ClientCertificateData (user_User a')) = Inr (EncodeCertPEM E der) \<and>
    base64_decode (ClientKeyData (user_User a')) = Inr (EncodeKeyPEM E key) \<and>
    env_create_cert E t template caCert (PublicKey key) caKey = Inr der \<and>
    CommonName (Subject template) = commonName \<and> Organization (Subject template) = [''system:masters''] \<and>
    ExtKeyUsage template = [2] \<and> \<not> IsCA template"
proof -
  from kubeconfig_Renew_okD [OF assms] obtain kc caCert caKey certPEM keyPEM updated w1 w2 where
    *: "unmarshal_kubeconfig E data = Inr kc" "\<not> no_users kc"
    "generateClientCert E commonName caCert caKey w1 = (Ok (certPEM, keyPEM), w2)"
    "marshal_kubeconfig E (embed certPEM keyPEM kc) = Inr updated"
    "fs_get (w_fs w') (resolve (filepath_Join [km_kubeconfigDir m, filename])) = Some (Reg updated mode)" by blast
  from *(2) obtain a us where us: "Users kc = Some (a # us)"
    by (auto simp: no_users_def neq_Nil_conv split: option.splits)
  let ?a' = "a\<lparr>user_User := \<lparr>ClientCertificateData = base64_encode certPEM, ClientKeyData = base64_encode keyPEM\<rparr>\<rparr>"
  have e: "embed certPEM keyPEM kc = kc\<lparr>Users := Some (?a' # us)\<rparr>" by (simp add: embed_def us)
  note out = *(4) [unfolded e]
  from generateClientCert_okD [OF *(3)] obtain key template der t where
    g: "env_create_cert E t template caCert (PublicKey key) caKey = Inr der"
    "Subject template = zero_name\<lparr>CommonName := commonName, Organization := [''system:masters'']\<rparr>"
    "ExtKeyUsage template = [2]" "\<not> IsCA template" "certPEM = EncodeCertPEM E der" "keyPEM = EncodeKeyPEM E key" by blast
  show ?thesis
    by (rule exI [of _ kc], rule exI [of _ a], rule exI [of _ us], rule exI [of _ ?a'], rule exI [of _ updated],
        rule exI [of _ caCert], rule exI [of _ caKey], rule exI [of _ key], rule exI [of _ template],
        rule exI [of _ der], rule exI [of _ t])
      (use *(1,5) us g out in simp)
qed

section \<open>What a renewal loses\<close>

text \<open>No object inside the value has the key, in whatever case.\<close>

fun no_key :: "string \<Rightarrow> json \<Rightarrow> bool" where
  "no_key key (JObj kvs) \<longleftrightarrow> (\<forall>(k, j)\<in>set kvs. \<not> equal_fold k key \<and> no_key key j)"
| "no_key key (JArr js) \<longleftrightarrow> (\<forall>j\<in>set js. no_key key j)"
| "no_key _ _ \<longleftrightarrow> True"

lemma into_struct_kept:
  assumes "into_struct f j x = Inr y" and "no_key key j" and "P x"
    and "\<And>k j a b. \<not> equal_fold k key \<Longrightarrow> no_key key j \<Longrightarrow> P a \<Longrightarrow> f k j a = Inr b \<Longrightarrow> P b"
  shows "P y"
proof (cases j)
  case (JObj kvs)
  then have "set_fields f kvs x = Inr y" using assms(1) by (simp add: into_struct_def)
  then show ?thesis using assms(3)
  proof (rule set_fields_kept)
    fix k v a b assume "(k, v) \<in> set kvs" "P a" "f k v a = Inr b"
    then show "P b" using assms(2) JObj by (intro assms(4) [of k v a b]) auto
  qed
qed (use assms in \<open>auto simp: into_struct_def type_error_def\<close>)

lemma into_items_all:
  "into_items f js = Inr xs \<Longrightarrow> (\<And>j x. j \<in> set js \<Longrightarrow> f j = Inr x \<Longrightarrow> P x) \<Longrightarrow> x \<in> set xs \<Longrightarrow> P x"
proof (induction js arbitrary: xs)
  case (Cons j js)
  from Cons.prems(1) obtain y ys where "f j = Inr y" "into_items f js = Inr ys" "xs = y # ys"
    by (auto simp: map_ok_def split: sum.splits)
  then show ?case using Cons by auto
qed simp

definition without_ca :: "kubeconfig_file \<Rightarrow> bool" where
  "without_ca kc \<longleftrightarrow> (\<forall>cs. Clusters kc = Some cs \<longrightarrow> (\<forall>c\<in>set cs. CertificateAuthorityData (cluster_Cluster c) = ''''))"

lemma cluster_without_ca:
  assumes "into_struct set_cluster j zero_cluster = Inr c" and "no_key ''CertificateAuthorityData'' j"
  shows "CertificateAuthorityData (cluster_Cluster c) = ''''"
  using assms
proof (rule into_struct_kept [where P = "\<lambda>c. CertificateAuthorityData (cluster_Cluster c) = ''''"])
  fix k j a b
  assume "no_key ''CertificateAuthorityData'' j" "CertificateAuthorityData (cluster_Cluster a) = ''''" "set_cluster k j a = Inr b"
  moreover have "CertificateAuthorityData y = ''''"
    if "into_struct set_cluster_info v x = Inr y" "no_key ''CertificateAuthorityData'' v" "CertificateAuthorityData x = ''''" for v x y
    using that
    by (rule into_struct_kept [where P = "\<lambda>c. CertificateAuthorityData c = ''''"])
       (auto simp: set_cluster_info_def map_ok_def split: if_splits sum.splits)
  ultimately show "CertificateAuthorityData (cluster_Cluster b) = ''''"
    by (auto simp: set_cluster_def map_ok_def split: if_splits sum.splits)
qed (simp add: zero_cluster_def)

lemma unmarshal_without_ca:
  assumes "into_struct set_kubeconfig j zero_kubeconfig = Inr kc" and "no_key ''CertificateAuthorityData'' j"
  shows "without_ca kc"
  using assms
proof (rule into_struct_kept [where P = without_ca])
  fix k j a b
  assume j: "no_key ''CertificateAuthorityData'' j" and a: "without_ca a" "set_kubeconfig k j a = Inr b"
  have "CertificateAuthorityData (cluster_Cluster c) = ''''"
    if "into_slice (\<lambda>j. into_struct set_cluster j zero_cluster) j = Inr (Some cs)" "c \<in> set cs" for cs c
  proof -
    from that(1) obtain js where "j = JArr js" "into_items (\<lambda>j. into_struct set_cluster j zero_cluster) js = Inr cs"
      by (auto simp: into_slice_def map_ok_def type_error_def split: json.splits sum.splits)
    then show ?thesis using that(2) j by (auto intro: cluster_without_ca elim!: into_items_all)
  qed
  then show "without_ca b" using a
    by (auto simp: without_ca_def set_kubeconfig_def map_ok_def split: if_splits sum.splits)
qed (simp add: without_ca_def zero_kubeconfig_def)

lemma unmarshal_without_context:
  assumes "into_struct set_kubeconfig j zero_kubeconfig = Inr kc" and "no_key ''CurrentContext'' j"
  shows "CurrentContext kc = ''''"
  using assms
  by (rule into_struct_kept [where P = "\<lambda>kc. CurrentContext kc = ''''"])
     (auto simp: zero_kubeconfig_def set_kubeconfig_def map_ok_def split: if_splits sum.splits)

lemma embed_keeps [simp]:
  "Clusters (embed c k kc) = Clusters kc" "CurrentContext (embed c k kc) = CurrentContext kc"
  by (simp_all add: embed_def split: option.split list.split)

text \<open>
  C14. A kubeconfig that is renewed is broken by it. The written object has the names of the Go fields,
  with no \<^verbatim>\<open>users\<close> among them: reading the file back, which gives an object with the keys that were
  written, the detector finds no certificate. The keys with hyphens of the old file match no field:
  what is written has an empty current context and clusters without the certificate of their CA.
\<close>

theorem renewed_kubeconfig_unreadable:
  assumes run: "kubeconfig_Renew E m filename commonName w = (Ok u, w')" and live: "\<not> km_dryRun m"
    and old: "fs_get (w_fs w) (resolve (filepath_Join [km_kubeconfigDir m, filename])) = Some (Reg data mode)"
    and hyphens: "env_yaml_to_strings E data = Inr j" "no_key ''CertificateAuthorityData'' j" "no_key ''CurrentContext'' j"
    and yaml: "\<And>kvs y. env_json_to_yaml E (JObj kvs) = Inr y \<Longrightarrow>
      \<exists>kvs'. env_yaml_to_json E y = Inr (JObj kvs') \<and> fst ` set kvs' = fst ` set kvs"
  shows "\<exists>kc updated. marshal_kubeconfig E kc = Inr updated \<and>
    fs_get (w_fs w') (resolve (filepath_Join [km_kubeconfigDir m, filename])) = Some (Reg updated mode) \<and>
    kubeconfig_cert E path updated = Inl (ErrMsg (''no users field in kubeconfig '' @ path)) \<and>
    CurrentContext kc = '''' \<and> without_ca kc"
proof -
  from kubeconfig_Renew_okD [OF run live old] obtain kc certPEM keyPEM updated where
    kc: "unmarshal_kubeconfig E data = Inr kc" and out: "marshal_kubeconfig E (embed certPEM keyPEM kc) = Inr updated"
    and disk: "fs_get (w_fs w') (resolve (filepath_Join [km_kubeconfigDir m, filename])) = Some (Reg updated mode)"
    by blast
  let ?kvs = "[(''APIVersion'', JStr (APIVersion (embed certPEM keyPEM kc))), (''Kind'', JStr (Kind (embed certPEM keyPEM kc))),
    (''Clusters'', slice_json cluster_json (Clusters (embed certPEM keyPEM kc))),
    (''Users'', slice_json user_json (Users (embed certPEM keyPEM kc))),
    (''Contexts'', slice_json context_json (Contexts (embed certPEM keyPEM kc))),
    (''CurrentContext'', JStr (CurrentContext (embed certPEM keyPEM kc)))]"
  have "env_json_to_yaml E (JObj ?kvs) = Inr updated"
    using out unfolding marshal_kubeconfig_def kubeconfig_json_def .
  then obtain kvs' where y: "env_yaml_to_json E updated = Inr (JObj kvs')" and keys: "fst ` set kvs' = fst ` set ?kvs"
    using yaml by blast
  have "''users'' \<notin> fst ` set ?kvs" by simp
  then have "map_of kvs' ''users'' = None" unfolding map_of_eq_None_iff keys .
  with y have err: "kubeconfig_cert E path updated = Inl (ErrMsg (''no users field in kubeconfig '' @ path))"
    by (simp add: kubeconfig_cert_def yaml_unmarshal_map_def extractClientCertData_def)
  have "into_struct set_kubeconfig j zero_kubeconfig = Inr kc" using kc hyphens(1) by (simp add: unmarshal_kubeconfig_def)
  then have "without_ca kc" "CurrentContext kc = ''''"
    using unmarshal_without_ca unmarshal_without_context hyphens by blast+
  then have "without_ca (embed certPEM keyPEM kc)" "CurrentContext (embed certPEM keyPEM kc) = ''''"
    by (simp_all add: without_ca_def)
  then show ?thesis using out disk err by blast
qed

end
