(* ===== verification/Witnesses_Kubeconfig.thy ===== *)
theory Witnesses_Kubeconfig
  imports Scenario Kubeconfig Go_Json_Text
begin

text \<open>
  The theorems on the renewal of kubeconfig files, applied to a node with the admin's kubeconfig; the
  YAML text of a value is its JSON text, which is YAML.
\<close>

definition yaml_write :: "json \<Rightarrow> goerr + string" where
  "yaml_write j = (if textual j then Inr (encode 0 j) else Inl (ErrMsg ''numbers''))"

definition yaml_read :: "string \<Rightarrow> goerr + json" where
  "yaml_read y = (case decode y of None \<Rightarrow> Inl (ErrMsg ''syntax'') | Some j \<Rightarrow> Inr j)"

definition yaml_calm :: env where
  "yaml_calm = calm\<lparr>env_json_to_yaml := yaml_write, env_yaml_to_json := yaml_read, env_yaml_to_strings := yaml_read\<rparr>"

lemma yaml_read_write: "yaml_write j = Inr y \<Longrightarrow> yaml_read y = Inr j"
  by (auto simp: yaml_write_def yaml_read_def decode_encode simp del: encode.simps split: if_splits)

lemma yaml_keys: "env_json_to_yaml yaml_calm (JObj kvs) = Inr y \<Longrightarrow>
    \<exists>kvs'. env_yaml_to_json yaml_calm y = Inr (JObj kvs') \<and> fst ` set kvs' = fst ` set kvs"
  using yaml_read_write [of "JObj kvs" y] by (simp add: yaml_calm_def)

definition admin_conf :: json where
  "admin_conf = JObj [(''kind'', JStr ''Config''),
     (''clusters'', JArr [JObj [(''cluster'', JObj [(''certificate-authority-data'', JStr ''UGQ=''), (''server'', JStr ''h'')]), (''name'', JStr ''c'')]]),
     (''users'', JArr [JObj [(''name'', JStr ''u''), (''user'', JObj [(''client-certificate-data'', JStr ''UGQ='')])]]),
     (''current-context'', JStr ''x'')]"

definition kube_world :: world where
  "kube_world = blank_world\<lparr>w_fs := fmap_of_list
     [((True, [''k'']), Dir 493), ((True, [''k'', ''admin.conf'']), Reg (encode 0 admin_conf) 384),
      ((True, [''p'']), Dir 493), ((True, [''p'', ''ca.crt'']), Reg ''Pd'' 384), ((True, [''p'', ''ca.key'']), Reg ''Pk'' 384)]\<rparr>"

definition kube_mgr :: kubeconfig_manager where
  "kube_mgr = kubeconfig_New ''/k'' ''/p'' False"

lemma kube_live: "\<not> km_dryRun kube_mgr"
  by (simp add: kube_mgr_def kubeconfig_New_def)

definition admin_run :: "unit outcome \<times> world" where
  "admin_run = kubeconfig_Renew yaml_calm kube_mgr ''admin.conf'' ''kubernetes-admin'' kube_world"

lemma admin_ok: "kubeconfig_Renew yaml_calm kube_mgr ''admin.conf'' ''kubernetes-admin'' kube_world = (Ok (), snd admin_run)"
proof -
  have "fst admin_run = Ok ()" by code_simp
  then show ?thesis by (simp add: admin_run_def prod_eq_iff)
qed

lemma admin_path: "resolve (filepath_Join [km_kubeconfigDir kube_mgr, ''admin.conf'']) = (True, [''k'', ''admin.conf''])"
  by code_simp

lemma admin_file: "fs_get (w_fs kube_world) (resolve (filepath_Join [km_kubeconfigDir kube_mgr, ''admin.conf''])) = Some (Reg (encode 0 admin_conf) 384)"
  unfolding admin_path by (simp add: kube_world_def fs_get_def)

theorem kubeconfig_Renew_embeds_witness:
  "\<exists>updated. fs_get (w_fs (snd admin_run)) (True, [''k'', ''admin.conf'']) = Some (Reg updated 384)"
  using kubeconfig_Renew_embeds [OF admin_ok kube_live admin_file] unfolding admin_path by blast

theorem renewed_kubeconfig_unreadable_witness:
  "\<exists>updated. fs_get (w_fs (snd admin_run)) (True, [''k'', ''admin.conf'']) = Some (Reg updated 384) \<and>
     kubeconfig_cert yaml_calm ''/k/admin.conf'' updated = Inl (ErrMsg (''no users field in kubeconfig '' @ ''/k/admin.conf''))"
proof -
  have "textual admin_conf" by code_simp
  then have read: "env_yaml_to_strings yaml_calm (encode 0 admin_conf) = Inr admin_conf"
    by (simp add: yaml_calm_def yaml_read_def decode_encode)
  have "no_key ''CertificateAuthorityData'' admin_conf" "no_key ''CurrentContext'' admin_conf" by code_simp+
  from renewed_kubeconfig_unreadable [OF admin_ok kube_live admin_file read this yaml_keys, of "''/k/admin.conf''"]
  show ?thesis unfolding admin_path by blast
qed

end
