(* ===== verification/Config.thy ===== *)
theory Config
  imports World Go_Time_Text
begin

text \<open>
  \<^verbatim>\<open>config/config.go\<close>: the configuration from environment variables, with \<^verbatim>\<open>strconv.Atoi\<close> and
  \<^verbatim>\<open>strconv.ParseBool\<close> as the standard library has them.
\<close>

section \<open>Package strconv\<close>

definition in64 :: "int \<Rightarrow> bool" where
  "in64 i \<longleftrightarrow> - (2 ^ 63) \<le> i \<and> i < 2 ^ 63"

definition digits_only :: "string \<Rightarrow> bool" where
  "digits_only s \<longleftrightarrow> s \<noteq> [] \<and> list_all is_digit s"

text \<open>\<^verbatim>\<open>strconv.Atoi\<close>: one sign, then digits, in the range of \<^verbatim>\<open>int\<close>; \<open>None\<close> is an error.\<close>

definition Atoi :: "string \<Rightarrow> int option" where
  "Atoi s =
     (let (sign, ds) = (case s of
         c # cs \<Rightarrow> if c = CHR ''-'' then (- 1, cs) else if c = CHR ''+'' then (1, cs) else (1, s)
       | [] \<Rightarrow> (1, [])) in
      if digits_only ds \<and> in64 (sign * int (digits_value ds)) then Some (sign * int (digits_value ds)) else None)"

definition ParseBool :: "string \<Rightarrow> bool option" where
  "ParseBool s =
     (if s \<in> {''1'', ''t'', ''T'', ''TRUE'', ''true'', ''True''} then Some True
      else if s \<in> {''0'', ''f'', ''F'', ''FALSE'', ''false'', ''False''} then Some False
      else None)"

section \<open>The configuration\<close>

text \<open>\<^verbatim>\<open>SMTPTo\<close> is \<open>None\<close> when it is nil.\<close>

record config =
  cfg_BackupDir :: string
  cfg_StateFile :: string
  cfg_RenewalThresholdDays :: int
  cfg_CheckInterval :: int
  cfg_PKIDir :: string
  cfg_ManifestDir :: string
  cfg_KubeconfigDir :: string
  cfg_CAKeyPath :: string
  cfg_EtcdCAKeyPath :: string
  cfg_FrontProxyCAKeyPath :: string
  cfg_CurrentNode :: string
  cfg_SMTPEnabled :: bool
  cfg_SMTPHost :: string
  cfg_SMTPPort :: int
  cfg_SMTPFrom :: string
  cfg_SMTPTo :: "string list option"
  cfg_SlackWebhookEnabled :: bool
  cfg_SlackWebhookURL :: string
  cfg_DryRun :: bool

definition getEnv :: "env \<Rightarrow> string \<Rightarrow> string \<Rightarrow> string" where
  "getEnv E key fallback = (let val = env_getenv E key in if val \<noteq> '''' then val else fallback)"

definition getEnvInt :: "env \<Rightarrow> string \<Rightarrow> int \<Rightarrow> int" where
  "getEnvInt E key fallback = (let val = env_getenv E key in
     if val \<noteq> '''' then (case Atoi val of Some i \<Rightarrow> i | None \<Rightarrow> fallback) else fallback)"

definition getEnvBool :: "env \<Rightarrow> string \<Rightarrow> bool \<Rightarrow> bool" where
  "getEnvBool E key fallback = (let val = env_getenv E key in
     if val \<noteq> '''' then (case ParseBool val of Some b \<Rightarrow> b | None \<Rightarrow> fallback) else fallback)"

definition config_Load :: "env \<Rightarrow> config" where
  "config_Load E = \<lparr>
     cfg_BackupDir = getEnv E ''CERT_ROTATOR_BACKUP_DIR'' ''/var/lib/cert-rotator/backups'',
     cfg_StateFile = getEnv E ''CERT_ROTATOR_STATE_FILE'' ''/var/lib/cert-rotator/state.json'',
     cfg_RenewalThresholdDays = getEnvInt E ''CERT_ROTATOR_THRESHOLD_DAYS'' 30,
     cfg_CheckInterval = wrap64 (getEnvInt E ''CERT_ROTATOR_CHECK_INTERVAL_HOURS'' 24 * ns_hour),
     cfg_PKIDir = getEnv E ''CERT_ROTATOR_PKI_DIR'' ''/etc/kubernetes/pki'',
     cfg_ManifestDir = getEnv E ''CERT_ROTATOR_MANIFEST_DIR'' ''/etc/kubernetes/manifests'',
     cfg_KubeconfigDir = getEnv E ''CERT_ROTATOR_KUBECONFIG_DIR'' ''/etc/kubernetes'',
     cfg_CAKeyPath = getEnv E ''CERT_ROTATOR_CA_KEY_PATH'' ''/etc/kubernetes/pki/ca.key'',
     cfg_EtcdCAKeyPath = getEnv E ''CERT_ROTATOR_ETCD_CA_KEY_PATH'' ''/etc/kubernetes/pki/etcd/ca.key'',
     cfg_FrontProxyCAKeyPath =
       getEnv E ''CERT_ROTATOR_FRONT_PROXY_CA_KEY_PATH'' ''/etc/kubernetes/pki/front-proxy-ca.key'',
     cfg_CurrentNode = getEnv E ''NODE_NAME'' '''',
     cfg_SMTPEnabled = getEnvBool E ''CERT_ROTATOR_SMTP_ENABLED'' False,
     cfg_SMTPHost = getEnv E ''CERT_ROTATOR_SMTP_HOST'' '''',
     cfg_SMTPPort = getEnvInt E ''CERT_ROTATOR_SMTP_PORT'' 587,
     cfg_SMTPFrom = getEnv E ''CERT_ROTATOR_SMTP_FROM'' '''',
     cfg_SMTPTo = None,
     cfg_SlackWebhookEnabled = getEnvBool E ''CERT_ROTATOR_SLACK_ENABLED'' False,
     cfg_SlackWebhookURL = getEnv E ''CERT_ROTATOR_SLACK_WEBHOOK_URL'' '''',
     cfg_DryRun = getEnvBool E ''CERT_ROTATOR_DRY_RUN'' False\<rparr>"

definition config_Default :: "env \<Rightarrow> config" where
  "config_Default E = config_Load E"

section \<open>Numbers and flags survive the text\<close>

lemma is_digit_sign [simp]: "\<not> is_digit (CHR ''-'')" "\<not> is_digit (CHR ''+'')"
  by (simp_all add: is_digit_def)

lemma dec_cons: "\<exists>c cs. dec n = c # cs \<and> c \<noteq> CHR ''-'' \<and> c \<noteq> CHR ''+''"
proof -
  obtain c cs where "dec n = c # cs" by (cases "dec n") (auto simp: dec.simps [of n] split: if_splits)
  moreover from this have "is_digit c" using dec_digits [of n] by simp
  ultimately show ?thesis using is_digit_sign by blast
qed

lemma Atoi_unsigned:
  assumes "s = c # cs" and "c \<noteq> CHR ''-''" and "c \<noteq> CHR ''+''"
  shows "Atoi s = (if digits_only s \<and> in64 (int (digits_value s)) then Some (int (digits_value s)) else None)"
  using assms by (simp add: Atoi_def)

lemma Atoi_dec_int: "in64 i \<Longrightarrow> Atoi (dec_int i) = Some i"
proof (cases "i < 0")
  case True
  assume "in64 i"
  then show ?thesis using True dec_digits [of "nat (- i)"] dec_cons [of "nat (- i)"]
    by (auto simp: dec_int_def Atoi_def digits_only_def digits_value_dec)
next
  case False
  assume i: "in64 i"
  obtain c cs where "dec (nat i) = c # cs" "c \<noteq> CHR ''-''" "c \<noteq> CHR ''+''" using dec_cons by blast
  from Atoi_unsigned [OF this] show ?thesis using i False dec_digits [of "nat i"]
    by (simp add: dec_int_def digits_only_def digits_value_dec) (auto simp: dec.simps [of "nat i"])
qed

lemma Atoi_range: "Atoi s = Some i \<Longrightarrow> in64 i"
  by (auto simp: Atoi_def Let_def split: prod.splits if_splits)

lemma dec_int_Nil [simp]: "dec_int i \<noteq> []"
  using dec_cons [of "nat i"] dec_cons [of "nat (- i)"] by (auto simp: dec_int_def)

definition flag :: "bool \<Rightarrow> string" where
  "flag b = (if b then ''true'' else ''false'')"

lemma ParseBool_flag: "ParseBool (flag b) = Some b" "flag b \<noteq> ''''"
  by (simp_all add: ParseBool_def flag_def)

lemma getEnv_readback [simp]:
  "env_getenv E key = s \<Longrightarrow> s \<noteq> '''' \<or> d = '''' \<Longrightarrow> getEnv E key d = s"
  "env_getenv E key = dec_int i \<Longrightarrow> in64 i \<Longrightarrow> getEnvInt E key k = i"
  "env_getenv E key = flag b \<Longrightarrow> getEnvBool E key c = b"
  by (auto simp: getEnv_def getEnvInt_def getEnvBool_def Atoi_dec_int ParseBool_flag)

lemma getEnvInt_range: "in64 d \<Longrightarrow> in64 (getEnvInt E key d)"
  by (auto simp: getEnvInt_def Let_def dest: Atoi_range split: option.split)

lemma getEnv_nonempty: "d \<noteq> '''' \<Longrightarrow> getEnv E key d \<noteq> ''''"
  by (simp add: getEnv_def Let_def)

section \<open>Properties\<close>

definition config_typed :: "config \<Rightarrow> bool" where
  "config_typed c \<longleftrightarrow>
     list_all (\<lambda>s. s \<noteq> '''') [cfg_BackupDir c, cfg_StateFile c, cfg_PKIDir c, cfg_ManifestDir c, cfg_KubeconfigDir c,
            cfg_CAKeyPath c, cfg_EtcdCAKeyPath c, cfg_FrontProxyCAKeyPath c] \<and>
     in64 (cfg_RenewalThresholdDays c) \<and> in64 (cfg_CheckInterval c) \<and> in64 (cfg_SMTPPort c) \<and> cfg_SMTPTo c = None"

text \<open>
  C36. Whatever the environment holds, the configuration is usable: every path is non-empty, every number fits
  64 bits, the check interval included, and there are never mail recipients.
\<close>

theorem Load_typed: "config_typed (config_Load E)"
proof -
  have "in64 (wrap64 x)" for x using wrap64_range by (simp add: in64_def)
  moreover have "in64 30" "in64 587" by (simp_all add: in64_def)
  ultimately show ?thesis
    using getEnv_nonempty getEnvInt_range by (simp add: config_typed_def config_Load_def)
qed

text \<open>The variables that write a configuration down, with the check interval in hours.\<close>

definition environ :: "config \<Rightarrow> int \<Rightarrow> (string \<times> string) list" where
  "environ c h =
     [(''CERT_ROTATOR_BACKUP_DIR'', cfg_BackupDir c),
      (''CERT_ROTATOR_STATE_FILE'', cfg_StateFile c),
      (''CERT_ROTATOR_THRESHOLD_DAYS'', dec_int (cfg_RenewalThresholdDays c)),
      (''CERT_ROTATOR_CHECK_INTERVAL_HOURS'', dec_int h),
      (''CERT_ROTATOR_PKI_DIR'', cfg_PKIDir c),
      (''CERT_ROTATOR_MANIFEST_DIR'', cfg_ManifestDir c),
      (''CERT_ROTATOR_KUBECONFIG_DIR'', cfg_KubeconfigDir c),
      (''CERT_ROTATOR_CA_KEY_PATH'', cfg_CAKeyPath c),
      (''CERT_ROTATOR_ETCD_CA_KEY_PATH'', cfg_EtcdCAKeyPath c),
      (''CERT_ROTATOR_FRONT_PROXY_CA_KEY_PATH'', cfg_FrontProxyCAKeyPath c),
      (''NODE_NAME'', cfg_CurrentNode c),
      (''CERT_ROTATOR_SMTP_ENABLED'', flag (cfg_SMTPEnabled c)),
      (''CERT_ROTATOR_SMTP_HOST'', cfg_SMTPHost c),
      (''CERT_ROTATOR_SMTP_PORT'', dec_int (cfg_SMTPPort c)),
      (''CERT_ROTATOR_SMTP_FROM'', cfg_SMTPFrom c),
      (''CERT_ROTATOR_SLACK_ENABLED'', flag (cfg_SlackWebhookEnabled c)),
      (''CERT_ROTATOR_SLACK_WEBHOOK_URL'', cfg_SlackWebhookURL c),
      (''CERT_ROTATOR_DRY_RUN'', flag (cfg_DryRun c))]"

text \<open>
  C37. The variables say everything: a configuration written to the environment is the one that
  \<^verbatim>\<open>Load\<close> returns, as long as its check interval is the number of hours in 64 bits.
\<close>

theorem Load_environ:
  assumes "\<forall>(k, v)\<in>set (environ c h). env_getenv E k = v" and "config_typed c"
    and "in64 h" and "cfg_CheckInterval c = wrap64 (h * ns_hour)"
  shows "config_Load E = c"
  using assms by (cases c) (simp add: environ_def config_Load_def config_typed_def)

end
