(* ===== verification/Go_Flag.thy ===== *)
theory Go_Flag
  imports Go_Prelude
begin

text \<open>
  Go's package \<^verbatim>\<open>flag\<close>: the parsing of a command line by the set of flags of the program, which exits
  when an argument is wrong (\<^verbatim>\<open>flag.ExitOnError\<close>).
\<close>

text \<open>
  A set of flags over settings \<open>'f\<close>: which names are defined and which of them are booleans, and the
  setters, that can refuse a value.
\<close>

record 'f flag_set =
  fl_kind :: "string \<Rightarrow> bool option"
  fl_set :: "string \<Rightarrow> string \<Rightarrow> 'f \<Rightarrow> 'f option"

text \<open>The name and the value of \<^verbatim>\<open>name=value\<close>; the first character always belongs to the name.\<close>

definition split_value :: "string \<Rightarrow> string \<times> string option" where
  "split_value s =
     (case s of
        [] \<Rightarrow> ([], None)
      | c # cs \<Rightarrow> (c # takeWhile (\<lambda>x. x \<noteq> CHR ''='') cs, case dropWhile (\<lambda>x. x \<noteq> CHR ''='') cs of [] \<Rightarrow> None | _ # v \<Rightarrow> Some v))"

text \<open>
  \<^verbatim>\<open>FlagSet.Parse\<close>: the settings, or the code the program exits with, 0 after printing the help and 2
  on an error. It stops at the first argument that is not a flag, or after \<^verbatim>\<open>--\<close>.
\<close>

fun flag_parse :: "'f flag_set \<Rightarrow> string list \<Rightarrow> 'f \<Rightarrow> int + 'f" where
  "flag_parse F [] f = Inr f"
| "flag_parse F (s # args) f =
     (if length s < 2 \<or> hd s \<noteq> CHR ''-'' \<or> s = ''--'' then Inr f
      else let name = (if s ! 1 = CHR ''-'' then drop 2 s else drop 1 s) in
        if name = '''' \<or> hd name = CHR ''-'' \<or> hd name = CHR ''='' then Inl 2
        else case split_value name of (n, v) \<Rightarrow>
          (case fl_kind F n of
             None \<Rightarrow> Inl (if n = ''help'' \<or> n = ''h'' then 0 else 2)
           | Some True \<Rightarrow>
               (case fl_set F n (case v of None \<Rightarrow> ''true'' | Some x \<Rightarrow> x) f of
                  None \<Rightarrow> Inl 2
                | Some f' \<Rightarrow> flag_parse F args f')
           | Some False \<Rightarrow>
               (case v of
                  Some x \<Rightarrow> (case fl_set F n x f of None \<Rightarrow> Inl 2 | Some f' \<Rightarrow> flag_parse F args f')
                | None \<Rightarrow>
                    (case args of
                       [] \<Rightarrow> Inl 2
                     | x # args' \<Rightarrow> (case fl_set F n x f of None \<Rightarrow> Inl 2 | Some f' \<Rightarrow> flag_parse F args' f')))))"

lemma split_value_eq: "n \<noteq> '''' \<Longrightarrow> CHR ''='' \<notin> set n \<Longrightarrow> split_value (n @ CHR ''='' # v) = (n, Some v)"
proof -
  assume "n \<noteq> ''''" "CHR ''='' \<notin> set n"
  then obtain c cs where "n = c # cs" "CHR ''='' \<notin> set cs" by (cases n) auto
  then show ?thesis by (simp add: split_value_def takeWhile_append dropWhile_append takeWhile_eq_all_conv [THEN iffD2])
qed

text \<open>A flag written as \<^verbatim>\<open>--name=value\<close> sets its value, whatever kind it is.\<close>

lemma flag_parse_set:
  assumes "n \<noteq> ''''" and "hd n \<noteq> CHR ''-''" and "CHR ''='' \<notin> set n" and "fl_kind F n = Some b" and "fl_set F n v f = Some f'"
  shows "flag_parse F ((''--'' @ n @ CHR ''='' # v) # args) f = flag_parse F args f'"
proof -
  have "hd n \<noteq> CHR ''=''" using assms(1,3) by (cases n) auto
  then show ?thesis using assms by (cases b) (simp_all add: split_value_eq Let_def)
qed

end
