(* ===== verification/Start_Up.thy ===== *)
theory Start_Up
  imports Controller Config Go_Flag Returns
begin

text \<open>
  \<^verbatim>\<open>cmd/main.go\<close> and \<^verbatim>\<open>api/v1alpha1/groupversion_info.go\<close>: the registration of the types and the start
  of the operator. Client-go and controller-runtime (its scheme builder, manager and the flags it adds to
  the command line) are not under \<^verbatim>\<open>src/\<close>: what the program calls of them is a record of runs and
  functions, the parameter of the model.
\<close>

section \<open>Group and version\<close>

record group_version =
  gv_Group :: string
  gv_Version :: string

definition GroupVersion :: group_version where
  "GroupVersion = \<lparr>gv_Group = ''cert-rotator.tejeswar0625.dev'', gv_Version = ''v1alpha1''\<rparr>"

text \<open>The types that \<^verbatim>\<open>init\<close> of the API package registers with the builder.\<close>

definition registered_types :: "string list" where
  "registered_types = [''CertRotationConfig'', ''CertRotationConfigList'']"

text \<open>
  \<open>rt_AddToScheme\<close> is \<^verbatim>\<open>AddToScheme\<close> of a builder made for a group version on which \<^verbatim>\<open>Register\<close> was
  called with objects of these types. \<open>rt_NewManager\<close> includes \<^verbatim>\<open>GetConfigOrDie\<close>, which exits with 1 on an
  error as \<^verbatim>\<open>main\<close> does on an error of \<^verbatim>\<open>NewManager\<close>. The flags of controller-runtime and its logger: which are defined,
  and which values they accept.
\<close>

record runtime =
  rt_AddClientGoToScheme :: "unit go"
  rt_AddToScheme :: "group_version \<Rightarrow> string list \<Rightarrow> unit go"
  rt_FlagKind :: "string \<Rightarrow> bool option"
  rt_FlagAccepts :: "string \<Rightarrow> string \<Rightarrow> bool"
  rt_SetLogger :: "(string \<times> string) list \<Rightarrow> unit go"
  rt_NewManager :: "(string \<times> string) list \<Rightarrow> string \<Rightarrow> string \<Rightarrow> bool \<Rightarrow> unit go"
  rt_Complete :: "string \<Rightarrow> unit go"
  rt_AddHealthzCheck :: "string \<Rightarrow> unit go"
  rt_AddReadyzCheck :: "string \<Rightarrow> unit go"
  rt_Start :: "unit go"

definition AddToScheme :: "runtime \<Rightarrow> unit go" where
  "AddToScheme rt = rt_AddToScheme rt GroupVersion registered_types"

text \<open>\<^verbatim>\<open>utilruntime.Must\<close> panics on an error. \<^verbatim>\<open>init\<close> of the main package.\<close>

definition Must :: "unit go \<Rightarrow> unit go" where
  "Must m = bindE m (\<lambda>err. panic (err_text err)) ret"

definition main_init :: "runtime \<Rightarrow> unit go" where
  "main_init rt = seqE (Must (rt_AddClientGoToScheme rt)) (\<lambda>_. Must (AddToScheme rt))"

section \<open>The command line\<close>

text \<open>The settings, with their defaults; those of the libraries' flags in the order they were set.\<close>

record main_flags =
  metricsAddr :: string
  probeAddr :: string
  enableLeaderElection :: bool
  libraryFlags :: "(string \<times> string) list"

definition default_flags :: main_flags where
  "default_flags = \<lparr>metricsAddr = '':8080'', probeAddr = '':8081'', enableLeaderElection = False, libraryFlags = []\<rparr>"

definition set_main_flag :: "runtime \<Rightarrow> string \<Rightarrow> string \<Rightarrow> main_flags \<Rightarrow> main_flags option" where
  "set_main_flag rt name v fl =
     (if name = ''metrics-bind-address'' then Some (fl\<lparr>metricsAddr := v\<rparr>)
      else if name = ''health-probe-bind-address'' then Some (fl\<lparr>probeAddr := v\<rparr>)
      else if name = ''leader-elect'' then map_option (\<lambda>b. fl\<lparr>enableLeaderElection := b\<rparr>) (ParseBool v)
      else if rt_FlagAccepts rt name v then Some (fl\<lparr>libraryFlags := libraryFlags fl @ [(name, v)]\<rparr>) else None)"

definition main_flag_set :: "runtime \<Rightarrow> main_flags flag_set" where
  "main_flag_set rt =
     \<lparr>fl_kind = (\<lambda>name. if name = ''metrics-bind-address'' \<or> name = ''health-probe-bind-address'' then Some False
        else if name = ''leader-elect'' then Some True else rt_FlagKind rt name),
      fl_set = set_main_flag rt\<rparr>"

section \<open>The start\<close>

text \<open>\<^verbatim>\<open>os.Exit(code)\<close> or a return, which is exit code 0; each failed step exits with 1.\<close>

definition or_exit :: "unit go \<Rightarrow> int go \<Rightarrow> int go" where
  "or_exit m k = bindE m (\<lambda>_. ret 1) (\<lambda>_. k)"

definition main_go :: "env \<Rightarrow> runtime \<Rightarrow> string list \<Rightarrow> int go" where
  "main_go E rt args =
     (case flag_parse (main_flag_set rt) args default_flags of
        Inl code \<Rightarrow> ret code
      | Inr flags \<Rightarrow>
          seqE (rt_SetLogger rt (libraryFlags flags)) (\<lambda>_.
          case NodeNameFromEnv E of
            Inl _ \<Rightarrow> ret 1
          | Inr nodeName \<Rightarrow>
              or_exit (rt_NewManager rt (libraryFlags flags) (metricsAddr flags) (probeAddr flags) (enableLeaderElection flags))
             (or_exit (SetupWithManager nodeName (rt_Complete rt nodeName))
             (or_exit (rt_AddHealthzCheck rt ''healthz'')
             (or_exit (rt_AddReadyzCheck rt ''readyz'')
             (or_exit (rt_Start rt) (ret 0)))))))"

text \<open>The program: the initialisation, then \<^verbatim>\<open>main\<close>.\<close>

definition program :: "env \<Rightarrow> runtime \<Rightarrow> string list \<Rightarrow> int go" where
  "program E rt args = seqE (main_init rt) (\<lambda>_. main_go E rt args)"

definition required_env :: "string list" where "required_env = [''MY_NODE_NAME'']"

definition required_paths :: "string list" where
  "required_paths = [''/etc/kubernetes/pki'', ''/etc/kubernetes/manifests'']"

definition validateEnvironment :: "env \<Rightarrow> string \<Rightarrow> unit go" where
  "validateEnvironment E nodeName =
     seqE (for_each (\<lambda>env. if env_getenv E env = ''''
         then fail (ErrMsg (''required environment variable '' @ env @ '' is not set'')) else ret ()) required_env) (\<lambda>_.
     for_each (\<lambda>path. bindE (os_Stat E path)
         (\<lambda>err. fail (ErrMsg (''required host path '' @ path @ '' is not accessible: '' @ err_text err @
            '' '' @ em_dash @ '' check hostPath mounts in DaemonSet spec'')))
         (\<lambda>_. ret ())) required_paths)"

section \<open>Properties\<close>

text \<open>The steps of the start, in order.\<close>

definition start_steps :: "runtime \<Rightarrow> main_flags \<Rightarrow> string \<Rightarrow> unit go list" where
  "start_steps rt flags nodeName =
     [rt_AddClientGoToScheme rt, rt_AddToScheme rt GroupVersion registered_types, rt_SetLogger rt (libraryFlags flags),
      rt_NewManager rt (libraryFlags flags) (metricsAddr flags) (probeAddr flags) (enableLeaderElection flags),
      rt_Complete rt nodeName, rt_AddHealthzCheck rt ''healthz'', rt_AddReadyzCheck rt ''readyz'', rt_Start rt]"

text \<open>The steps succeeded, one after the other.\<close>

fun steps_ok :: "unit go list \<Rightarrow> world \<Rightarrow> world \<Rightarrow> bool" where
  "steps_ok [] w w' \<longleftrightarrow> w' = w"
| "steps_ok (m # ms) w w' \<longleftrightarrow> (\<exists>v. m w = (Ok (), v) \<and> steps_ok ms v w')"

lemma or_exit_run: "or_exit m k w = (case m w of (Ok _, v) \<Rightarrow> k v | (Err _, v) \<Rightarrow> (Ok 1, v) | (Panic p, v) \<Rightarrow> (Panic p, v))"
  by (simp add: or_exit_def bindE_run split: prod.split outcome.split)

lemma or_exit_zero [simp]: "or_exit m k w = (Ok 0, w') \<longleftrightarrow> (\<exists>v. m w = (Ok (), v) \<and> k v = (Ok 0, w'))"
  by (auto simp: or_exit_run split: prod.splits outcome.splits)

lemma Must_ok [simp]: "Must m w = (Ok u, w') \<longleftrightarrow> m w = (Ok (), w')"
  by (auto simp: Must_def bindE_run panic_def ret_def split: prod.splits outcome.splits)

text \<open>The flags of \<^verbatim>\<open>main\<close>, written out, are parsed exactly, whatever flags the libraries define.\<close>

lemma main_flags_parsed:
  "flag_parse (main_flag_set rt) [''--metrics-bind-address='' @ m, ''--health-probe-bind-address='' @ p, ''--leader-elect='' @ flag l] default_flags =
     Inr \<lparr>metricsAddr = m, probeAddr = p, enableLeaderElection = l, libraryFlags = []\<rparr>"
proof -
  have "flag_parse (main_flag_set rt) ((''--metrics-bind-address='' @ m) # xs) f = flag_parse (main_flag_set rt) xs (f\<lparr>metricsAddr := m\<rparr>)"
    "flag_parse (main_flag_set rt) ((''--health-probe-bind-address='' @ p) # xs) f = flag_parse (main_flag_set rt) xs (f\<lparr>probeAddr := p\<rparr>)"
    "flag_parse (main_flag_set rt) ((''--leader-elect='' @ flag l) # xs) f = flag_parse (main_flag_set rt) xs (f\<lparr>enableLeaderElection := l\<rparr>)" for xs f
    using flag_parse_set [of "''metrics-bind-address''" "main_flag_set rt" False m f "f\<lparr>metricsAddr := m\<rparr>" xs]
      flag_parse_set [of "''health-probe-bind-address''" "main_flag_set rt" False p f "f\<lparr>probeAddr := p\<rparr>" xs]
      flag_parse_set [of "''leader-elect''" "main_flag_set rt" True "flag l" f "f\<lparr>enableLeaderElection := l\<rparr>" xs]
    by (simp_all add: main_flag_set_def set_main_flag_def ParseBool_flag)
  then show ?thesis by (simp only: flag_parse.simps(1)) (simp add: default_flags_def)
qed

text \<open>
  C29. The operator ends with exit code 0 exactly when its types were registered and either the help was
  asked for, or the command line is right, it has a node name, and every step of the start, up to the
  run of the manager, returned nil, in this order.
\<close>

theorem program_exit_code:
  "program E rt args w = (Ok 0, w') \<longleftrightarrow>
     (case flag_parse (main_flag_set rt) args default_flags of
        Inl code \<Rightarrow> code = 0 \<and> steps_ok (take 2 (start_steps rt default_flags '''')) w w'
      | Inr flags \<Rightarrow> env_getenv E ''MY_NODE_NAME'' \<noteq> '''' \<and> steps_ok (start_steps rt flags (env_getenv E ''MY_NODE_NAME'')) w w')"
proof (cases "flag_parse (main_flag_set rt) args default_flags")
  case (Inl code)
  then show ?thesis by (auto simp: program_def main_init_def main_go_def AddToScheme_def start_steps_def ok_iff numeral_2_eq_2)
next
  case (Inr flags)
  then show ?thesis
    by (cases "env_getenv E ''MY_NODE_NAME'' = ''''")
       (auto simp: program_def main_init_def main_go_def AddToScheme_def start_steps_def ok_iff NodeNameFromEnv_def SetupWithManager_def Let_def)
qed

text \<open>
  \<^verbatim>\<open>validateEnvironment\<close>, which nothing calls, would have found a node without the two directories.
\<close>

lemma validateEnvironment_ok:
  assumes "no_faults E"
  shows "(\<exists>w'. validateEnvironment E n w = (Ok (), w')) \<longleftrightarrow>
    env_getenv E ''MY_NODE_NAME'' \<noteq> '''' \<and> (\<forall>p\<in>set required_paths. fs_get (w_fs w) (resolve p) \<noteq> None)"
  using assms
  by (auto simp: validateEnvironment_def required_env_def required_paths_def go_run os_Stat_def syscall_nf
      get_fs_def tick_def split: option.splits)

end
