(* ===== verification/Logger.thy ===== *)
theory Logger
  imports Detector
begin

text \<open>
  \<^verbatim>\<open>pkg/logger/logger.go\<close> on top of \<^verbatim>\<open>log/slog\<close>, and \<^verbatim>\<open>LogSummary\<close> of the detector. What a call
  writes is a list of records; a record's line is the JSON object that the handler prints.
\<close>

section \<open>Records\<close>

datatype log_level = LevelDebug | LevelInfo | LevelWarn | LevelError

type_synonym attr = "string \<times> json"

definition slog_String :: "string \<Rightarrow> string \<Rightarrow> attr" where
  "slog_String key v = (key, JStr v)"

definition slog_Int :: "string \<Rightarrow> int \<Rightarrow> attr" where
  "slog_Int key v = (key, JNum (dec_int v))"

record log_record =
  log_Level :: log_level
  log_Msg :: string
  log_Attrs :: "attr list"

fun level_string :: "log_level \<Rightarrow> string" where
  "level_string LevelDebug = ''DEBUG''"
| "level_string LevelInfo = ''INFO''"
| "level_string LevelWarn = ''WARN''"
| "level_string LevelError = ''ERROR''"

text \<open>The handler's \<^verbatim>\<open>ReplaceAttr\<close>, which sees the built-in fields and those of the call alike.\<close>

definition ReplaceAttr :: "attr \<Rightarrow> attr" where
  "ReplaceAttr a = (if fst a = ''msg'' then (''message'', snd a) else a)"

definition log_line :: "string \<Rightarrow> log_record \<Rightarrow> json" where
  "log_line time r = JObj (map ReplaceAttr
     ([slog_String ''time'' time, slog_String ''level'' (level_string (log_Level r)), slog_String ''msg'' (log_Msg r)]
      @ log_Attrs r))"

section \<open>The operations\<close>

definition buildFields :: "string \<Rightarrow> string \<Rightarrow> attr list \<Rightarrow> attr list" where
  "buildFields component node args =
     slog_String ''component'' component # (if node \<noteq> '''' then [slog_String ''node'' node] else []) @ args"

definition log_at :: "log_level \<Rightarrow> string \<Rightarrow> attr list \<Rightarrow> log_record list" where
  "log_at lvl msg attrs = [\<lparr>log_Level = lvl, log_Msg = msg, log_Attrs = attrs\<rparr>]"

definition log_Info :: "string \<Rightarrow> string \<Rightarrow> string \<Rightarrow> attr list \<Rightarrow> log_record list" where
  "log_Info component node msg args = log_at LevelInfo msg (buildFields component node args)"

definition log_Debug :: "string \<Rightarrow> string \<Rightarrow> string \<Rightarrow> attr list \<Rightarrow> log_record list" where
  "log_Debug component node msg args = log_at LevelDebug msg (buildFields component node args)"

definition log_Warn :: "string \<Rightarrow> string \<Rightarrow> string \<Rightarrow> attr list \<Rightarrow> log_record list" where
  "log_Warn component node msg args = log_at LevelWarn msg (buildFields component node args)"

definition error_field :: "goerr option \<Rightarrow> attr list" where
  "error_field err = (case err of None \<Rightarrow> [] | Some e \<Rightarrow> [slog_String ''error'' (err_text e)])"

definition log_Error :: "string \<Rightarrow> string \<Rightarrow> string \<Rightarrow> goerr option \<Rightarrow> attr list \<Rightarrow> log_record list" where
  "log_Error component node msg err args =
     log_at LevelError msg (buildFields component node args @ error_field err)"

definition log_Critical :: "string \<Rightarrow> string \<Rightarrow> string \<Rightarrow> goerr option \<Rightarrow> attr list \<Rightarrow> log_record list" where
  "log_Critical component node msg err args =
     log_at LevelError msg (buildFields component node args @ [slog_String ''severity'' ''CRITICAL''] @ error_field err)"

definition log_CertInfo :: "string \<Rightarrow> string \<Rightarrow> string \<Rightarrow> string \<Rightarrow> attr list \<Rightarrow> log_record list" where
  "log_CertInfo component node certName msg args = log_at LevelInfo msg
     ([slog_String ''component'' component, slog_String ''node'' node, slog_String ''cert'' certName] @ args)"

definition log_Phase :: "string \<Rightarrow> string \<Rightarrow> string \<Rightarrow> log_record list" where
  "log_Phase from_phase to_phase node = log_at LevelInfo ''State transition''
     [slog_String ''component'' ''orchestrator'', slog_String ''node'' node,
      slog_String ''from'' from_phase, slog_String ''to'' to_phase]"

section \<open>The summary of a detection\<close>

definition summary_record :: "string \<Rightarrow> cert_info \<Rightarrow> log_record list" where
  "summary_record node c = (let expiry = rfc3339_utc (ci_Expiry c) in case ci_Status c of
     StatusOK \<Rightarrow> log_Info ''detector'' node (''Certificate is healthy '' @ em_dash @ '' no action required'')
       [slog_String ''cert'' (ci_Name c), slog_String ''expiry'' expiry,
        slog_Int ''residual_days'' (ci_ResidualDays c), slog_String ''next_action'' ''none'']
   | StatusApproaching \<Rightarrow> log_Warn ''detector'' node
       (''Certificate is expiring soon '' @ em_dash @ '' renewal will be triggered. '' @
        ''If left unrenewed, the control plane will stop working when this cert expires.'')
       [slog_String ''cert'' (ci_Name c), slog_String ''expiry'' expiry,
        slog_Int ''residual_days'' (ci_ResidualDays c),
        slog_String ''next_action'' ''renewal scheduled for this cycle'']
   | StatusExpired \<Rightarrow> log_Critical ''detector'' node
       (''CERTIFICATE HAS ALREADY EXPIRED. The control plane component using this cert '' @
        ''may already be unreachable. Immediate renewal is being triggered.'')
       (Some (ErrMsg (''cert '' @ ci_Name c @ '' expired on '' @ expiry)))
       [slog_String ''cert'' (ci_Name c), slog_String ''expired_at'' expiry,
        slog_String ''next_action'' (''immediate renewal triggered '' @ em_dash @ '' this cycle will not wait'')]
   | StatusUnset \<Rightarrow> [])"

definition LogSummary :: "detection_result \<Rightarrow> log_record list" where
  "LogSummary r = concat (map (summary_record (dr_Node r)) (dr_Certs r))"

section \<open>Properties\<close>

text \<open>A record carries the alarm when an operator should act at once: an error marked as critical.\<close>

definition alarm :: "log_record \<Rightarrow> bool" where
  "alarm l \<longleftrightarrow> log_Level l = LevelError \<and> (''severity'', JStr ''CRITICAL'') \<in> set (log_Attrs l)"

lemma summary_record_shape:
  assumes "ci_Status c \<noteq> StatusUnset"
  shows "\<exists>l. summary_record node c = [l] \<and> (''cert'', JStr (ci_Name c)) \<in> set (log_Attrs l) \<and>
    (alarm l \<longleftrightarrow> ci_Status c = StatusExpired) \<and> (log_Level l = LevelInfo \<longleftrightarrow> ci_Status c = StatusOK)"
  using assms
  by (cases "ci_Status c")
     (simp_all add: summary_record_def Let_def log_Info_def log_Warn_def log_Critical_def log_at_def buildFields_def
        slog_String_def slog_Int_def alarm_def error_field_def)

lemma LogSummary_records:
  assumes "\<forall>c\<in>set (dr_Certs r). ci_Status c \<noteq> StatusUnset"
  shows "list_all2 (\<lambda>l c. (''cert'', JStr (ci_Name c)) \<in> set (log_Attrs l) \<and>
      (alarm l \<longleftrightarrow> ci_Status c = StatusExpired) \<and> (log_Level l = LevelInfo \<longleftrightarrow> ci_Status c = StatusOK))
    (LogSummary r) (dr_Certs r)"
proof -
  have "list_all2 (\<lambda>l c. (''cert'', JStr (ci_Name c)) \<in> set (log_Attrs l) \<and>
      (alarm l \<longleftrightarrow> ci_Status c = StatusExpired) \<and> (log_Level l = LevelInfo \<longleftrightarrow> ci_Status c = StatusOK))
    (concat (map (summary_record n) cs)) cs" if "\<forall>c\<in>set cs. ci_Status c \<noteq> StatusUnset" for n cs
    using that
  proof (induction cs)
    case (Cons c cs)
    moreover obtain l where "summary_record n c = [l]" "(''cert'', JStr (ci_Name c)) \<in> set (log_Attrs l)"
      "alarm l \<longleftrightarrow> ci_Status c = StatusExpired" "log_Level l = LevelInfo \<longleftrightarrow> ci_Status c = StatusOK"
      using summary_record_shape [of c n] Cons.prems by auto
    ultimately show ?case by simp
  qed simp
  then show ?thesis using assms unfolding LogSummary_def by blast
qed

text \<open>Every certificate that a detection reports was classified.\<close>

lemma classified_set: "ci_Status (classified d i) \<noteq> StatusUnset"
  by (simp add: classified_def classify_def)

lemma Detect_classified:
  assumes "Detect E d node w = (Ok r, w')"
  shows "\<forall>c\<in>set (dr_Certs r). ci_Status c \<noteq> StatusUnset"
proof -
  let ?P = "\<lambda>(_ :: (string \<times> string) list) certs (_ :: world). \<forall>c\<in>set certs. ci_Status c \<noteq> StatusUnset"
  from assms obtain pki w1 certs w2 kube w3 w4 where run: "fold_go (detect_pki E d) [] pki w1 = (Ok certs, w2)"
    "fold_go (detect_kubeconfig E d) certs kube w3 = (Ok (dr_Certs r), w4)"
    unfolding Detect_def by (auto simp: ok_iff)
  have "?P pki certs w2"
    by (rule fold_go_okD [OF run(1), of ?P]) (auto simp: detect_pki_def Let_def ok_iff classified_set)
  then show ?thesis
    by (rule fold_go_okD [OF run(2), of ?P])
       (auto simp: detect_kubeconfig_def Let_def ok_iff classified_set)
qed

text \<open>
  C22. The log of a detection says what the detection says: one record per certificate, in its order and
  with its name, an alarm exactly for the expired ones and plain information exactly for those that
  are all right. So a certificate that needs renewal is never logged as healthy.
\<close>

theorem LogSummary_faithful:
  assumes "Detect E d node w = (Ok r, w')"
  shows "list_all2 (\<lambda>l c. (''cert'', JStr (ci_Name c)) \<in> set (log_Attrs l) \<and>
      (alarm l \<longleftrightarrow> ci_Status c = StatusExpired) \<and> (log_Level l = LevelInfo \<longleftrightarrow> ci_Status c = StatusOK))
    (LogSummary r) (dr_Certs r)"
  using LogSummary_records [OF Detect_classified [OF assms]] .

end
