(* ===== verification/Witnesses_Config.thy ===== *)
theory Witnesses_Config
  imports Witnesses_Certs Config Start_Up Logger
begin

text \<open>The theorems on the configuration and the log, on the variables of a sample and on the node of \<open>Scenario\<close>.\<close>

definition sample :: config where
  "sample = (config_Load calm)\<lparr>cfg_BackupDir := ''/b'', cfg_SMTPPort := 25, cfg_RenewalThresholdDays := - 7,
     cfg_CurrentNode := ''n'', cfg_DryRun := True\<rparr>"

definition sample_env :: env where
  "sample_env = calm\<lparr>env_getenv := (\<lambda>k. case map_of (environ sample 24) k of None \<Rightarrow> '''' | Some v \<Rightarrow> v)\<rparr>"

theorem Load_environ_witness: "config_Load sample_env = sample"
proof (rule Load_environ)
  show "\<forall>(k, v)\<in>set (environ sample 24). env_getenv sample_env k = v"
    by (simp add: sample_env_def environ_def)
  show "config_typed sample" using Load_typed [of calm] by (simp add: sample_def config_typed_def in64_def)
  show "in64 24" by (simp add: in64_def)
  show "cfg_CheckInterval sample = wrap64 (24 * ns_hour)"
    by (simp add: sample_def config_Load_def getEnvInt_def calm_def)
qed

theorem LogSummary_faithful_witness:
  "\<exists>r w'. Detect frozen det ''n'' node_world = (Ok r, w') \<and> length (LogSummary r) = length (dr_Certs r)"
proof -
  have "\<forall>t. env_now frozen t = base_time" by (simp add: frozen_def)
  from Detect_run [OF calm_no_faults(2) this, of node_world det "''n''"] one_dueD(1) [OF node_reports]
  obtain r w' where "Detect frozen det ''n'' node_world = (Ok r, w')" by auto
  then show ?thesis using LogSummary_faithful list_all2_lengthD by blast
qed

end
