(* ===== verification/Deep_Copy.thy ===== *)
theory Deep_Copy
  imports Api_Types
begin

text \<open>
  \<^verbatim>\<open>api/v1alpha1/zz_generated.deepcopy.go\<close> on a store of objects. The reconciler takes a deep copy of
  the custom resource as the base of a patch and then writes to the original, so the copy must not
  share memory with it. The rest of the development uses values, which share nothing; this theory
  shows that the copies are values in that sense.
\<close>

section \<open>The store\<close>

type_synonym addr = nat

text \<open>Structs as they are in memory; \<open>None\<close> is a nil pointer, slice or map.\<close>

record node_struct =
  nd_Node :: string
  nd_Phase :: node_phase
  nd_LastCheckedAt :: "addr option"
  nd_LastRenewedAt :: "addr option"
  nd_BackupPath :: string
  nd_FailureReason :: string
  nd_Certs :: "addr option"

record status_struct =
  ss_Phase :: cluster_phase
  ss_LastCheckedAt :: "addr option"
  ss_LastRenewedAt :: "addr option"
  ss_Nodes :: "addr option"
  ss_Conditions :: "addr option"

record config_struct =
  cs_Name :: string
  cs_Spec :: config_spec
  cs_Status :: status_struct

record list_struct =
  ls_Items :: "addr option"

datatype obj =
    TimeObj (the_time: int)
  | CertsObj (the_certs: "api_cert_status list")
  | NodesObj (the_nodes: "(string \<times> node_struct) list")
  | ConditionsObj (the_conditions: "condition list")
  | ItemsObj (the_items: "config_struct list")
  | NodeObj (the_node: node_struct)
  | StatusObj (the_status: status_struct)
  | SpecObj (the_spec: config_spec)
  | ConfigObj (the_config: config_struct)
  | ListObj (the_list: list_struct)
  | NotificationObj (the_notification: notification_spec)
  | CertObj (the_cert: api_cert_status)
  | SMTPObj (the_smtp: smtp_spec)
  | SlackObj (the_slack: slack_spec)

text \<open>Addresses below \<open>h_top\<close> are in use.\<close>

record heap =
  h_mem :: "addr \<Rightarrow> obj"
  h_top :: addr

definition new_obj :: "heap \<Rightarrow> addr \<times> heap" where
  "new_obj h = (h_top h, h\<lparr>h_top := Suc (h_top h)\<rparr>)"

definition store_at :: "addr \<Rightarrow> obj \<Rightarrow> heap \<Rightarrow> heap" where
  "store_at a x h = h\<lparr>h_mem := (h_mem h)(a := x)\<rparr>"

section \<open>Copying\<close>

text \<open>
  \<^verbatim>\<open>DeepCopyInto\<close> of a struct is the function from the value of \<^verbatim>\<open>*in\<close> to the value it leaves in
  \<^verbatim>\<open>*out\<close>. A pointer is copied by \<^verbatim>\<open>new\<close>, \<^verbatim>\<open>DeepCopyInto\<close> and the result at the new address, with
  nil for nil; a slice the same with \<^verbatim>\<open>make\<close>, its elements one after the other.
\<close>

definition copy_ptr :: "(obj \<Rightarrow> 'v) \<Rightarrow> ('v \<Rightarrow> obj) \<Rightarrow> ('v \<Rightarrow> heap \<Rightarrow> 'v \<times> heap) \<Rightarrow> addr \<Rightarrow> heap \<Rightarrow> addr \<times> heap" where
  "copy_ptr unbox box into a h =
     (let (b, h0) = new_obj h; (v, h1) = into (unbox (h_mem h a)) h0 in (b, store_at b (box v) h1))"

definition copy_opt :: "('v \<Rightarrow> heap \<Rightarrow> 'v \<times> heap) \<Rightarrow> 'v option \<Rightarrow> heap \<Rightarrow> 'v option \<times> heap" where
  "copy_opt copy p h = (case p of None \<Rightarrow> (None, h) | Some a \<Rightarrow> let (b, h') = copy a h in (Some b, h'))"

fun copy_list :: "('v \<Rightarrow> heap \<Rightarrow> 'v \<times> heap) \<Rightarrow> 'v list \<Rightarrow> heap \<Rightarrow> 'v list \<times> heap" where
  "copy_list into [] h = ([], h)"
| "copy_list into (x # xs) h = (let (y, h1) = into x h; (ys, h2) = copy_list into xs h1 in (y # ys, h2))"

definition copy_value :: "'v \<Rightarrow> heap \<Rightarrow> 'v \<times> heap" where
  "copy_value v h = (v, h)"

text \<open>\<^verbatim>\<open>metav1.Time\<close> and \<^verbatim>\<open>metav1.Condition\<close> hold no pointers.\<close>

definition Time_DeepCopy :: "addr option \<Rightarrow> heap \<Rightarrow> addr option \<times> heap" where
  "Time_DeepCopy = copy_opt (copy_ptr the_time TimeObj copy_value)"

definition CertStatus_DeepCopy :: "addr option \<Rightarrow> heap \<Rightarrow> addr option \<times> heap" where
  "CertStatus_DeepCopy = copy_opt (copy_ptr the_cert CertObj copy_value)"

definition SMTPSpec_DeepCopy :: "addr option \<Rightarrow> heap \<Rightarrow> addr option \<times> heap" where
  "SMTPSpec_DeepCopy = copy_opt (copy_ptr the_smtp SMTPObj copy_value)"

definition SlackSpec_DeepCopy :: "addr option \<Rightarrow> heap \<Rightarrow> addr option \<times> heap" where
  "SlackSpec_DeepCopy = copy_opt (copy_ptr the_slack SlackObj copy_value)"

definition NotificationSpec_DeepCopyInto :: "notification_spec \<Rightarrow> heap \<Rightarrow> notification_spec \<times> heap" where
  "NotificationSpec_DeepCopyInto v h = (v\<lparr>SMTP := SMTP v, Slack := Slack v\<rparr>, h)"

definition NotificationSpec_DeepCopy :: "addr option \<Rightarrow> heap \<Rightarrow> addr option \<times> heap" where
  "NotificationSpec_DeepCopy = copy_opt (copy_ptr the_notification NotificationObj NotificationSpec_DeepCopyInto)"

definition CertRotationConfigSpec_DeepCopyInto :: "config_spec \<Rightarrow> heap \<Rightarrow> config_spec \<times> heap" where
  "CertRotationConfigSpec_DeepCopyInto v h = (v\<lparr>Notifications := Notifications v\<rparr>, h)"

definition CertRotationConfigSpec_DeepCopy :: "addr option \<Rightarrow> heap \<Rightarrow> addr option \<times> heap" where
  "CertRotationConfigSpec_DeepCopy = copy_opt (copy_ptr the_spec SpecObj CertRotationConfigSpec_DeepCopyInto)"

definition NodeStatus_DeepCopyInto :: "node_struct \<Rightarrow> heap \<Rightarrow> node_struct \<times> heap" where
  "NodeStatus_DeepCopyInto v h =
     (let (checked, h1) = Time_DeepCopy (nd_LastCheckedAt v) h;
          (renewed, h2) = Time_DeepCopy (nd_LastRenewedAt v) h1;
          (certs, h3) = copy_opt (copy_ptr the_certs CertsObj (copy_list copy_value)) (nd_Certs v) h2
      in (v\<lparr>nd_LastCheckedAt := checked, nd_LastRenewedAt := renewed, nd_Certs := certs\<rparr>, h3))"

definition NodeStatus_DeepCopy :: "addr option \<Rightarrow> heap \<Rightarrow> addr option \<times> heap" where
  "NodeStatus_DeepCopy = copy_opt (copy_ptr the_node NodeObj NodeStatus_DeepCopyInto)"

text \<open>
  One round of the loop over the map of nodes: the loop variable has an address of its own, and
  \<^verbatim>\<open>*val.DeepCopy()\<close> is what the copy's address holds. The order of the rounds is the runtime's choice.
\<close>

definition copy_entry :: "string \<times> node_struct \<Rightarrow> heap \<Rightarrow> (string \<times> node_struct) \<times> heap" where
  "copy_entry kv h =
     (let (v, h0) = new_obj h; (p, h1) = NodeStatus_DeepCopy (Some v) (store_at v (NodeObj (snd kv)) h0)
      in ((fst kv, the_node (h_mem h1 (the p))), h1))"

definition copy_nodes :: "(addr \<Rightarrow> nat list) \<Rightarrow> (string \<times> node_struct) list \<Rightarrow> heap \<Rightarrow> (string \<times> node_struct) list \<times> heap" where
  "copy_nodes order kvs h = copy_list copy_entry (shuffle (order (h_top h)) kvs) h"

definition CertRotationConfigStatus_DeepCopyInto :: "(addr \<Rightarrow> nat list) \<Rightarrow> status_struct \<Rightarrow> heap \<Rightarrow> status_struct \<times> heap" where
  "CertRotationConfigStatus_DeepCopyInto order v h =
     (let (checked, h1) = Time_DeepCopy (ss_LastCheckedAt v) h;
          (renewed, h2) = Time_DeepCopy (ss_LastRenewedAt v) h1;
          (nodes, h3) = copy_opt (copy_ptr the_nodes NodesObj (copy_nodes order)) (ss_Nodes v) h2;
          (conditions, h4) = copy_opt (copy_ptr the_conditions ConditionsObj (copy_list copy_value)) (ss_Conditions v) h3
      in (v\<lparr>ss_LastCheckedAt := checked, ss_LastRenewedAt := renewed, ss_Nodes := nodes, ss_Conditions := conditions\<rparr>, h4))"

definition CertRotationConfigStatus_DeepCopy :: "(addr \<Rightarrow> nat list) \<Rightarrow> addr option \<Rightarrow> heap \<Rightarrow> addr option \<times> heap" where
  "CertRotationConfigStatus_DeepCopy order =
     copy_opt (copy_ptr the_status StatusObj (CertRotationConfigStatus_DeepCopyInto order))"

text \<open>Of the metadata of an object only the name is in the model, a string.\<close>

definition CertRotationConfig_DeepCopyInto :: "(addr \<Rightarrow> nat list) \<Rightarrow> config_struct \<Rightarrow> heap \<Rightarrow> config_struct \<times> heap" where
  "CertRotationConfig_DeepCopyInto order v h =
     (let (spec, h1) = CertRotationConfigSpec_DeepCopyInto (cs_Spec v) h;
          (status, h2) = CertRotationConfigStatus_DeepCopyInto order (cs_Status v) h1
      in (v\<lparr>cs_Spec := spec, cs_Status := status\<rparr>, h2))"

definition CertRotationConfig_DeepCopy :: "(addr \<Rightarrow> nat list) \<Rightarrow> addr option \<Rightarrow> heap \<Rightarrow> addr option \<times> heap" where
  "CertRotationConfig_DeepCopy order = copy_opt (copy_ptr the_config ConfigObj (CertRotationConfig_DeepCopyInto order))"

definition CertRotationConfig_DeepCopyObject :: "(addr \<Rightarrow> nat list) \<Rightarrow> addr option \<Rightarrow> heap \<Rightarrow> addr option \<times> heap" where
  "CertRotationConfig_DeepCopyObject order p h =
     (let (c, h') = CertRotationConfig_DeepCopy order p h in case c of Some a \<Rightarrow> (Some a, h') | None \<Rightarrow> (None, h'))"

definition CertRotationConfigList_DeepCopyInto :: "(addr \<Rightarrow> nat list) \<Rightarrow> list_struct \<Rightarrow> heap \<Rightarrow> list_struct \<times> heap" where
  "CertRotationConfigList_DeepCopyInto order v h =
     (let (items, h1) = copy_opt (copy_ptr the_items ItemsObj (copy_list (CertRotationConfig_DeepCopyInto order))) (ls_Items v) h
      in (v\<lparr>ls_Items := items\<rparr>, h1))"

definition CertRotationConfigList_DeepCopy :: "(addr \<Rightarrow> nat list) \<Rightarrow> addr option \<Rightarrow> heap \<Rightarrow> addr option \<times> heap" where
  "CertRotationConfigList_DeepCopy order = copy_opt (copy_ptr the_list ListObj (CertRotationConfigList_DeepCopyInto order))"

definition CertRotationConfigList_DeepCopyObject :: "(addr \<Rightarrow> nat list) \<Rightarrow> addr option \<Rightarrow> heap \<Rightarrow> addr option \<times> heap" where
  "CertRotationConfigList_DeepCopyObject order p h =
     (let (c, h') = CertRotationConfigList_DeepCopy order p h in case c of Some a \<Rightarrow> (Some a, h') | None \<Rightarrow> (None, h'))"

section \<open>The values in memory\<close>

definition or_empty :: "'a list option \<Rightarrow> 'a list" where
  "or_empty xs = (case xs of None \<Rightarrow> [] | Some ys \<Rightarrow> ys)"

definition view_node :: "(addr \<Rightarrow> obj) \<Rightarrow> node_struct \<Rightarrow> node_status" where
  "view_node m v = \<lparr>node_Node = nd_Node v, node_Phase = nd_Phase v,
     node_LastCheckedAt = map_option (\<lambda>a. the_time (m a)) (nd_LastCheckedAt v),
     node_LastRenewedAt = map_option (\<lambda>a. the_time (m a)) (nd_LastRenewedAt v),
     node_BackupPath = nd_BackupPath v, node_FailureReason = nd_FailureReason v,
     node_Certs = or_empty (map_option (\<lambda>a. map (\<lambda>c. c) (the_certs (m a))) (nd_Certs v))\<rparr>"

definition view_nodes :: "(addr \<Rightarrow> obj) \<Rightarrow> (string \<times> node_struct) list \<Rightarrow> (string, node_status) fmap" where
  "view_nodes m kvs = fmap_of_list (map (\<lambda>kv. (fst kv, view_node m (snd kv))) kvs)"

definition view_status :: "(addr \<Rightarrow> obj) \<Rightarrow> status_struct \<Rightarrow> config_status" where
  "view_status m v = \<lparr>status_Phase = ss_Phase v,
     status_LastCheckedAt = map_option (\<lambda>a. the_time (m a)) (ss_LastCheckedAt v),
     status_LastRenewedAt = map_option (\<lambda>a. the_time (m a)) (ss_LastRenewedAt v),
     status_Nodes = (case map_option (\<lambda>a. view_nodes m (the_nodes (m a))) (ss_Nodes v) of None \<Rightarrow> fmempty | Some f \<Rightarrow> f),
     status_Conditions = or_empty (map_option (\<lambda>a. map (\<lambda>c. c) (the_conditions (m a))) (ss_Conditions v))\<rparr>"

definition view_config :: "(addr \<Rightarrow> obj) \<Rightarrow> config_struct \<Rightarrow> cert_rotation_config" where
  "view_config m v = \<lparr>config_Name = cs_Name v, config_Spec = cs_Spec v, config_Status = view_status m (cs_Status v)\<rparr>"

definition view_list :: "(addr \<Rightarrow> obj) \<Rightarrow> list_struct \<Rightarrow> cert_rotation_config list" where
  "view_list m v = or_empty (map_option (\<lambda>a. map (view_config m) (the_items (m a))) (ls_Items v))"

section \<open>What a deep copy is\<close>

text \<open>Memory in use is not written to.\<close>

definition grows :: "heap \<Rightarrow> heap \<Rightarrow> bool" where
  "grows h h' \<longleftrightarrow> h_top h \<le> h_top h' \<and> (\<forall>a<h_top h. h_mem h' a = h_mem h a)"

text \<open>
  The copy \<open>v'\<close> lives in the memory between the old and the new top alone: whatever happens to the
  rest of the memory later, it reads as the original did.
\<close>

definition isolated :: "((addr \<Rightarrow> obj) \<Rightarrow> 'v \<Rightarrow> 'a) \<Rightarrow> heap \<Rightarrow> 'v \<Rightarrow> 'v \<Rightarrow> heap \<Rightarrow> bool" where
  "isolated view h v v' h' \<longleftrightarrow> grows h h' \<and>
     (\<forall>m. (\<forall>a. h_top h \<le> a \<and> a < h_top h' \<longrightarrow> m a = h_mem h' a) \<longrightarrow> view m v' = view (h_mem h) v)"

lemma grows_refl [simp]: "grows h h"
  by (simp add: grows_def)

lemma grows_trans [trans]: "grows h1 h2 \<Longrightarrow> grows h2 h3 \<Longrightarrow> grows h1 h3"
  unfolding grows_def by fastforce

lemma grows_new: "new_obj h = (b, h') \<Longrightarrow> b = h_top h \<and> h_top h' = Suc (h_top h) \<and> h_mem h' = h_mem h \<and> grows h h'"
  by (auto simp: new_obj_def grows_def)

lemma grows_store: "h_top h \<le> b \<Longrightarrow> grows h h' \<Longrightarrow> grows h (store_at b x h')"
  by (auto simp: grows_def store_at_def)

lemma isolated_grows: "isolated view h v v' h' \<Longrightarrow> grows h h'"
  by (simp add: isolated_def)

text \<open>Reading a copy after more was copied, and a copy made after other copies.\<close>

lemma isolated_read:
  assumes "isolated view h1 v v' h2" and "grows h h1" and "grows h2 h3"
    and "\<And>a. h_top h \<le> a \<Longrightarrow> a < h_top h3 \<Longrightarrow> m a = h_mem h3 a"
  shows "view m v' = view (h_mem h1) v"
proof -
  have "m a = h_mem h2 a" if "h_top h1 \<le> a" "a < h_top h2" for a
    using that assms(2,3) assms(4) [of a] by (auto simp: grows_def)
  then show ?thesis using assms(1) by (simp add: isolated_def)
qed

definition ok_at :: "(heap \<Rightarrow> 'v \<Rightarrow> bool) \<Rightarrow> (obj \<Rightarrow> 'v) \<Rightarrow> heap \<Rightarrow> addr \<Rightarrow> bool" where
  "ok_at ok unbox h a \<longleftrightarrow> a < h_top h \<and> ok h (unbox (h_mem h a))"

locale deep_copy =
  fixes ok :: "heap \<Rightarrow> 'v \<Rightarrow> bool"
    and view :: "(addr \<Rightarrow> obj) \<Rightarrow> 'v \<Rightarrow> 'a"
    and into :: "'v \<Rightarrow> heap \<Rightarrow> 'v \<times> heap"
  assumes ok_grows: "ok h v \<Longrightarrow> grows h h' \<Longrightarrow> ok h' v"
    and view_grows: "ok h v \<Longrightarrow> grows h h' \<Longrightarrow> view (h_mem h') v = view (h_mem h) v"
    and into_isolated: "ok h v \<Longrightarrow> into v h = (v', h') \<Longrightarrow> isolated view h v v' h'"
begin

lemma into_grows: "ok h v \<Longrightarrow> into v h = (v', h') \<Longrightarrow> grows h h'"
  by (rule isolated_grows [OF into_isolated])

text \<open>The copy of a part, read at the end of the whole copy.\<close>

lemma part:
  assumes "ok h v" and "grows h h1" and "into v h1 = (v', h2)" and "grows h2 h3"
    and "\<And>a. h_top h \<le> a \<Longrightarrow> a < h_top h3 \<Longrightarrow> m a = h_mem h3 a"
  shows "view m v' = view (h_mem h) v"
  using isolated_read [OF into_isolated [OF ok_grows [OF assms(1,2)] assms(3)] assms(2,4,5)] view_grows [OF assms(1,2)]
  by simp

lemma part_grows: "ok h v \<Longrightarrow> grows h h1 \<Longrightarrow> into v h1 = (v', h2) \<Longrightarrow> grows h1 h2"
  by (rule into_grows [OF ok_grows])

text \<open>Behind a pointer.\<close>

lemma pointer:
  assumes "\<And>v. unbox (box v) = v"
  shows "deep_copy (ok_at ok unbox) (\<lambda>m a. view m (unbox (m a))) (copy_ptr unbox box into)"
proof
  fix h h' a assume "ok_at ok unbox h a" "grows h h'"
  then show "ok_at ok unbox h' a" "view (h_mem h') (unbox (h_mem h' a)) = view (h_mem h) (unbox (h_mem h a))"
    using ok_grows view_grows by (auto simp: ok_at_def grows_def)
next
  fix h h' a b assume ok: "ok_at ok unbox h a" and run: "copy_ptr unbox box into a h = (b, h')"
  from run obtain h0 v h1 where n: "new_obj h = (b, h0)" and i: "into (unbox (h_mem h a)) h0 = (v, h1)"
    and h': "h' = store_at b (box v) h1" by (auto simp: copy_ptr_def Let_def split: prod.splits)
  note n = grows_new [OF n]
  have okv: "ok h (unbox (h_mem h a))" using ok by (simp add: ok_at_def)
  have g: "grows h0 h1" by (rule part_grows [OF okv _ i]) (use n in blast)
  have "grows h h1" using n g grows_trans by blast
  then have "grows h h'" unfolding h' using n by (intro grows_store) simp_all
  moreover have "view m (unbox (m b)) = view (h_mem h) (unbox (h_mem h a))"
    if m: "\<And>x. h_top h \<le> x \<Longrightarrow> x < h_top h' \<Longrightarrow> m x = h_mem h' x" for m
  proof -
    have "m b = box v" using m [of b] n g by (simp add: h' store_at_def grows_def)
    moreover have "m x = h_mem h1 x" if "h_top h0 \<le> x" "x < h_top h1" for x
      using m [of x] that n by (simp add: h' store_at_def)
    then have "view m v = view (h_mem h0) (unbox (h_mem h a))"
      using into_isolated [OF ok_grows [OF okv] i] n by (simp add: isolated_def)
    ultimately show ?thesis using assms n by simp
  qed
  ultimately show "isolated (\<lambda>m a. view m (unbox (m a))) h a b h'" by (simp add: isolated_def)
qed

text \<open>In a slice.\<close>

lemma elements: "deep_copy (\<lambda>h. list_all (ok h)) (\<lambda>m. map (view m)) (copy_list into)"
proof
  fix h h' :: heap and xs assume ok: "list_all (ok h) xs" and g: "grows h h'"
  show "list_all (ok h') xs" using ok ok_grows [OF _ g] by (auto simp: list_all_iff)
  show "map (view (h_mem h')) xs = map (view (h_mem h)) xs" using ok view_grows [OF _ g] by (auto simp: list_all_iff)
next
  fix h xs ys h' assume "list_all (ok h) xs" "copy_list into xs h = (ys, h')"
  then show "isolated (\<lambda>m. map (view m)) h xs ys h'"
  proof (induction xs arbitrary: h ys)
    case (Cons x xs)
    from Cons.prems(2) obtain y h1 zs where x: "into x h = (y, h1)" and xs: "copy_list into xs h1 = (zs, h')" "ys = y # zs"
      by (auto simp: Let_def split: prod.splits)
    have okx: "ok h x" and g1: "grows h h1" using Cons.prems(1) into_grows [OF _ x] by auto
    have okxs: "list_all (ok h1) xs" using Cons.prems(1) ok_grows [OF _ g1] by (auto simp: list_all_iff)
    note i = Cons.IH [OF okxs xs(1)]
    have "map (view m) ys = map (view (h_mem h)) (x # xs)"
      if m: "\<And>a. h_top h \<le> a \<Longrightarrow> a < h_top h' \<Longrightarrow> m a = h_mem h' a" for m
    proof -
      have "view m y = view (h_mem h) x" by (rule part [OF okx grows_refl x isolated_grows [OF i] m])
      moreover have "map (view m) zs = map (view (h_mem h1)) xs" by (rule isolated_read [OF i g1 grows_refl m])
      moreover have "map (view (h_mem h1)) xs = map (view (h_mem h)) xs"
        using Cons.prems(1) view_grows [OF _ g1] by (auto simp: list_all_iff)
      ultimately show ?thesis using xs(2) by simp
    qed
    then show ?case using grows_trans [OF g1 isolated_grows [OF i]] by (simp add: isolated_def)
  qed (simp add: isolated_def)
qed

text \<open>What may be nil.\<close>

lemma optional: "deep_copy (\<lambda>h. pred_option (ok h)) (\<lambda>m. map_option (view m)) (copy_opt into)"
proof
  fix h h' :: heap and p assume ok: "pred_option (ok h) p" and g: "grows h h'"
  show "pred_option (ok h') p" "map_option (view (h_mem h')) p = map_option (view (h_mem h)) p"
    using ok ok_grows [OF _ g] view_grows [OF _ g] by (cases p; simp)+
next
  fix h p q h' assume "pred_option (ok h) p" "copy_opt into p h = (q, h')"
  then show "isolated (\<lambda>m. map_option (view m)) h p q h'"
    using into_isolated by (cases p) (auto simp: copy_opt_def isolated_def split: prod.splits)
qed

lemma boxed:
  assumes "\<And>v. unbox (box v) = v"
  shows "deep_copy (\<lambda>h. pred_option (ok_at ok unbox h)) (\<lambda>m. map_option (\<lambda>a. view m (unbox (m a)))) (copy_opt (copy_ptr unbox box into))"
  by (rule deep_copy.optional [OF pointer [OF assms]])

end

interpretation plain_value: deep_copy "\<lambda>_ _. True" "\<lambda>_ v. v" copy_value
  by unfold_locales (simp_all add: copy_value_def isolated_def)

section \<open>The generated copies are deep\<close>

definition ok_time :: "heap \<Rightarrow> addr option \<Rightarrow> bool" where
  "ok_time h = pred_option (ok_at (\<lambda>_ _. True) the_time h)"

definition ok_plain_slice :: "(obj \<Rightarrow> 'v list) \<Rightarrow> heap \<Rightarrow> addr option \<Rightarrow> bool" where
  "ok_plain_slice unbox h = pred_option (ok_at (\<lambda>h. list_all (\<lambda>_. True)) unbox h)"

definition ok_node :: "heap \<Rightarrow> node_struct \<Rightarrow> bool" where
  "ok_node h v \<longleftrightarrow> ok_time h (nd_LastCheckedAt v) \<and> ok_time h (nd_LastRenewedAt v) \<and> ok_plain_slice the_certs h (nd_Certs v)"

definition ok_nodes :: "heap \<Rightarrow> (string \<times> node_struct) list \<Rightarrow> bool" where
  "ok_nodes h kvs \<longleftrightarrow> distinct (map fst kvs) \<and> list_all (\<lambda>kv. ok_node h (snd kv)) kvs"

definition ok_status :: "heap \<Rightarrow> status_struct \<Rightarrow> bool" where
  "ok_status h v \<longleftrightarrow> ok_time h (ss_LastCheckedAt v) \<and> ok_time h (ss_LastRenewedAt v) \<and>
     pred_option (ok_at ok_nodes the_nodes h) (ss_Nodes v) \<and> ok_plain_slice the_conditions h (ss_Conditions v)"

definition ok_config :: "heap \<Rightarrow> config_struct \<Rightarrow> bool" where
  "ok_config h v \<longleftrightarrow> ok_status h (cs_Status v)"

definition ok_list :: "heap \<Rightarrow> list_struct \<Rightarrow> bool" where
  "ok_list h v \<longleftrightarrow> pred_option (ok_at (\<lambda>h. list_all (ok_config h)) the_items h) (ls_Items v)"

interpretation time_ptr: deep_copy ok_time "\<lambda>m. map_option (\<lambda>a. the_time (m a))" Time_DeepCopy
  unfolding ok_time_def Time_DeepCopy_def by (rule plain_value.boxed) simp

interpretation certs: deep_copy "ok_plain_slice the_certs" "\<lambda>m. map_option (\<lambda>a. map (\<lambda>c. c) (the_certs (m a)))"
    "copy_opt (copy_ptr the_certs CertsObj (copy_list copy_value))"
  unfolding ok_plain_slice_def by (rule deep_copy.boxed [OF plain_value.elements]) simp

interpretation conditions: deep_copy "ok_plain_slice the_conditions" "\<lambda>m. map_option (\<lambda>a. map (\<lambda>c. c) (the_conditions (m a)))"
    "copy_opt (copy_ptr the_conditions ConditionsObj (copy_list copy_value))"
  unfolding ok_plain_slice_def by (rule deep_copy.boxed [OF plain_value.elements]) simp

interpretation node: deep_copy ok_node view_node NodeStatus_DeepCopyInto
proof
  fix h h' v assume ok: "ok_node h v" and g: "grows h h'"
  show "ok_node h' v" "view_node (h_mem h') v = view_node (h_mem h) v"
    using ok time_ptr.ok_grows [OF _ g] certs.ok_grows [OF _ g] time_ptr.view_grows [OF _ g] certs.view_grows [OF _ g]
    by (simp_all add: ok_node_def view_node_def)
next
  fix h h' v v' assume ok: "ok_node h v" and run: "NodeStatus_DeepCopyInto v h = (v', h')"
  from run obtain c h1 r h2 s where c: "Time_DeepCopy (nd_LastCheckedAt v) h = (c, h1)"
    and r: "Time_DeepCopy (nd_LastRenewedAt v) h1 = (r, h2)"
    and s: "copy_opt (copy_ptr the_certs CertsObj (copy_list copy_value)) (nd_Certs v) h2 = (s, h')"
    and v': "v' = v\<lparr>nd_LastCheckedAt := c, nd_LastRenewedAt := r, nd_Certs := s\<rparr>"
    by (auto simp: NodeStatus_DeepCopyInto_def Let_def split: prod.splits)
  have okc: "ok_time h (nd_LastCheckedAt v)" and okr: "ok_time h (nd_LastRenewedAt v)" and oks: "ok_plain_slice the_certs h (nd_Certs v)"
    using ok by (simp_all add: ok_node_def)
  have g1: "grows h h1" by (rule time_ptr.into_grows [OF okc c])
  have g2: "grows h1 h2" by (rule time_ptr.part_grows [OF okr g1 r])
  note g12 = grows_trans [OF g1 g2]
  have g3: "grows h2 h'" by (rule certs.part_grows [OF oks g12 s])
  show "isolated view_node h v v' h'"
    unfolding isolated_def
  proof (intro conjI allI impI)
    show "grows h h'" by (rule grows_trans [OF g12 g3])
    fix m assume m: "\<forall>a. h_top h \<le> a \<and> a < h_top h' \<longrightarrow> m a = h_mem h' a"
    have "map_option (\<lambda>a. the_time (m a)) c = map_option (\<lambda>a. the_time (h_mem h a)) (nd_LastCheckedAt v)"
      by (rule time_ptr.part [OF okc grows_refl c grows_trans [OF g2 g3]]) (simp add: m)
    moreover have "map_option (\<lambda>a. the_time (m a)) r = map_option (\<lambda>a. the_time (h_mem h a)) (nd_LastRenewedAt v)"
      by (rule time_ptr.part [OF okr g1 r g3]) (simp add: m)
    moreover have "map_option (\<lambda>a. map (\<lambda>c. c) (the_certs (m a))) s = map_option (\<lambda>a. map (\<lambda>c. c) (the_certs (h_mem h a))) (nd_Certs v)"
      by (rule certs.part [OF oks g12 s grows_refl]) (simp add: m)
    ultimately show "view_node m v' = view_node (h_mem h) v" unfolding v' view_node_def by simp
  qed
qed

interpretation node_ptr: deep_copy "\<lambda>h. pred_option (ok_at ok_node the_node h)"
    "\<lambda>m. map_option (\<lambda>a. view_node m (the_node (m a)))" NodeStatus_DeepCopy
  unfolding NodeStatus_DeepCopy_def by (rule node.boxed) simp

text \<open>The entries of the map, whose keys are copied as they are.\<close>

interpretation node_entries: deep_copy "\<lambda>h kv. ok_node h (snd kv)" "\<lambda>m kv. (fst kv, view_node m (snd kv))" copy_entry
proof
  fix h h' and kv :: "string \<times> node_struct" assume ok: "ok_node h (snd kv)" and g: "grows h h'"
  show "ok_node h' (snd kv)" "(fst kv, view_node (h_mem h') (snd kv)) = (fst kv, view_node (h_mem h) (snd kv))"
    using node.ok_grows [OF ok g] node.view_grows [OF ok g] by simp_all
next
  fix h h' and kv kv' :: "string \<times> node_struct" assume ok: "ok_node h (snd kv)" and run: "copy_entry kv h = (kv', h')"
  from run obtain v h0 b h2 v' h3 where n: "new_obj h = (v, h0)"
    and b: "new_obj (store_at v (NodeObj (snd kv)) h0) = (b, h2)"
    and i: "NodeStatus_DeepCopyInto (snd kv) h2 = (v', h3)"
    and h': "h' = store_at b (NodeObj v') h3" and kv': "kv' = (fst kv, v')"
    by (auto simp: copy_entry_def NodeStatus_DeepCopy_def copy_opt_def copy_ptr_def Let_def store_at_def split: prod.splits)
  note n = grows_new [OF n] and b = grows_new [OF b]
  have g1: "grows h (store_at v (NodeObj (snd kv)) h0)" using n by (intro grows_store) simp_all
  have g2: "grows h h2" using grows_trans [OF g1] b by blast
  have g3: "grows h2 h3" by (rule node.part_grows [OF ok g2 i])
  have top: "h_top h \<le> b" "b < h_top h2" using n b by (simp_all add: store_at_def)
  show "isolated (\<lambda>m kv. (fst kv, view_node m (snd kv))) h kv kv' h'"
    unfolding isolated_def
  proof (intro conjI allI impI)
    show "grows h h'" unfolding h' by (rule grows_store [OF top(1) grows_trans [OF g2 g3]])
    fix m assume m: "\<forall>a. h_top h \<le> a \<and> a < h_top h' \<longrightarrow> m a = h_mem h' a"
    have "m a = h_mem h3 a" if "h_top h2 \<le> a" "a < h_top h3" for a
      using m that top by (simp add: h' store_at_def)
    then have "view_node m v' = view_node (h_mem h2) (snd kv)"
      using node.into_isolated [OF node.ok_grows [OF ok g2] i] by (simp add: isolated_def)
    then show "(fst kv', view_node m (snd kv')) = (fst kv, view_node (h_mem h) (snd kv))"
      using node.view_grows [OF ok g2] kv' by simp
  qed
qed

lemma view_nodes_perm:
  assumes "mset kvs = mset kvs'" and "distinct (map fst kvs)"
  shows "view_nodes m kvs = view_nodes m kvs'"
proof -
  let ?f = "map (\<lambda>kv. (fst kv, view_node m (snd kv)))"
  have "distinct (map fst kvs')" using assms by (metis mset_eq_imp_distinct_iff mset_map)
  then have "map_of (?f kvs) = map_of (?f kvs')"
    using assms mset_eq_setD [OF assms(1)] by (subst map_of_inject_set) (simp_all add: comp_def)
  then show ?thesis unfolding view_nodes_def by (intro fmap_ext) (simp add: fmlookup_of_list)
qed

interpretation nodes: deep_copy ok_nodes view_nodes "copy_nodes order" for order
proof
  fix h h' kvs assume ok: "ok_nodes h kvs" and g: "grows h h'"
  show "ok_nodes h' kvs" "view_nodes (h_mem h') kvs = view_nodes (h_mem h) kvs"
    using ok node_entries.ok_grows [OF _ g] node_entries.view_grows [OF _ g]
    by (auto simp: ok_nodes_def view_nodes_def list_all_iff intro: arg_cong [where f = fmap_of_list])
next
  fix h h' kvs kvs' assume ok: "ok_nodes h kvs" and run: "copy_nodes order kvs h = (kvs', h')"
  let ?ys = "shuffle (order (h_top h)) kvs"
  have "list_all (\<lambda>kv. ok_node h (snd kv)) ?ys" using ok by (simp add: ok_nodes_def list_all_iff)
  then have i: "isolated (\<lambda>m. map (\<lambda>kv. (fst kv, view_node m (snd kv)))) h ?ys kvs' h'"
    using run by (intro deep_copy.into_isolated [OF node_entries.elements]) (simp_all add: copy_nodes_def)
  have "view_nodes (h_mem h) ?ys = view_nodes (h_mem h) kvs"
    using ok by (intro view_nodes_perm [symmetric]) (simp_all add: ok_nodes_def)
  then show "isolated view_nodes h kvs kvs' h'" using i by (simp add: isolated_def view_nodes_def)
qed

interpretation nodes_ptr: deep_copy "\<lambda>h. pred_option (ok_at ok_nodes the_nodes h)"
    "\<lambda>m. map_option (\<lambda>a. view_nodes m (the_nodes (m a)))" "copy_opt (copy_ptr the_nodes NodesObj (copy_nodes order))" for order
  by (rule nodes.boxed) simp

interpretation status: deep_copy ok_status view_status "CertRotationConfigStatus_DeepCopyInto order" for order
proof
  fix h h' v assume ok: "ok_status h v" and g: "grows h h'"
  show "ok_status h' v" "view_status (h_mem h') v = view_status (h_mem h) v"
    using ok time_ptr.ok_grows [OF _ g] nodes_ptr.ok_grows [OF _ g] conditions.ok_grows [OF _ g]
      time_ptr.view_grows [OF _ g] nodes_ptr.view_grows [OF _ g] conditions.view_grows [OF _ g]
    by (simp_all add: ok_status_def view_status_def)
next
  fix h h' v v' assume ok: "ok_status h v" and run: "CertRotationConfigStatus_DeepCopyInto order v h = (v', h')"
  from run obtain c h1 r h2 n h3 s where c: "Time_DeepCopy (ss_LastCheckedAt v) h = (c, h1)"
    and r: "Time_DeepCopy (ss_LastRenewedAt v) h1 = (r, h2)"
    and n: "copy_opt (copy_ptr the_nodes NodesObj (copy_nodes order)) (ss_Nodes v) h2 = (n, h3)"
    and s: "copy_opt (copy_ptr the_conditions ConditionsObj (copy_list copy_value)) (ss_Conditions v) h3 = (s, h')"
    and v': "v' = v\<lparr>ss_LastCheckedAt := c, ss_LastRenewedAt := r, ss_Nodes := n, ss_Conditions := s\<rparr>"
    by (auto simp: CertRotationConfigStatus_DeepCopyInto_def Let_def split: prod.splits)
  have okc: "ok_time h (ss_LastCheckedAt v)" and okr: "ok_time h (ss_LastRenewedAt v)"
    and okn: "pred_option (ok_at ok_nodes the_nodes h) (ss_Nodes v)" and oks: "ok_plain_slice the_conditions h (ss_Conditions v)"
    using ok by (simp_all add: ok_status_def)
  have g1: "grows h h1" by (rule time_ptr.into_grows [OF okc c])
  have g2: "grows h1 h2" by (rule time_ptr.part_grows [OF okr g1 r])
  note g12 = grows_trans [OF g1 g2]
  have g3: "grows h2 h3" by (rule nodes_ptr.part_grows [OF okn g12 n])
  note g13 = grows_trans [OF g12 g3]
  have g4: "grows h3 h'" by (rule conditions.part_grows [OF oks g13 s])
  show "isolated view_status h v v' h'"
    unfolding isolated_def
  proof (intro conjI allI impI)
    show "grows h h'" by (rule grows_trans [OF g13 g4])
    fix m assume m: "\<forall>a. h_top h \<le> a \<and> a < h_top h' \<longrightarrow> m a = h_mem h' a"
    have "map_option (\<lambda>a. the_time (m a)) c = map_option (\<lambda>a. the_time (h_mem h a)) (ss_LastCheckedAt v)"
      by (rule time_ptr.part [OF okc grows_refl c grows_trans [OF g2 grows_trans [OF g3 g4]]]) (simp add: m)
    moreover have "map_option (\<lambda>a. the_time (m a)) r = map_option (\<lambda>a. the_time (h_mem h a)) (ss_LastRenewedAt v)"
      by (rule time_ptr.part [OF okr g1 r grows_trans [OF g3 g4]]) (simp add: m)
    moreover have "map_option (\<lambda>a. view_nodes m (the_nodes (m a))) n =
        map_option (\<lambda>a. view_nodes (h_mem h) (the_nodes (h_mem h a))) (ss_Nodes v)"
      by (rule nodes_ptr.part [OF okn g12 n g4]) (simp add: m)
    moreover have "map_option (\<lambda>a. map (\<lambda>c. c) (the_conditions (m a))) s =
        map_option (\<lambda>a. map (\<lambda>c. c) (the_conditions (h_mem h a))) (ss_Conditions v)"
      by (rule conditions.part [OF oks g13 s grows_refl]) (simp add: m)
    ultimately show "view_status m v' = view_status (h_mem h) v" unfolding v' view_status_def by simp
  qed
qed

interpretation configs: deep_copy ok_config view_config "CertRotationConfig_DeepCopyInto order" for order
proof
  fix h h' v assume ok: "ok_config h v" and g: "grows h h'"
  show "ok_config h' v" "view_config (h_mem h') v = view_config (h_mem h) v"
    using ok status.ok_grows [OF _ g] status.view_grows [OF _ g] by (simp_all add: ok_config_def view_config_def)
next
  fix h h' v v' assume ok: "ok_config h v" and run: "CertRotationConfig_DeepCopyInto order v h = (v', h')"
  then obtain s where s: "CertRotationConfigStatus_DeepCopyInto order (cs_Status v) h = (s, h')" and v': "v' = v\<lparr>cs_Status := s\<rparr>"
    by (auto simp: CertRotationConfig_DeepCopyInto_def CertRotationConfigSpec_DeepCopyInto_def Let_def split: prod.splits)
  have "isolated view_status h (cs_Status v) s h'"
    using ok s by (intro status.into_isolated) (simp_all add: ok_config_def)
  then show "isolated view_config h v v' h'" unfolding v' isolated_def view_config_def by simp
qed

interpretation config_lists: deep_copy ok_list view_list "CertRotationConfigList_DeepCopyInto order" for order
proof
  have items: "deep_copy (\<lambda>h. pred_option (ok_at (\<lambda>h. list_all (ok_config h)) the_items h))
      (\<lambda>m. map_option (\<lambda>a. map (view_config m) (the_items (m a))))
      (copy_opt (copy_ptr the_items ItemsObj (copy_list (CertRotationConfig_DeepCopyInto order))))"
    by (rule deep_copy.boxed [OF configs.elements]) simp
  show "ok_list h v \<Longrightarrow> grows h h' \<Longrightarrow> ok_list h' v" for h h' v
    unfolding ok_list_def by (rule deep_copy.ok_grows [OF items])
  show "view_list (h_mem h') v = view_list (h_mem h) v" if "ok_list h v" "grows h h'" for h h' v
    using deep_copy.view_grows [OF items] that unfolding ok_list_def view_list_def by metis
  fix h v v' h' assume "ok_list h v" "CertRotationConfigList_DeepCopyInto order v h = (v', h')"
  then show "isolated view_list h v v' h'"
    using deep_copy.into_isolated [OF items, of h "ls_Items v"]
    by (auto simp: ok_list_def CertRotationConfigList_DeepCopyInto_def isolated_def view_list_def Let_def split: prod.splits)
qed

interpretation config_ptr: deep_copy "\<lambda>h. pred_option (ok_at ok_config the_config h)"
    "\<lambda>m. map_option (\<lambda>a. view_config m (the_config (m a)))" "CertRotationConfig_DeepCopy order" for order
  unfolding CertRotationConfig_DeepCopy_def by (rule configs.boxed) simp

interpretation list_ptr: deep_copy "\<lambda>h. pred_option (ok_at ok_list the_list h)"
    "\<lambda>m. map_option (\<lambda>a. view_list m (the_list (m a)))" "CertRotationConfigList_DeepCopy order" for order
  unfolding CertRotationConfigList_DeepCopy_def by (rule config_lists.boxed) simp

section \<open>Properties\<close>

text \<open>
  C9. The base of a patch is isolated. A deep copy of a custom resource reads as the original did at the
  time of the copy, writes to no memory in use, and keeps reading so whatever is later written to
  the memory that was in use before (the original and all it shares with others) or that is
  allocated afterwards; and so do the list of resources and its copy.
\<close>

theorem DeepCopy_isolated:
  assumes "CertRotationConfig_DeepCopy order (Some a) h = (p, h')" and "a < h_top h" and "ok_config h (the_config (h_mem h a))"
    and later: "\<forall>x. h_top h \<le> x \<and> x < h_top h' \<longrightarrow> m x = h_mem h' x"
  shows "\<exists>b. p = Some b \<and> b \<noteq> a \<and> (\<forall>x<h_top h. h_mem h' x = h_mem h x) \<and>
    view_config m (the_config (m b)) = view_config (h_mem h) (the_config (h_mem h a))"
proof -
  have "isolated (\<lambda>m. map_option (\<lambda>a. view_config m (the_config (m a)))) h (Some a) p h'"
    using assms(2,3) by (intro config_ptr.into_isolated [OF _ assms(1)]) (simp add: ok_at_def)
  moreover have "p = Some (h_top h)" using assms(1)
    by (auto simp: CertRotationConfig_DeepCopy_def copy_opt_def copy_ptr_def new_obj_def Let_def split: prod.splits)
  ultimately show ?thesis using assms(2) later by (auto simp: isolated_def grows_def)
qed

theorem ListDeepCopy_isolated:
  assumes "CertRotationConfigList_DeepCopy order (Some a) h = (p, h')" and "a < h_top h" and "ok_list h (the_list (h_mem h a))"
    and later: "\<forall>x. h_top h \<le> x \<and> x < h_top h' \<longrightarrow> m x = h_mem h' x"
  shows "\<exists>b. p = Some b \<and> view_list m (the_list (m b)) = view_list (h_mem h) (the_list (h_mem h a))"
proof -
  have "isolated (\<lambda>m. map_option (\<lambda>a. view_list m (the_list (m a)))) h (Some a) p h'"
    using assms(2,3) by (intro list_ptr.into_isolated [OF _ assms(1)]) (simp add: ok_at_def)
  moreover have "p = Some (h_top h)" using assms(1)
    by (auto simp: CertRotationConfigList_DeepCopy_def copy_opt_def copy_ptr_def new_obj_def Let_def split: prod.splits)
  ultimately show ?thesis using later by (auto simp: isolated_def)
qed

lemma DeepCopy_nil: "CertRotationConfig_DeepCopyObject order None h = (None, h)"
  by (simp add: CertRotationConfig_DeepCopyObject_def CertRotationConfig_DeepCopy_def copy_opt_def)

end
