(* ===== verification/Witnesses_Deep_Copy.thy ===== *)
theory Witnesses_Deep_Copy
  imports Scenario Deep_Copy
begin

text \<open>
  A custom resource in memory, whose status and whose node share the time of the last check, and what
  is left of both after the original was written to.
\<close>

definition mem_node :: node_struct where
  "mem_node = \<lparr>nd_Node = ''n'', nd_Phase = NodePhaseIdle, nd_LastCheckedAt = Some 0, nd_LastRenewedAt = None,
     nd_BackupPath = '''', nd_FailureReason = '''', nd_Certs = Some 1\<rparr>"

definition mem_config :: config_struct where
  "mem_config = \<lparr>cs_Name = ''cluster'', cs_Spec = node_spec,
     cs_Status = \<lparr>ss_Phase = ClusterPhaseIdle, ss_LastCheckedAt = Some 0, ss_LastRenewedAt = None,
       ss_Nodes = Some 2, ss_Conditions = None\<rparr>\<rparr>"

definition mem :: heap where
  "mem = \<lparr>h_mem = (\<lambda>a. if a = 0 then TimeObj 5
      else if a = 1 then CertsObj [\<lparr>cert_Name = ''apiserver'', cert_ExpiryTime = 7, cert_ResidualDays = 1, cert_Status = ''OK''\<rparr>]
      else if a = 2 then NodesObj [(''n'', mem_node)]
      else if a = 3 then ConfigObj mem_config
      else if a = 4 then ItemsObj [mem_config] else ListObj \<lparr>ls_Items = Some 4\<rparr>),
     h_top = 6\<rparr>"

lemma mem_ok: "ok_config mem mem_config"
  by (simp add: ok_config_def ok_status_def ok_time_def ok_plain_slice_def ok_at_def ok_nodes_def ok_node_def
      mem_config_def mem_node_def mem_def)

definition copied :: "addr option \<times> heap" where
  "copied = CertRotationConfig_DeepCopy (\<lambda>_. []) (Some 3) mem"

text \<open>The shared time of the check is overwritten after the copy.\<close>

definition later_mem :: "addr \<Rightarrow> obj" where
  "later_mem = (h_mem (snd copied))(0 := TimeObj 99)"

theorem DeepCopy_isolated_witness:
  "\<exists>b. fst copied = Some b \<and>
     status_LastCheckedAt (config_Status (view_config later_mem (the_config (later_mem b)))) = Some 5 \<and>
     status_LastCheckedAt (config_Status (view_config later_mem (the_config (later_mem 3)))) = Some 99"
proof -
  have run: "CertRotationConfig_DeepCopy (\<lambda>_. []) (Some 3) mem = (fst copied, snd copied)"
    by (simp add: copied_def)
  have a: "(3 :: addr) < h_top mem" "the_config (h_mem mem 3) = mem_config" by (simp_all add: mem_def)
  have "\<forall>x. h_top mem \<le> x \<and> x < h_top (snd copied) \<longrightarrow> later_mem x = h_mem (snd copied) x"
    by (simp add: later_mem_def mem_def)
  from DeepCopy_isolated [OF run a(1) _ this] a(2) mem_ok obtain b where
    b: "fst copied = Some b" "\<forall>x<h_top mem. h_mem (snd copied) x = h_mem mem x"
    "view_config later_mem (the_config (later_mem b)) = view_config (h_mem mem) mem_config" by auto
  have "later_mem 3 = ConfigObj mem_config" using b(2) by (simp add: later_mem_def mem_def)
  then show ?thesis using b(1,3) by (simp add: view_config_def view_status_def mem_config_def mem_def later_mem_def)
qed

theorem ListDeepCopy_isolated_witness:
  "\<exists>b h'. CertRotationConfigList_DeepCopy (\<lambda>_. []) (Some 5) mem = (Some b, h') \<and>
     view_list (h_mem h') (the_list (h_mem h' b)) = [view_config (h_mem mem) mem_config]"
proof -
  obtain p h' where run: "CertRotationConfigList_DeepCopy (\<lambda>_. []) (Some 5) mem = (p, h')" by fastforce
  have a: "(5 :: addr) < h_top mem" "the_list (h_mem mem 5) = \<lparr>ls_Items = Some 4\<rparr>" by (simp_all add: mem_def)
  have "ok_list mem \<lparr>ls_Items = Some 4\<rparr>" using mem_ok by (simp add: ok_list_def ok_at_def) (simp add: mem_def)
  with ListDeepCopy_isolated [OF run a(1), of "h_mem h'"] a(2) obtain b where
    "p = Some b" "view_list (h_mem h') (the_list (h_mem h' b)) = view_list (h_mem mem) \<lparr>ls_Items = Some 4\<rparr>" by auto
  then show ?thesis using run by (simp add: view_list_def or_empty_def mem_def)
qed

end
