(* ===== verification/Renewal_Effect.thy ===== *)
theory Renewal_Effect
  imports Reconcile_Outcomes
begin

text \<open>
  What a renewal achieves, across the components: the pairs it installs on the node, and what the
  next detection says of them.
\<close>

section \<open>Reading a certificate back\<close>

definition reads :: "env \<Rightarrow> string \<Rightarrow> certificate \<Rightarrow> bool" where
  "reads E data cert \<longleftrightarrow> (\<exists>ty bytes. env_pem_decode E data = Some (ty, bytes) \<and> env_parse_cert E bytes = Inr cert)"

lemma LoadExistingCert_okD:
  assumes "LoadExistingCert E p s = (Ok c, s')"
  shows "\<exists>data md. fs_get (w_fs s) (resolve p) = Some (Reg data md) \<and> reads E data c" and "w_fs s' = w_fs s"
proof -
  from assms obtain data where r: "os_ReadFile E p s = (Ok data, s')" and c: "reads E data c"
    by (auto simp: LoadExistingCert_def readPEMFile_def reads_def ok_iff split: prod.splits)
  from ReadFile_okD [OF r] c show "\<exists>data md. fs_get (w_fs s) (resolve p) = Some (Reg data md) \<and> reads E data c"
    and "w_fs s' = w_fs s" by auto
qed

section \<open>One certificate\<close>

text \<open>
  Between \<open>s\<close> and \<open>s'\<close> a certificate was renewed: the pair on disk is a new key, and the CA's signature
  over that key and a template that mirrors the certificate that was on disk, valid for a year.
\<close>

definition renewed :: "env \<Rightarrow> config_spec \<Rightarrow> cert_info \<Rightarrow> world \<Rightarrow> world \<Rightarrow> bool" where
  "renewed E spec c s s' \<longleftrightarrow>
     (\<exists>data md existing template caCert caKey key der t now.
        fs_get (w_fs s) (resolve (ci_Path c)) = Some (Reg data md) \<and> reads E data existing \<and>
        mirrors existing template \<and> NotAfter template = env_now E now + certValidity \<and>
        env_create_cert E t template caCert (PublicKey key) caKey = Inr der \<and>
        stored_pair (PKIDir spec) (ci_Name c) s' = Some (EncodeCertPEM E der, EncodeKeyPEM E key))"

lemma sign_okD:
  assumes "SignWithSelfKey E existing caCert caKey (the_generator E) s = (Ok (certPEM, keyPEM), s')"
  shows "\<exists>template key der t now. mirrors existing template \<and> NotAfter template = env_now E now + certValidity \<and>
    env_create_cert E t template caCert (PublicKey key) caKey = Inr der \<and>
    certPEM = EncodeCertPEM E der \<and> keyPEM = EncodeKeyPEM E key"
proof -
  from assms obtain key s1 template s2 der where b: "BuildTemplate E existing s1 = (Ok template, s2)" and
    "env_create_cert E (w_tick s2) template caCert (PublicKey key) caKey = Inr der"
    "certPEM = EncodeCertPEM E der" "keyPEM = EncodeKeyPEM E key"
    unfolding SignWithSelfKey_def Sign_def the_generator_def by (auto simp: ok_iff tick_def)
  then show ?thesis using BuildTemplate_okD(1,11) [OF b] by blast
qed

lemma renew_cert_okD:
  assumes run: "renew_cert E spec c s = (Ok u, s')" and due: "ci_Status c \<noteq> StatusOK"
  obtains cp kp where "(ci_Name c, cp, kp) \<in> set CertPaths" and "renewed E spec c s s'"
    and "\<And>q n. q \<noteq> pki_path (PKIDir spec) cp \<Longrightarrow> q \<noteq> pki_path (PKIDir spec) kp \<Longrightarrow>
      fs_get (w_fs s) q = Some n \<Longrightarrow> fs_get (w_fs s') q = Some n"
    and "touches {pki_path (PKIDir spec) cp, pki_path (PKIDir spec) kp} s s'"
proof -
  from run due obtain existing s1 caCert s2 caKey s3 certPEM keyPEM s4 cp kp where
    l: "LoadExistingCert E (ci_Path c) s = (Ok existing, s1)"
    and ca: "LoadCACert E (fst (CAForCert (ci_Name c))) s1 = (Ok caCert, s2)"
    and k: "LoadCAKey E (snd (CAForCert (ci_Name c))) s2 = (Ok caKey, s3)"
    and sign: "SignWithSelfKey E existing caCert caKey (the_generator E) s3 = (Ok (certPEM, keyPEM), s4)"
    and paths: "map_of CertPaths (ci_Name c) = Some (cp, kp)"
    and wr: "WriteCertKeyPair E (writer_New (PKIDir spec) False) cp kp certPEM keyPEM s4 = (Ok u, s')"
    unfolding renew_cert_def by (auto simp: ok_iff split: prod.splits)
  have cpkp: "(ci_Name c, cp, kp) \<in> set CertPaths" using paths by (simp add: map_of_CertPaths)
  note rel = CertPaths_plain [OF cpkp]
  have "w_fs s4 = w_fs s3" using keepsD [OF look.keeps_SignWithSelfKey sign] by (simp add: quiet_def)
  moreover have "w_fs s3 = w_fs s2" using keepsD [OF look.keeps_LoadCAKey k] by (simp add: quiet_def)
  moreover have "w_fs s2 = w_fs s1" using LoadExistingCert_okD(2) ca by (simp add: LoadCACert_def)
  ultimately have fs: "w_fs s4 = w_fs s" using LoadExistingCert_okD(2) [OF l] by simp
  from rel have rel: "plain_rel cp" "plain_rel kp" "cp \<noteq> kp" by simp_all
  note ok = pair_okD [OF wr rel]
  have "stored_pair (PKIDir spec) (ci_Name c) s' = Some (certPEM, keyPEM)"
    using ok(1,2) paths by (simp add: stored_pair_def)
  then have "renewed E spec c s s'"
    using LoadExistingCert_okD(1) [OF l] sign_okD [OF sign] unfolding renewed_def by metis
  moreover have "touches {pki_path (PKIDir spec) cp, pki_path (PKIDir spec) kp} s s'"
  proof -
    let ?A = "{pki_path (PKIDir spec) cp, pki_path (PKIDir spec) kp}"
    have "keeps (touches ?A) (WriteCertKeyPair E (writer_New (PKIDir spec) False) cp kp certPEM keyPEM)"
      unfolding WriteCertKeyPair_def WriteCert_def WriteKey_def Let_def writer_New_def using rel
      by (intro touch_frame.keeps_seqE touch_frame.keeps_if touch_frame.keeps_wrapE MkdirAll_touches WriteFile_touches
          touch_frame.keeps_ret) (simp_all add: resolve_pki)
    from keepsD [OF this wr] show ?thesis using fs by (simp add: touches_def)
  qed
  ultimately show ?thesis using that [OF cpkp] ok(3) fs by simp
qed

section \<open>All certificates that are due\<close>

text \<open>Where the detector reads a certificate is where the writer puts it.\<close>

definition in_place :: "config_spec \<Rightarrow> cert_info \<Rightarrow> bool" where
  "in_place spec c \<longleftrightarrow> (\<forall>cp kp. map_of CertPaths (ci_Name c) = Some (cp, kp) \<longrightarrow> resolve (ci_Path c) = pki_path (PKIDir spec) cp)"

lemma in_placeD: "in_place spec c \<Longrightarrow> (ci_Name c, cp, kp) \<in> set CertPaths \<Longrightarrow> resolve (ci_Path c) = pki_path (PKIDir spec) cp"
  by (simp add: in_place_def map_of_CertPaths [THEN iffD2])

lemma stored_pair_kept:
  assumes "touches {pki_path dir cp, pki_path dir kp} s s'" and "(n, cp, kp) \<in> set CertPaths" and "n' \<noteq> n"
  shows "stored_pair dir n' s' = stored_pair dir n' s"
proof (cases "map_of CertPaths n'")
  case (Some ck)
  obtain c k where ck: "(n', c, k) \<in> set CertPaths" "ck = (c, k)" using Some by (cases ck) (auto simp: map_of_CertPaths)
  have *: "pki_path dir c \<notin> {pki_path dir cp, pki_path dir kp}" "pki_path dir k \<notin> {pki_path dir cp, pki_path dir kp}"
    using CertPaths_disjoint [OF ck(1) assms(2,3)] by simp_all
  have "fs_get (w_fs s') q = Some (Reg d m) \<longleftrightarrow> fs_get (w_fs s) q = Some (Reg d m)"
    if "q \<in> {pki_path dir c, pki_path dir k}" for q d m
    using touches_reg_iff [OF assms(1)] * that by blast
  note iff = this [of "pki_path dir c", simplified] this [of "pki_path dir k", simplified]
  have "stored_pair dir n' v = Some (x, y) \<longleftrightarrow>
      (\<exists>m m'. fs_get (w_fs v) (pki_path dir c) = Some (Reg x m) \<and> fs_get (w_fs v) (pki_path dir k) = Some (Reg y m'))" for v x y
    using Some ck(2) by (auto simp: stored_pair_def split: option.splits fnode.splits)
  then have "stored_pair dir n' s' = Some p \<longleftrightarrow> stored_pair dir n' s = Some p" for p
    using iff by (cases p) simp
  then show ?thesis by (metis not_None_eq)
qed (simp add: stored_pair_def)

text \<open>A step for one certificate leaves the pairs of the other names alone.\<close>

lemma renew_cert_others:
  assumes "renew_cert E spec x s = (Ok u, t)" and "n \<noteq> ci_Name x"
  shows "stored_pair (PKIDir spec) n t = stored_pair (PKIDir spec) n s"
    and "(n, cp, kp) \<in> set CertPaths \<Longrightarrow>
      fs_get (w_fs t) (pki_path (PKIDir spec) cp) = Some (Reg d m) \<longleftrightarrow> fs_get (w_fs s) (pki_path (PKIDir spec) cp) = Some (Reg d m)"
proof -
  have "stored_pair (PKIDir spec) n t = stored_pair (PKIDir spec) n s \<and> ((n, cp, kp) \<in> set CertPaths \<longrightarrow>
      (fs_get (w_fs t) (pki_path (PKIDir spec) cp) = Some (Reg d m) \<longleftrightarrow> fs_get (w_fs s) (pki_path (PKIDir spec) cp) = Some (Reg d m)))"
  proof (cases "ci_Status x = StatusOK")
    case True
    then show ?thesis using assms(1) by (simp add: renew_cert_def)
  next
    case False
    from renew_cert_okD [OF assms(1) False] obtain c k where ck: "(ci_Name x, c, k) \<in> set CertPaths"
      and t: "touches {pki_path (PKIDir spec) c, pki_path (PKIDir spec) k} s t" by metis
    have "pki_path (PKIDir spec) cp \<notin> {pki_path (PKIDir spec) c, pki_path (PKIDir spec) k}" if "(n, cp, kp) \<in> set CertPaths"
      using CertPaths_disjoint [OF that ck assms(2)] by simp
    then show ?thesis using stored_pair_kept [OF t ck assms(2)] touches_reg_iff [OF t] by blast
  qed
  then show "stored_pair (PKIDir spec) n t = stored_pair (PKIDir spec) n s"
    and "(n, cp, kp) \<in> set CertPaths \<Longrightarrow>
      fs_get (w_fs t) (pki_path (PKIDir spec) cp) = Some (Reg d m) \<longleftrightarrow> fs_get (w_fs s) (pki_path (PKIDir spec) cp) = Some (Reg d m)"
    by simp_all
qed

lemma renew_loop_others:
  assumes "for_each (renew_cert E spec) cs s = (Ok u, s')" and "n \<notin> ci_Name ` set cs"
  shows "stored_pair (PKIDir spec) n s' = stored_pair (PKIDir spec) n s"
  using assms
proof (induction cs arbitrary: s)
  case (Cons x xs)
  then obtain t where x: "renew_cert E spec x s = (Ok (), t)" and rest: "for_each (renew_cert E spec) xs t = (Ok u, s')"
    by (auto simp: ok_iff)
  then show ?case using Cons.IH [OF rest] renew_cert_others(1) [OF x] Cons.prems(2) by simp
qed (simp add: ok_iff)

lemma renewed_cong:
  assumes "renewed E spec c s s'" and "stored_pair (PKIDir spec) (ci_Name c) v' = stored_pair (PKIDir spec) (ci_Name c) s'"
    and "\<And>d m. fs_get (w_fs s) (resolve (ci_Path c)) = Some (Reg d m) \<Longrightarrow> fs_get (w_fs v) (resolve (ci_Path c)) = Some (Reg d m)"
  shows "renewed E spec c v v'"
  using assms unfolding renewed_def by metis

lemma renewed_known: "renewed E spec c s s' \<Longrightarrow> \<exists>cp kp. (ci_Name c, cp, kp) \<in> set CertPaths"
  by (auto simp: renewed_def stored_pair_def map_of_CertPaths split: option.splits prod.splits)

lemma renew_loop:
  assumes "for_each (renew_cert E spec) cs s = (Ok u, s')" and "distinct (map ci_Name cs)" and "\<forall>c\<in>set cs. in_place spec c"
    and "c \<in> set cs" and "ci_Status c \<noteq> StatusOK"
  shows "renewed E spec c s s'"
  using assms
proof (induction cs arbitrary: s)
  case (Cons x xs)
  from Cons.prems(1) obtain t where x: "renew_cert E spec x s = (Ok (), t)" and rest: "for_each (renew_cert E spec) xs t = (Ok u, s')"
    by (auto simp: ok_iff)
  show ?case
  proof (cases "c = x")
    case True
    with Cons.prems(5) have "renewed E spec c s t" using renew_cert_okD [OF x] by metis
    moreover have "stored_pair (PKIDir spec) (ci_Name c) s' = stored_pair (PKIDir spec) (ci_Name c) t"
      by (rule renew_loop_others [OF rest]) (use Cons.prems(2) True in simp)
    ultimately show ?thesis by (rule renewed_cong) simp
  next
    case False
    then have c: "c \<in> set xs" "ci_Name c \<noteq> ci_Name x" using Cons.prems(2,4) by (auto intro: rev_image_eqI)
    have r: "renewed E spec c t s'" by (rule Cons.IH [OF rest]) (use Cons.prems c in simp_all)
    then obtain cp kp where ck: "(ci_Name c, cp, kp) \<in> set CertPaths" using renewed_known by blast
    then have "resolve (ci_Path c) = pki_path (PKIDir spec) cp"
      using Cons.prems(3,4) in_placeD by blast
    then show ?thesis
      by (intro renewed_cong [OF r refl]) (simp add: renew_cert_others(2) [OF x c(2) ck])
  qed
qed simp

section \<open>The whole renewal\<close>

text \<open>The manifests lie apart from the certificates and keys of the table: their names end in another letter.\<close>

lemma CertPaths_last: "(n, c, k) \<in> set CertPaths \<Longrightarrow> last (last (split_slash c)) = CHR ''t'' \<and> last (last (split_slash k)) = CHR ''y''"
  by (auto simp: CertPaths_def)

lemma manifest_last: "p \<in> manifest_files m \<Longrightarrow> last (last (snd p)) = CHR ''l''"
proof -
  have plain: "\<forall>name\<in>set restartOrder. plain_rel (name @ ''.yaml'') \<and> plain_rel (name @ ''.yml'') \<and>
      last (last (split_slash (name @ ''.yaml''))) = CHR ''l'' \<and> last (last (split_slash (name @ ''.yml''))) = CHR ''l''"
    by code_simp
  assume "p \<in> manifest_files m"
  then obtain name where n: "name \<in> set restartOrder"
    and p: "p = resolve (filepath_Join [manifestDir m, name @ ''.yaml'']) \<or> p = resolve (filepath_Join [manifestDir m, name @ ''.yml''])"
    by (auto simp: manifest_files_def manifest_paths_def)
  with plain have "p = pki_path (manifestDir m) (name @ ''.yaml'') \<or> p = pki_path (manifestDir m) (name @ ''.yml'')"
    by (simp add: resolve_pki)
  then show ?thesis using plain n by (auto simp: pki_path_def below_def)
qed

lemma table_apart_from_manifests:
  assumes "(n, c, k) \<in> set CertPaths"
  shows "pki_path dir c \<notin> manifest_files m" and "pki_path dir k \<notin> manifest_files m"
proof -
  have "last (last (snd (pki_path dir r))) = last (last (split_slash r))" for r by (simp add: pki_path_def below_def)
  then show "pki_path dir c \<notin> manifest_files m" "pki_path dir k \<notin> manifest_files m"
    using CertPaths_last [OF assms] manifest_last [of _ m] by fastforce+
qed

lemma stored_pair_touches:
  assumes "touches A s s'" and "\<And>cp kp. (n, cp, kp) \<in> set CertPaths \<Longrightarrow> pki_path dir cp \<notin> A \<and> pki_path dir kp \<notin> A"
    and "stored_pair dir n s = Some p"
  shows "stored_pair dir n s' = Some p"
proof -
  from assms(3) obtain cp kp x y m m' where ck: "map_of CertPaths n = Some (cp, kp)" and
    "fs_get (w_fs s) (pki_path dir cp) = Some (Reg x m)" "fs_get (w_fs s) (pki_path dir kp) = Some (Reg y m')" and p: "p = (x, y)"
    by (auto simp: stored_pair_def split: option.splits fnode.splits)
  moreover have "pki_path dir cp \<notin> A" "pki_path dir kp \<notin> A" using assms(2) ck by (simp_all add: map_of_CertPaths)
  ultimately have "fs_get (w_fs s') (pki_path dir cp) = Some (Reg x m)" "fs_get (w_fs s') (pki_path dir kp) = Some (Reg y m')"
    using touches_keeps [OF assms(1)] by blast+
  then show ?thesis using ck p by (simp add: stored_pair_def)
qed

lemma patch_with_fs: "patch_with E f w = (r, w') \<Longrightarrow> w_fs w' = w_fs w"
  by (auto simp: patch_with_def Status_Patch_def api_call_def seqE_run get_cfg_def put_cfg_def tick_def Let_def
      split: option.splits)

lemma backup_sources: "(n, c, k) \<in> set CertPaths \<Longrightarrow> pki_path (PKIDir spec) c \<in> source_paths (spec_backup_manager spec)"
proof -
  assume ck: "(n, c, k) \<in> set CertPaths"
  then have "c \<in> set pkiFiles" by (auto simp: CertPaths_def pkiFiles_def)
  then show ?thesis by (auto simp: source_paths_def spec_backup_manager_def backup_New_def)
qed

text \<open>The files of a renewal, step by step.\<close>

lemma runRenewal_okD:
  assumes "runRenewal E me spec det w = (Ok u, w')" and "\<not> DryRun spec"
  obtains s t where "touches (backup_paths (filepath_Join [BackupDir spec, me, backup_stamp (env_now E (w_tick w))])) w s"
    and "for_each (renew_cert E spec) (dr_Certs det) s = (Ok (), t)"
    and "touches (manifest_files (podrestart_New (ManifestsDir spec) False)) t w'"
proof -
  let ?bp = "filepath_Join [BackupDir spec, me, backup_stamp (env_now E (w_tick w))]"
    and ?M = "manifest_files (podrestart_New (ManifestsDir spec) False)"
  from assms obtain b s0 s t t' where
    b: "backup_Create E (spec_backup_manager spec) me w = (Ok b, s0)"
    and p: "setNodeBackupPath E me (BackupPath b) s0 = (Ok (), s)"
    and l: "for_each (renew_cert E spec) (dr_Certs det) s = (Ok (), t)"
    and r: "RestartAll E (podrestart_New (ManifestsDir spec) False) t = (Ok (), t')"
    and h: "CheckAllWithRetry E (healthcheck_New me (health_timeout spec) False) (HealthCheckMaxAttempts spec) (15 * ns_second) t' = (Ok u, w')"
    by (auto simp: runRenewal_def ok_iff)
  have "create_at E (spec_backup_manager spec) me ?bp (w\<lparr>w_tick := Suc (w_tick w)\<rparr>) = (Ok b, s0)"
    using b by (simp add: backup_Create_def seqE_run time_now_run spec_backup_manager_def backup_New_def)
  from keepsD [OF create_at_touches this] have "touches (backup_paths ?bp) w s0" by (simp add: touches_def)
  moreover have "w_fs s = w_fs s0" using p unfolding setNodeBackupPath_def by (rule patch_with_fs)
  ultimately have "touches (backup_paths ?bp) w s" by (simp add: touches_def)
  moreover have "touches ?M t w'"
    using keepsD [OF RestartAll_touches r] keepsD [OF touch_frame.keeps_CheckAllWithRetry [OF emit_touches emit_touches sleep_touches] h]
    by (rule touch_frame.kept_trans)
  ultimately show ?thesis using that l by blast
qed

text \<open>
  What a renewal that returns nil has done: for every certificate that was due, the node has a new key
  and the CA's signature over that key and a template that mirrors the certificate that was on
  disk before, valid for a year from a reading of the clock; the restarts and the health check after
  the loop, and the renewal of the other certificates, leave the pair alone.
\<close>

lemma renewal_installs:
  assumes "runRenewal E me spec det w = (Ok u, w')" and "\<not> DryRun spec"
    and "distinct (map ci_Name (dr_Certs det))" and "\<forall>c\<in>set (dr_Certs det). in_place spec c"
    and "separate (spec_backup_manager spec) (filepath_Join [BackupDir spec, me, backup_stamp (env_now E (w_tick w))])"
    and "c \<in> set (dr_Certs det)" and "ci_Status c \<noteq> StatusOK"
  shows "renewed E spec c w w'"
proof -
  let ?bp = "filepath_Join [BackupDir spec, me, backup_stamp (env_now E (w_tick w))]"
  from runRenewal_okD [OF assms(1,2)] obtain s t where b: "touches (backup_paths ?bp) w s"
    and l: "for_each (renew_cert E spec) (dr_Certs det) s = (Ok (), t)"
    and m: "touches (manifest_files (podrestart_New (ManifestsDir spec) False)) t w'" by blast
  have r: "renewed E spec c s t" by (rule renew_loop [OF l assms(3,4,6,7)])
  then obtain cp kp where ck: "(ci_Name c, cp, kp) \<in> set CertPaths" using renewed_known by blast
  have p: "resolve (ci_Path c) = pki_path (PKIDir spec) cp" using assms(4,6) ck in_placeD by blast
  have "pki_path (PKIDir spec) cp \<notin> backup_paths ?bp" using backup_sources [OF ck] assms(5) by (auto simp: separate_def)
  then have old: "fs_get (w_fs w) (resolve (ci_Path c)) = Some (Reg d md)" if "fs_get (w_fs s) (resolve (ci_Path c)) = Some (Reg d md)" for d md
    using that touches_reg_iff [OF b] unfolding p by blast
  obtain q where q: "stored_pair (PKIDir spec) (ci_Name c) t = Some q" using r unfolding renewed_def by blast
  have "stored_pair (PKIDir spec) (ci_Name c) w' = stored_pair (PKIDir spec) (ci_Name c) t"
    using stored_pair_touches [OF m _ q] table_apart_from_manifests q by metis
  then show ?thesis using renewed_cong [OF r _ old] by blast
qed

section \<open>The next detection\<close>

text \<open>What the report of a PKI certificate says, and where it comes from.\<close>

definition reported :: "env \<Rightarrow> detector \<Rightarrow> world \<Rightarrow> cert_info \<Rightarrow> bool" where
  "reported E d s c \<longleftrightarrow>
     (\<exists>rel data md cert t. (ci_Name c, rel) \<in> set certFiles \<and> ci_Path c = filepath_Join [pkiDir d, rel] \<and>
        fs_get (w_fs s) (resolve (ci_Path c)) = Some (Reg data md) \<and> reads E data cert \<and>
        ci_Status c = classify d (residual_days (NotAfter cert) (env_now E t)))"

lemma reported_cong: "w_fs t = w_fs s \<Longrightarrow> reported E d t c \<longleftrightarrow> reported E d s c"
  by (simp add: reported_def)

lemma detect_pki_okD:
  assumes "detect_pki E d certs (name, rel) s = (Ok certs', s')" and "(name, rel) \<in> set certFiles"
  shows "w_fs s' = w_fs s" and "\<exists>c. certs' = certs @ [c] \<and> ci_Name c = name \<and> reported E d s c"
proof -
  let ?p = "filepath_Join [pkiDir d, rel]"
  from assms(1) obtain data v info where r: "os_ReadFile E ?p s = (Ok data, v)" and p: "parsePEMCert E name ?p data v = (Ok info, s')"
    and c: "certs' = certs @ [classified d info]"
    by (auto simp: detect_pki_def parseCert_def Let_def ok_iff)
  from p obtain cert t where cert: "reads E data cert" "info = \<lparr>ci_Name = name, ci_Path = ?p, ci_Expiry = NotAfter cert,
      ci_ResidualDays = residual_days (NotAfter cert) (env_now E t), ci_Status = StatusUnset,
      ci_Subject = CommonName (Subject cert), ci_DNSNames = DNSNames cert, ci_IPAddresses = IPAddresses cert\<rparr>"
    and s': "w_fs s' = w_fs v"
    by (auto simp: parsePEMCert_def reads_def ok_iff time_now_def tick_def)
  from ReadFile_okD [OF r] s' show "w_fs s' = w_fs s" by simp
  from ReadFile_okD [OF r] obtain md where "fs_get (w_fs s) (resolve ?p) = Some (Reg data md)" by blast
  then have "reported E d s (classified d info)"
    using cert assms(2) unfolding reported_def classified_def by auto
  then show "\<exists>c. certs' = certs @ [c] \<and> ci_Name c = name \<and> reported E d s c"
    using c cert(2) by (auto simp: classified_def)
qed

lemma detect_kubeconfig_okD:
  assumes "detect_kubeconfig E d certs (name, f) s = (Ok certs', s')"
  shows "certs' = certs \<or> (\<exists>c. certs' = certs @ [c] \<and> ci_Name c = name)"
  using assms
  by (auto simp: detect_kubeconfig_def parseKubeconfigCert_def Let_def ok_iff classified_def split: option.splits if_splits)

lemma names_apart: "(name, rel) \<in> set certFiles \<Longrightarrow> (name, f) \<notin> set kubeconfigCerts"
  by (auto simp: certFiles_def kubeconfigCerts_def)

lemma Detect_reported:
  assumes "Detect E d me s = (Ok det, s')"
  shows "distinct (map ci_Name (dr_Certs det))"
    and "c \<in> set (dr_Certs det) \<Longrightarrow> reported E d s c \<or> ci_Name c \<in> fst ` set kubeconfigCerts"
proof -
  from assms obtain pki s1 certs s2 kube s3 s4 where
    pki: "map_range E certFiles s = (Ok pki, s1)" and one: "fold_go (detect_pki E d) [] pki s1 = (Ok certs, s2)"
    and kube: "map_range E kubeconfigCerts s2 = (Ok kube, s3)" and two: "fold_go (detect_kubeconfig E d) certs kube s3 = (Ok (dr_Certs det), s4)"
    by (auto simp: Detect_def ok_iff)
  have pki': "set pki = set certFiles" "distinct pki" "w_fs s1 = w_fs s"
    using pki by (auto simp: map_range_def seqE_run tick_def) (simp add: certFiles_def)
  have kube': "set kube = set kubeconfigCerts" "distinct kube"
    using kube by (auto simp: map_range_def seqE_run tick_def) (simp add: kubeconfigCerts_def)
  have names: "distinct (map fst certFiles)" "distinct (map fst kubeconfigCerts)" by (simp_all add: certFiles_def kubeconfigCerts_def)
  have dpki: "distinct (map fst pki)" and dkube: "distinct (map fst kube)"
    using names pki' kube' unfolding distinct_map by simp_all
  let ?P = "\<lambda>ys cs v. w_fs v = w_fs s \<and> map ci_Name cs = map fst ys \<and> (\<forall>c\<in>set cs. reported E d s c)"
  have P: "?P pki certs s2"
  proof (rule fold_go_okD [OF one, of ?P])
    fix ys x zs a t a' t'
    assume split: "pki = ys @ x # zs" and a: "?P ys a t" and x: "detect_pki E d a x t = (Ok a', t')"
    obtain name rel where nr: "x = (name, rel)" by (cases x)
    have "(name, rel) \<in> set certFiles" using split nr pki'(1) by auto
    from detect_pki_okD [OF x [unfolded nr] this] obtain c where "a' = a @ [c]" "ci_Name c = name" "reported E d t c"
      and "w_fs t' = w_fs t" by blast
    then show "?P (ys @ [x]) a' t'" using a nr reported_cong [of t s] by simp
  qed (simp add: pki'(3))
  let ?K = "\<lambda>ys cs (_ :: world). distinct (map ci_Name cs) \<and> ci_Name ` set cs \<subseteq> fst ` set pki \<union> fst ` set ys \<and>
    (\<forall>c\<in>set cs. reported E d s c \<or> ci_Name c \<in> fst ` set kubeconfigCerts)"
  have "?K kube (dr_Certs det) s4"
  proof (rule fold_go_okD [OF two, of ?K])
    have "ci_Name ` set certs = fst ` set pki" using P by (metis list.set_map)
    moreover have "distinct (map ci_Name certs)" using P dpki by simp
    ultimately show "?K [] certs s3" using P by simp
  next
    fix ys x zs a t a' t'
    assume split: "kube = ys @ x # zs" and a: "?K ys a t" and x: "detect_kubeconfig E d a x t = (Ok a', t')"
    obtain name f where nf: "x = (name, f)" by (cases x)
    have k: "(name, f) \<in> set kubeconfigCerts" using split nf kube'(1) by auto
    then have "name \<notin> fst ` set pki" using names_apart pki'(1) by fastforce
    moreover have "name \<notin> fst ` set ys" using dkube split nf by auto
    ultimately have "name \<notin> ci_Name ` set a" using a by blast
    moreover have "a' = a \<or> (\<exists>c. a' = a @ [c] \<and> ci_Name c = name)" by (rule detect_kubeconfig_okD [OF x [unfolded nf]])
    ultimately show "?K (ys @ [x]) a' t'"
    proof (elim disjE exE conjE)
      fix c assume c: "a' = a @ [c]" "ci_Name c = name" and new: "name \<notin> ci_Name ` set a"
      have "ci_Name c \<in> fst ` set kubeconfigCerts" using k c(2) image_iff by fastforce
      then show ?thesis using a c new nf by simp blast
    qed (use a in auto)
  qed
  then show "distinct (map ci_Name (dr_Certs det))"
    and "c \<in> set (dr_Certs det) \<Longrightarrow> reported E d s c \<or> ci_Name c \<in> fst ` set kubeconfigCerts" by auto
qed

text \<open>The detector's table agrees with the writer's.\<close>

lemma tables_agree: "(name, rel) \<in> set certFiles \<Longrightarrow> map_of CertPaths name = Some (cp, kp) \<Longrightarrow> rel = cp"
  by (auto simp: certFiles_def CertPaths_def split: if_splits)

lemma reported_in_place:
  assumes "reported E (detector_New (PKIDir spec) kdir th) s c" shows "in_place spec c"
  unfolding in_place_def
proof (intro allI impI)
  fix cp kp assume ck: "map_of CertPaths (ci_Name c) = Some (cp, kp)"
  from assms tables_agree [OF _ ck] have "ci_Path c = filepath_Join [PKIDir spec, cp]"
    by (auto simp: reported_def detector_New_def)
  moreover have "plain_rel cp" using CertPaths_plain ck by (auto simp: map_of_CertPaths)
  ultimately show "resolve (ci_Path c) = pki_path (PKIDir spec) cp" by (simp add: resolve_pki)
qed

lemma Detect_in_place:
  assumes "Detect E (detector_New (PKIDir spec) kdir th) me s = (Ok det, s')"
  shows "\<forall>c\<in>set (dr_Certs det). in_place spec c"
proof
  fix c assume "c \<in> set (dr_Certs det)"
  from Detect_reported(2) [OF assms this] show "in_place spec c"
  proof
    assume "ci_Name c \<in> fst ` set kubeconfigCerts"
    then have "map_of CertPaths (ci_Name c) = None" using kubeconfig_names_unplaced by blast
    then show ?thesis by (simp add: in_place_def)
  qed (rule reported_in_place)
qed

text \<open>
  What is relied on of PEM and of \<^verbatim>\<open>x509.CreateCertificate\<close>: a block that was encoded is decoded, and a
  certificate that was created parses, with the template's end of validity in whole seconds.
\<close>

definition pem_contract :: "env \<Rightarrow> bool" where
  "pem_contract E \<longleftrightarrow> (\<forall>ty bytes. env_pem_decode E (env_pem_encode E ty bytes) = Some (ty, bytes))"

definition x509_contract :: "env \<Rightarrow> bool" where
  "x509_contract E \<longleftrightarrow> (\<forall>t template ca pub key der. env_create_cert E t template ca pub key = Inr der \<longrightarrow>
     (\<exists>cert. env_parse_cert E der = Inr cert \<and> NotAfter cert = NotAfter template div ns_second * ns_second))"

lemma fresh_is_ok:
  assumes "NotAfter cert = (issued + certValidity) div ns_second * ns_second"
    and "0 \<le> thresholdDays d" and "thresholdDays d \<le> 63" and "now \<le> issued + 300 * ns_day"
  shows "classify d (residual_days (NotAfter cert) now) = StatusOK"
proof -
  have "x - 1000000000 < x div 1000000000 * 1000000000" for x :: int by simp
  from this [of "issued + certValidity"] have "issued + certValidity - 1000000000 < NotAfter cert"
    using assms(1) by (simp add: ns_second_def)
  then have "64 * ns_day \<le> NotAfter cert - now" using assms(4) by (simp add: certValidity_def ns_day_def)
  then have "\<not> residual_days (NotAfter cert) now \<le> q" if "0 \<le> q" "q \<le> 63" for q
    using residual_days_le_iff [OF that, of "NotAfter cert" now] that by (simp add: ns_day_def)
  from this [of 0] this [OF assms(2,3)] show ?thesis by (simp add: classify_def)
qed

lemma renewed_reads:
  assumes "renewed E spec c0 s s'" and "pem_contract E" and "x509_contract E"
    and "(ci_Name c0, cp, kp) \<in> set CertPaths" and "fs_get (w_fs s') (pki_path (PKIDir spec) cp) = Some (Reg data md)" and "reads E data cert"
  shows "\<exists>now. NotAfter cert = (env_now E now + certValidity) div ns_second * ns_second"
proof -
  from assms(1) obtain template key der t ca cakey now where
    der: "env_create_cert E t template ca (PublicKey key) cakey = Inr der" and na: "NotAfter template = env_now E now + certValidity"
    and st: "stored_pair (PKIDir spec) (ci_Name c0) s' = Some (EncodeCertPEM E der, EncodeKeyPEM E key)"
    unfolding renewed_def by blast
  from st assms(4,5) have "data = EncodeCertPEM E der"
    by (auto simp: stored_pair_def map_of_CertPaths [THEN iffD2] split: option.splits fnode.splits)
  with assms(2,6) have "env_parse_cert E der = Inr cert" by (auto simp: reads_def EncodeCertPEM_def pem_contract_def)
  with assms(3) der na show ?thesis unfolding x509_contract_def by fastforce
qed

text \<open>
  C4. A renewal ends the need for renewal. When a detection found certificates due, and the renewal on its
  result returned nil, then a later detection on the files it left reports every one of those
  certificates as OK, as long as all readings of the clock are within 300 days and the threshold is at
  most 63 days: the operator does not renew in a loop.
\<close>

theorem renewal_ends_need:
  assumes "Detect E (detector_New (PKIDir spec) (KubeconfigDir spec) (ThresholdDays spec)) me w0 = (Ok det, w1)"
    and "runRenewal E me spec det w = (Ok u, w')" and "\<not> DryRun spec"
    and "Detect E (detector_New (PKIDir spec) (KubeconfigDir spec) (ThresholdDays spec)) me v = (Ok det', v')" and "w_fs v = w_fs w'"
    and "separate (spec_backup_manager spec) (filepath_Join [BackupDir spec, me, backup_stamp (env_now E (w_tick w))])"
    and "0 \<le> ThresholdDays spec" and "ThresholdDays spec \<le> 63" and "\<forall>t t'. env_now E t' \<le> env_now E t + 300 * ns_day"
    and "pem_contract E" and "x509_contract E"
    and "c0 \<in> set (dr_Certs det)" and "ci_Status c0 \<noteq> StatusOK" and "c \<in> set (dr_Certs det')" and "ci_Name c = ci_Name c0"
  shows "ci_Status c = StatusOK"
proof -
  have r: "renewed E spec c0 w w'"
    by (rule renewal_installs [OF assms(2,3) Detect_reported(1) [OF assms(1)] Detect_in_place [OF assms(1)] assms(6,12,13)])
  then obtain cp kp where ck: "(ci_Name c0, cp, kp) \<in> set CertPaths" using renewed_known by blast
  then have "ci_Name c \<notin> fst ` set kubeconfigCerts" using kubeconfig_names_unplaced assms(15) by (force simp: map_of_CertPaths [symmetric])
  then have rep: "reported E (detector_New (PKIDir spec) (KubeconfigDir spec) (ThresholdDays spec)) v c"
    using Detect_reported(2) [OF assms(4,14)] by blast
  from reported_in_place [OF rep] have path: "resolve (ci_Path c) = pki_path (PKIDir spec) cp"
    using ck assms(15) in_placeD by metis
  from rep obtain data md cert t where "fs_get (w_fs v) (resolve (ci_Path c)) = Some (Reg data md)" and rd: "reads E data cert"
    and st: "ci_Status c = classify (detector_New (PKIDir spec) (KubeconfigDir spec) (ThresholdDays spec))
      (residual_days (NotAfter cert) (env_now E t))" unfolding reported_def by blast
  then have "fs_get (w_fs w') (pki_path (PKIDir spec) cp) = Some (Reg data md)" using path assms(5) by simp
  from renewed_reads [OF r assms(10,11) ck this rd] obtain now where
    "NotAfter cert = (env_now E now + certValidity) div ns_second * ns_second" by blast
  then show ?thesis unfolding st using assms(7,8,9) by (intro fresh_is_ok [where issued = "env_now E now"]) (simp_all add: detector_New_def)
qed

end
