(* ===== verification/Progress.thy ===== *)
theory Progress
  imports Backup
begin

text \<open>
  Calls that cannot fail: what the file operations need to return nil when no system call fails, and that
  \<^verbatim>\<open>Create\<close> then returns nil on a node whose files and backup directory are in order.
\<close>

section \<open>Places to write to\<close>

text \<open>The directories on the way to a file, and a file that can be written once they are made.\<close>

definition dirs_above :: "fpath \<Rightarrow> fpath set" where
  "dirs_above p = set (butlast (ancestors p))"

definition writable :: "(fpath, fnode) fmap \<Rightarrow> fpath \<Rightarrow> bool" where
  "writable fs p \<longleftrightarrow> \<not> is_dir (fs_get fs p) \<and> (\<forall>q\<in>dirs_above p. \<not> is_reg (fs_get fs q))"

lemma dirs_above_list: "butlast (ancestors p) = map (\<lambda>k. (fst p, take k (snd p))) [1..<length (snd p)]"
  by (cases "snd p") (simp_all add: ancestors_def map_butlast [symmetric] upt_Suc)

lemma in_above_iff: "q \<in> dirs_above p \<longleftrightarrow> (\<exists>k. 0 < k \<and> k < length (snd p) \<and> q = (fst p, take k (snd p)))"
  by (auto simp: dirs_above_def dirs_above_list image_iff Suc_le_eq)

lemma ancestors_parent: "set (ancestors (parent p)) = dirs_above p"
proof -
  have "Suc (length (butlast (snd p))) = max 1 (length (snd p))" by (cases "snd p") simp_all
  then have "ancestors (parent p) = map (\<lambda>k. (fst p, take k (snd p))) [1..<length (snd p)]"
    by (auto simp: ancestors_def parent_def take_butlast max_def)
  then show ?thesis by (simp only: dirs_above_def dirs_above_list)
qed

lemma mkdir_one_live:
  "no_faults E \<Longrightarrow> \<not> is_reg (fs_get (w_fs t) q) \<Longrightarrow> \<exists>t'. mkdir_one E perm q t = (Ok (), t')"
  by (cases "fs_get (w_fs t) q" rule: is_reg.cases)
     (auto simp: mkdir_one_def go_run get_fs_def put_fs_def emit_def syscall_nf split: fnode.splits)

lemma MkdirAll_live:
  assumes "no_faults E" and "\<forall>q\<in>set (ancestors (resolve path)). \<not> is_reg (fs_get (w_fs t) q)"
  shows "\<exists>t'. os_MkdirAll E path perm t = (Ok (), t') \<and> changes_only (set (ancestors (resolve path))) t t' \<and>
    touches {} t t' \<and> is_dir (fs_get (w_fs t') (resolve path))"
proof -
  have "\<exists>t'. for_each (mkdir_one E perm) (ancestors (resolve path)) t = (Ok (), t') \<and> touches {} t t'"
  proof (rule for_each_ok_total)
    fix q v assume q: "q \<in> set (ancestors (resolve path))" and v: "touches {} t v"
    have "\<not> is_reg (fs_get (w_fs v) q)" using assms(2) q touches_reg_iff [OF v, of q] by (auto simp: is_reg_iff)
    then obtain v' where v': "mkdir_one E perm q v = (Ok (), v')" using mkdir_one_live [OF assms(1)] by blast
    from touch_frame.kept_trans [OF v keepsD [OF mkdir_one_touches v']] v'
    show "\<exists>v'. mkdir_one E perm q v = (Ok (), v') \<and> touches {} t v'" by blast
  qed (rule touch_frame.kept_refl)
  then obtain t' where run: "os_MkdirAll E path perm t = (Ok (), t')" "touches {} t t'" unfolding os_MkdirAll_def by blast
  moreover have "changes_only (set (ancestors (resolve path))) t t'"
    by (rule keepsD [OF MkdirAll_keeps_fs run(1)]) simp
  ultimately show ?thesis using MkdirAll_okD [OF run(1)] by blast
qed

section \<open>A set of places\<close>

text \<open>
  \<open>fills B s t\<close>: between \<open>s\<close> and \<open>t\<close> only files of \<open>B\<close> and directories above them have changed, and the files
  of \<open>B\<close> can still be written. No file of \<open>B\<close> may lie above another.
\<close>

definition apart_places :: "fpath set \<Rightarrow> bool" where
  "apart_places B \<longleftrightarrow> (\<forall>p\<in>B. \<forall>q\<in>B. q \<notin> dirs_above p)"

definition fills :: "fpath set \<Rightarrow> world \<Rightarrow> world \<Rightarrow> bool" where
  "fills B s t \<longleftrightarrow> changes_only (B \<union> \<Union> (dirs_above ` B)) s t \<and> (\<forall>p\<in>B. writable (w_fs t) p)"

lemma fills_refl: "\<forall>p\<in>B. writable (w_fs s) p \<Longrightarrow> fills B s s"
  by (simp add: fills_def changes_only_def)

lemma MkdirAll_fills:
  assumes "no_faults E" and "apart_places B" and "fills B s t" and "p \<in> B" and "resolve path = parent p"
  shows "\<exists>t'. os_MkdirAll E path perm t = (Ok (), t') \<and> fills B s t' \<and> is_dir (fs_get (w_fs t') (parent p)) \<and> touches {} t t'"
proof -
  have anc: "set (ancestors (resolve path)) = dirs_above p" using assms(5) ancestors_parent by simp
  have "\<forall>q\<in>set (ancestors (resolve path)). \<not> is_reg (fs_get (w_fs t) q)"
    using assms(3,4) unfolding anc by (simp add: fills_def writable_def)
  from MkdirAll_live [OF assms(1) this] obtain t' where t': "os_MkdirAll E path perm t = (Ok (), t')"
    and c: "changes_only (dirs_above p) t t'" and k: "touches {} t t'" and d: "is_dir (fs_get (w_fs t') (parent p))"
    using assms(5) unfolding anc by metis
  have "changes_only (B \<union> \<Union> (dirs_above ` B)) s t'"
    by (rule fs_frame.kept_trans [OF _ changes_only_mono [OF c]]) (use assms(3,4) in \<open>auto simp: fills_def\<close>)
  moreover have "writable (w_fs t') q" if q: "q \<in> B" for q
  proof -
    have "q \<notin> dirs_above p" using assms(2,4) q by (simp add: apart_places_def)
    then have "fs_get (w_fs t') q = fs_get (w_fs t) q" by (rule changes_onlyD [OF c])
    moreover have "is_reg (fs_get (w_fs t') r) \<Longrightarrow> is_reg (fs_get (w_fs t) r)" for r
      using touches_reg_iff [OF k, of r] by (auto simp: is_reg_iff)
    ultimately show ?thesis using assms(3) q unfolding fills_def writable_def by metis
  qed
  ultimately show ?thesis using t' d k by (auto simp: fills_def)
qed

lemma write_fills:
  assumes "apart_places B" and "fills B s t" and "p \<in> B" and "changes_only {p} t t'" and "\<not> is_dir (fs_get (w_fs t') p)"
  shows "fills B s t'"
proof -
  have "changes_only (B \<union> \<Union> (dirs_above ` B)) s t'"
    by (rule fs_frame.kept_trans [OF _ changes_only_mono [OF assms(4)]]) (use assms(2,3) in \<open>auto simp: fills_def\<close>)
  moreover have "writable (w_fs t') q" if q: "q \<in> B" for q
    using assms q unfolding fills_def writable_def apart_places_def changes_only_def by (metis singletonD)
  ultimately show ?thesis by (simp add: fills_def)
qed

text \<open>What is neither in \<open>B\<close> nor above it keeps its content, and stays writable or cleanly missing.\<close>

definition beside :: "fpath set \<Rightarrow> fpath \<Rightarrow> bool" where
  "beside B p \<longleftrightarrow> (\<forall>q\<in>B. p \<noteq> q \<and> p \<notin> dirs_above q \<and> q \<notin> dirs_above p)"

lemma fills_beside: "fills B s t \<Longrightarrow> beside B p \<Longrightarrow> fs_get (w_fs t) p = fs_get (w_fs s) p"
  unfolding fills_def beside_def by (intro changes_onlyD) auto

lemma fills_reg:
  assumes "fills B s t" and "\<forall>q\<in>B. writable (w_fs s) q" and "p \<notin> B" and "fs_get (w_fs s) p = Some (Reg d m)"
  shows "fs_get (w_fs t) p = Some (Reg d m)"
proof -
  have "p \<notin> \<Union> (dirs_above ` B)" using assms(2,4) by (fastforce simp: writable_def)
  then show ?thesis using changes_onlyD [of _ s t p] assms unfolding fills_def by (metis UnE)
qed

lemma fills_above:
  assumes "fills B s t" and "beside B p" and "\<forall>q\<in>dirs_above p. \<not> is_reg (fs_get (w_fs s) q)" and "q \<in> dirs_above p"
  shows "\<not> is_reg (fs_get (w_fs t) q)"
proof (cases "q \<in> \<Union> (dirs_above ` B)")
  case True
  then show ?thesis using assms(1) by (auto simp: fills_def writable_def)
next
  case False
  moreover have "q \<notin> B" using assms(2,4) by (auto simp: beside_def)
  ultimately have "fs_get (w_fs t) q = fs_get (w_fs s) q"
    using assms(1) changes_onlyD [of "B \<union> \<Union> (dirs_above ` B)" s t q] by (simp add: fills_def)
  then show ?thesis using assms(3,4) by simp
qed

lemma missing_errno_iff: "missing_errno fs p = ENOENT \<longleftrightarrow> (\<forall>q\<in>dirs_above p. \<not> is_reg (fs_get fs q))"
proof -
  have "is_reg (fs_get fs (fst p, take k (snd p))) \<Longrightarrow> 0 < k" for k by (cases k) simp_all
  then have "(\<exists>k\<in>set [0..<length (snd p)]. is_reg (fs_get fs (fst p, take k (snd p)))) \<longleftrightarrow> (\<exists>q\<in>dirs_above p. is_reg (fs_get fs q))"
    by (auto simp: in_above_iff Bex_def)
  then show ?thesis by (simp add: missing_errno_def)
qed

section \<open>The backup\<close>

lemma copy_or_skip_changes: "resolve dst \<in> A \<Longrightarrow> keeps (changes_only A) (copy_or_skip E what src dst)"
  unfolding copy_or_skip_def copyFile_def
  by (intro fs_frame.keeps_bindE fs_frame.keeps_seqE fs_frame.keeps_Open fs_frame.keeps_file_Mode
      open_trunc_keeps_fs fs_frame.keeps_io_Copy write_data_keeps_fs)
     (auto intro: fs_frame.keeps_ret fs_frame.keeps_fail)

lemma copy_live:
  assumes "no_faults E" and "is_reg (fs_get (w_fs t) (resolve src))" and "\<not> is_dir (fs_get (w_fs t) (resolve dst))"
    and "is_dir (fs_get (w_fs t) (parent (resolve dst)))"
  shows "\<exists>t'. copy_or_skip E what src dst t = (Ok (), t') \<and> \<not> is_dir (fs_get (w_fs t') (resolve dst))"
proof -
  obtain d m where src: "fs_get (w_fs t) (resolve src) = Some (Reg d m)" using assms(2) by (auto simp: is_reg_iff)
  let ?v = "t\<lparr>w_tick := w_tick t + 2\<rparr>"
  obtain v where v: "open_trunc E dst m ?v = (Ok (), v)"
    using assms(1,3,4) by (cases "fs_get (w_fs t) (resolve dst)" rule: is_reg.cases)
      (auto simp: open_trunc_def syscall_nf go_run get_fs_def put_fs_def emit_def Let_def split: fnode.splits)
  have dst: "\<exists>e k. fs_get (w_fs v) (resolve dst) = Some (Reg e k)" using open_trunc_okD(1) [OF v] by blast
  have "\<exists>e k. fs_get (w_fs v) (resolve src) = Some (Reg e k)"
  proof (cases "resolve src = resolve dst")
    case False
    then show ?thesis using keepsD [OF open_trunc_keeps_fs v, of "{resolve dst}"] src
      by (simp add: changes_only_def del: split_paired_All)
  qed (use dst in simp)
  then obtain e k where "fs_get (w_fs v) (resolve src) = Some (Reg e k)" by blast
  then have "copyFile E src dst t = (Ok (), v\<lparr>w_tick := Suc (w_tick v), w_fs := set_content (resolve dst) e (w_fs v)\<rparr>)"
    using assms(1) src v
    by (simp add: copyFile_def os_Open_def file_Mode_def syscall_nf go_run get_fs_def io_Copy_def write_data_def tick_def put_fs_def)
  then show ?thesis using dst by (auto simp: copy_or_skip_def go_run fs_get_set_content)
qed

text \<open>A source is there, or missing without a file on the way; it lies beside the places of the backup.\<close>

definition backup_ready :: "backup_manager \<Rightarrow> string \<Rightarrow> (fpath, fnode) fmap \<Rightarrow> bool" where
  "backup_ready m bp fs \<longleftrightarrow> (\<forall>p\<in>source_paths m. writable fs p \<and> beside (backup_paths bp) p) \<and> (\<forall>p\<in>backup_paths bp. writable fs p)"

lemma copy_fills:
  assumes "no_faults E" and "apart_places B" and "fills B s t" and "resolve dst \<in> B" and "is_dir (fs_get (w_fs t) (parent (resolve dst)))"
    and "writable (w_fs s) (resolve src)" and "beside B (resolve src)"
  shows "\<exists>t'. copy_or_skip E what src dst t = (Ok (), t') \<and> fills B s t'"
proof (cases "fs_get (w_fs t) (resolve src)")
  case None
  have "missing_errno (w_fs t) (resolve src) = ENOENT"
    using fills_above [OF assms(3,7)] assms(6) by (auto simp: missing_errno_iff writable_def)
  from copy_or_skip_missing [OF assms(1) None this, of what dst] show ?thesis using assms(3)
    by (simp add: fills_def changes_only_def)
next
  case (Some n)
  have "fs_get (w_fs t) (resolve src) = fs_get (w_fs s) (resolve src)" by (rule fills_beside [OF assms(3,7)])
  then have "\<not> is_dir (Some n)" using Some assms(6) by (simp add: writable_def)
  then have src: "is_reg (fs_get (w_fs t) (resolve src))" unfolding Some by (cases n) simp_all
  have "\<not> is_dir (fs_get (w_fs t) (resolve dst))" using assms(3,4) by (simp add: fills_def writable_def)
  from copy_live [OF assms(1) src this assms(5)] obtain t' where
    t': "copy_or_skip E what src dst t = (Ok (), t')" "\<not> is_dir (fs_get (w_fs t') (resolve dst))" by blast
  from write_fills [OF assms(2,3,4) keepsD [OF copy_or_skip_changes t'(1)] t'(2)] t'(1) show ?thesis by simp
qed

lemma places_apart:
  assumes "list_all (\<lambda>xs. list_all (\<lambda>ys. \<not> strict_prefix xs ys) L) L" and "\<And>p. p \<in> B \<Longrightarrow> \<exists>xs\<in>set L. p = below dir xs"
  shows "apart_places B"
  unfolding apart_places_def
proof (intro ballI notI)
  fix p q assume pq: "p \<in> B" "q \<in> B" and q: "q \<in> dirs_above p"
  from assms(2) pq obtain xs ys where xy: "xs \<in> set L" "ys \<in> set L" "p = below dir xs" "q = below dir ys" by metis
  from q have "strict_prefix (snd q) (snd p)" by (auto simp: in_above_iff strict_prefix_def take_is_prefix)
  then have "strict_prefix ys xs" using xy(3,4) by (simp add: below_def strict_prefix_def)
  with assms(1) xy(1,2) show False unfolding list_all_iff by blast
qed

lemma backup_places_apart: "apart_places (backup_paths bp)"
proof -
  let ?L = "map (\<lambda>rel. ''pki'' # split_slash rel) pkiFiles @ map (\<lambda>f. ''kubeconfigs'' # split_slash f) kubeconfigFiles"
  have "list_all (\<lambda>xs. list_all (\<lambda>ys. \<not> strict_prefix xs ys) ?L) ?L" by code_simp
  moreover have "p \<in> backup_paths bp \<Longrightarrow> \<exists>xs\<in>set ?L. p = below bp xs" for p
    by (auto simp: backup_paths_def pki_copy_def kube_copy_def)
  ultimately show ?thesis by (rule places_apart)
qed

lemma plain_kube: "f \<in> set kubeconfigFiles \<Longrightarrow> plain_rel f"
  using plain_kubeconfigFiles by blast

lemma pki_place:
  assumes "rel \<in> set pkiFiles"
  shows "resolve (filepath_Join [filepath_Join [bp, ''pki''], rel]) = pki_copy bp rel" and "pki_copy bp rel \<in> backup_paths bp"
    and "resolve (filepath_Dir (filepath_Join [filepath_Join [bp, ''pki''], rel])) = parent (pki_copy bp rel)"
    and "resolve (filepath_Join [bm_pkiDir m, rel]) \<in> source_paths m"
  using assms resolve_pki_copy [OF plain_pkiFiles [OF assms]] resolve_Dir_Join [OF plain_pkiFiles [OF assms]]
  by (auto simp: backup_paths_def source_paths_def pki_targets)

lemma kube_place:
  assumes "f \<in> set kubeconfigFiles"
  shows "resolve (filepath_Join [filepath_Join [bp, ''kubeconfigs''], f]) = kube_copy bp f" and "kube_copy bp f \<in> backup_paths bp"
    and "parent (kube_copy bp f) = resolve (filepath_Join [bp, ''kubeconfigs''])"
    and "resolve (filepath_Join [bm_kubeconfigDir m, f]) \<in> source_paths m"
  using assms resolve_kube_copy [OF plain_kube [OF assms]] parent_single plain_kubeconfigFiles [OF assms]
  by (auto simp: backup_paths_def source_paths_def kube_targets copies_are_paths(2) [symmetric])

text \<open>The two loops of \<^verbatim>\<open>Create\<close>, and then \<^verbatim>\<open>Create\<close>, succeed.\<close>

lemma pki_loop_live:
  assumes nf: "no_faults E" and ready: "backup_ready m bp (w_fs s)" and g: "fills (backup_paths bp) s t0" and k: "is_dir (fs_get (w_fs t0) k)"
  shows "\<exists>t. for_each (\<lambda>rel. let src = filepath_Join [bm_pkiDir m, rel]; dst = filepath_Join [filepath_Join [bp, ''pki''], rel] in
      seqE (wrapE (''creating subdir for '' @ rel) (os_MkdirAll E (filepath_Dir dst) 448)) (\<lambda>_.
      copy_or_skip E (''backing up '' @ rel) src dst)) pkiFiles t0 = (Ok (), t) \<and>
    fills (backup_paths bp) s t \<and> is_dir (fs_get (w_fs t) k)"
proof (rule for_each_ok_total)
  let ?B = "backup_paths bp"
  note ap = backup_places_apart [of bp]
  fix rel t assume rel: "rel \<in> set pkiFiles" and I: "fills ?B s t \<and> is_dir (fs_get (w_fs t) k)"
  let ?src = "filepath_Join [bm_pkiDir m, rel]" and ?dst = "filepath_Join [filepath_Join [bp, ''pki''], rel]"
  note pl = pki_place(1-3) [OF rel, where bp = bp] pki_place(4) [OF rel, where m = m]
  have src: "writable (w_fs s) (resolve ?src)" "beside ?B (resolve ?src)" using ready pl(4) by (simp_all add: backup_ready_def)
  from MkdirAll_fills [OF nf ap conjunct1 [OF I] pl(2,3)] obtain v where v: "os_MkdirAll E (filepath_Dir ?dst) 448 t = (Ok (), v)"
    "fills ?B s v" "is_dir (fs_get (w_fs v) (parent (resolve ?dst)))" "touches {} t v" unfolding pl(1) by blast
  from copy_fills [OF nf ap v(2) pl(2) [folded pl(1)] v(3) src, of "''backing up '' @ rel"] obtain t' where
    t': "copy_or_skip E (''backing up '' @ rel) ?src ?dst v = (Ok (), t')" "fills ?B s t'" by blast
  have "is_dir (fs_get (w_fs v) k)" using touches_is_dir [OF v(4)] I by blast
  from keeps_kinds_dir [OF keepsD [OF copy_or_skip_kinds t'(1)] this] v(1) t'
  show "\<exists>t'. (let src = ?src; dst = ?dst in seqE (wrapE (''creating subdir for '' @ rel) (os_MkdirAll E (filepath_Dir dst) 448)) (\<lambda>_.
      copy_or_skip E (''backing up '' @ rel) src dst)) t = (Ok (), t') \<and> fills ?B s t' \<and> is_dir (fs_get (w_fs t') k)"
    by (simp add: go_run Let_def)
qed (use g k in simp)

lemma kube_loop_live:
  assumes nf: "no_faults E" and ready: "backup_ready m bp (w_fs s)" and g: "fills (backup_paths bp) s t0"
    and k: "is_dir (fs_get (w_fs t0) (resolve (filepath_Join [bp, ''kubeconfigs''])))"
  shows "\<exists>t. for_each (\<lambda>f. let src = filepath_Join [bm_kubeconfigDir m, f]; dst = filepath_Join [filepath_Join [bp, ''kubeconfigs''], f] in
      copy_or_skip E (''backing up kubeconfig '' @ f) src dst) kubeconfigFiles t0 = (Ok (), t) \<and>
    fills (backup_paths bp) s t \<and> is_dir (fs_get (w_fs t) (resolve (filepath_Join [bp, ''kubeconfigs''])))"
proof (rule for_each_ok_total)
  let ?B = "backup_paths bp" and ?k = "resolve (filepath_Join [bp, ''kubeconfigs''])"
  fix f t assume f: "f \<in> set kubeconfigFiles" and I: "fills ?B s t \<and> is_dir (fs_get (w_fs t) ?k)"
  let ?src = "filepath_Join [bm_kubeconfigDir m, f]" and ?dst = "filepath_Join [filepath_Join [bp, ''kubeconfigs''], f]"
  note pl = kube_place(1-3) [OF f, where bp = bp] kube_place(4) [OF f, where m = m]
  have src: "writable (w_fs s) (resolve ?src)" "beside ?B (resolve ?src)" using ready pl(4) by (simp_all add: backup_ready_def)
  have d: "is_dir (fs_get (w_fs t) (parent (resolve ?dst)))" using I unfolding pl(1,3) by blast
  from copy_fills [OF nf backup_places_apart conjunct1 [OF I] pl(2) [folded pl(1)] d src, of "''backing up kubeconfig '' @ f"]
  obtain t' where t': "copy_or_skip E (''backing up kubeconfig '' @ f) ?src ?dst t = (Ok (), t')" "fills ?B s t'" by blast
  from keeps_kinds_dir [OF keepsD [OF copy_or_skip_kinds t'(1)] conjunct2 [OF I]] t'
  show "\<exists>t'. (let src = ?src; dst = ?dst in copy_or_skip E (''backing up kubeconfig '' @ f) src dst) t = (Ok (), t') \<and>
      fills ?B s t' \<and> is_dir (fs_get (w_fs t') ?k)" by (simp add: Let_def)
qed (use g k in simp)

lemma Create_live:
  assumes nf: "no_faults E" and ready: "backup_ready m bp (w_fs s)"
  shows "\<exists>b s'. create_at E m node bp s = (Ok b, s') \<and> BackupPath b = bp \<and> fills (backup_paths bp) s s'"
proof -
  let ?B = "backup_paths bp" and ?pki = "filepath_Join [bp, ''pki'']" and ?kube = "filepath_Join [bp, ''kubeconfigs'']"
  have "\<forall>p\<in>?B. writable (w_fs s) p" using ready by (simp add: backup_ready_def)
  then have g: "fills ?B s s" by (rule fills_refl)
  have ca: "''ca.crt'' \<in> set pkiFiles" and adm: "''admin.conf'' \<in> set kubeconfigFiles" by (simp_all add: pkiFiles_def kubeconfigFiles_def)
  have "split_slash ''ca.crt'' = [''ca.crt'']" by code_simp
  then have pdir: "resolve ?pki = parent (pki_copy bp ''ca.crt'')" by (simp add: parent_single copies_are_paths(1) [symmetric])
  obtain s1 where s1: "os_MkdirAll E ?pki 448 s = (Ok (), s1)" "fills ?B s s1"
    using MkdirAll_fills [OF nf backup_places_apart g pki_place(2) [OF ca] pdir] by blast
  obtain s2 where s2: "os_MkdirAll E ?kube 448 s1 = (Ok (), s2)" "fills ?B s s2" "is_dir (fs_get (w_fs s2) (resolve ?kube))"
    using MkdirAll_fills [OF nf backup_places_apart s1(2) kube_place(2) [OF adm] kube_place(3) [OF adm, symmetric]]
    unfolding kube_place(3) [OF adm] by blast
  obtain s3 where s3: "for_each (\<lambda>rel. let src = filepath_Join [bm_pkiDir m, rel]; dst = filepath_Join [?pki, rel] in
      seqE (wrapE (''creating subdir for '' @ rel) (os_MkdirAll E (filepath_Dir dst) 448)) (\<lambda>_.
      copy_or_skip E (''backing up '' @ rel) src dst)) pkiFiles s2 = (Ok (), s3)" "fills ?B s s3" "is_dir (fs_get (w_fs s3) (resolve ?kube))"
    using pki_loop_live [OF nf ready s2(2,3)] by blast
  obtain s4 where s4: "for_each (\<lambda>f. let src = filepath_Join [bm_kubeconfigDir m, f]; dst = filepath_Join [?kube, f] in
      copy_or_skip E (''backing up kubeconfig '' @ f) src dst) kubeconfigFiles s3 = (Ok (), s4)" "fills ?B s s4"
    using kube_loop_live [OF nf ready s3(2,3)] by blast
  have "create_at E m node bp s = (Ok \<lparr>Backup_Node = node, BackupPath = bp, CreatedAt = env_now E (w_tick s4)\<rparr>, s4\<lparr>w_tick := Suc (w_tick s4)\<rparr>)"
    unfolding create_at_def Let_def using s1(1) s2(1) s3(1) s4(1) by (simp add: go_run time_now_run Let_def)
  moreover have "fills ?B s (s4\<lparr>w_tick := Suc (w_tick s4)\<rparr>)" using s4(2) by (simp add: fills_def changes_only_def)
  ultimately show ?thesis by (intro exI conjI) (assumption, simp_all)
qed

end
