(* ===== verification/Renewal_Progress.thy ===== *)
theory Renewal_Progress
  imports Renewal_Effect Reconcile_Results Progress
begin

text \<open>
  When a renewal succeeds: with libraries that keep their contracts, no failing call and a node in
  order, \<^verbatim>\<open>runRenewal\<close> returns nil.
\<close>

section \<open>Reading and signing\<close>

text \<open>A certificate, and a CA key, that the generator can load.\<close>

definition readable :: "env \<Rightarrow> (fpath, fnode) fmap \<Rightarrow> fpath \<Rightarrow> bool" where
  "readable E fs p \<longleftrightarrow>
     (case fs_get fs p of
        Some (Reg data _) \<Rightarrow>
          (case env_pem_decode E data of
             Some (_, bytes) \<Rightarrow> (case env_parse_cert E bytes of Inr _ \<Rightarrow> True | Inl _ \<Rightarrow> False)
           | None \<Rightarrow> False)
      | _ \<Rightarrow> False)"

definition key_readable :: "env \<Rightarrow> (fpath, fnode) fmap \<Rightarrow> fpath \<Rightarrow> bool" where
  "key_readable E fs p \<longleftrightarrow>
     (case fs_get fs p of
        Some (Reg data _) \<Rightarrow>
          (case env_pem_decode E data of
             Some (_, bytes) \<Rightarrow>
               (case env_parse_pkcs1 E bytes of
                  Inr _ \<Rightarrow> True
                | Inl _ \<Rightarrow> (case env_parse_pkcs8 E bytes of Inr (Some _) \<Rightarrow> True | _ \<Rightarrow> False))
           | None \<Rightarrow> False)
      | _ \<Rightarrow> False)"

lemma readable_iff: "readable E fs p \<longleftrightarrow> (\<exists>data md cert. fs_get fs p = Some (Reg data md) \<and> reads E data cert)"
  by (auto simp: readable_def reads_def split: option.splits fnode.splits sum.splits)

lemma LoadExistingCert_live:
  assumes "no_faults E" and "readable E (w_fs t) (resolve p)"
  shows "\<exists>c t'. LoadExistingCert E p t = (Ok c, t') \<and> w_fs t' = w_fs t"
  using assms by (auto simp: readable_iff reads_def LoadExistingCert_def readPEMFile_def go_run ReadFile_nf)

lemma LoadCAKey_live:
  assumes "no_faults E" and "key_readable E (w_fs t) (resolve p)"
  shows "\<exists>k t'. LoadCAKey E p t = (Ok k, t') \<and> w_fs t' = w_fs t"
  using assms
  by (auto simp: key_readable_def LoadCAKey_def readPEMFile_def go_run ReadFile_nf split: option.splits fnode.splits sum.splits)

text \<open>The source of randomness never fails, and the CA signs every template that is valid for a year.\<close>

definition signing_works :: "env \<Rightarrow> bool" where
  "signing_works E \<longleftrightarrow> (\<forall>t. \<exists>key. env_gen_key E t = Inr key) \<and> (\<forall>t. \<exists>n. env_rand_serial E t = Inr n) \<and>
     (\<forall>t now template ca pub key. NotAfter template = env_now E now + certValidity \<longrightarrow>
        (\<exists>der. env_create_cert E t template ca pub key = Inr der))"

lemma sign_live:
  assumes "signing_works E"
  shows "\<exists>c k t'. SignWithSelfKey E existing ca cakey (the_generator E) t = (Ok (c, k), t') \<and> w_fs t' = w_fs t"
proof -
  obtain key where key: "env_gen_key E (w_tick t) = Inr key" using assms unfolding signing_works_def by blast
  let ?t = "t\<lparr>w_tick := Suc (w_tick t)\<rparr>"
  obtain n where n: "env_rand_serial E (Suc (w_tick ?t)) = Inr n" using assms unfolding signing_works_def by blast
  then obtain template v where b: "BuildTemplate E existing ?t = (Ok template, v)"
    by (auto simp: BuildTemplate_def go_run time_now_run tick_def)
  from BuildTemplate_okD(11) [OF b] obtain now where "NotAfter template = env_now E now + certValidity" by blast
  then obtain der where "env_create_cert E (w_tick v) template ca (PublicKey key) cakey = Inr der"
    using assms unfolding signing_works_def by blast
  with key b have run: "\<exists>c k t'. SignWithSelfKey E existing ca cakey (the_generator E) t = (Ok (c, k), t')"
    by (simp add: SignWithSelfKey_def the_generator_def GenerateKey_def Sign_def go_run tick_def)
  then show ?thesis using keepsD [OF look.keeps_SignWithSelfKey] by (metis quietD(1))
qed

section \<open>Writing\<close>

definition table_files :: "string \<Rightarrow> fpath set" where
  "table_files dir = (\<Union>(n, c, k)\<in>set CertPaths. {pki_path dir c, pki_path dir k})"

lemma in_table: "(n, c, k) \<in> set CertPaths \<Longrightarrow> pki_path dir c \<in> table_files dir \<and> pki_path dir k \<in> table_files dir"
  unfolding table_files_def by blast

lemma table_places_apart: "apart_places (table_files dir)"
proof -
  let ?L = "concat (map (\<lambda>(n, c, k). [split_slash c, split_slash k]) CertPaths)"
  have "list_all (\<lambda>xs. list_all (\<lambda>ys. \<not> strict_prefix xs ys) ?L) ?L" by code_simp
  moreover have "p \<in> table_files dir \<Longrightarrow> \<exists>xs\<in>set ?L. p = below dir xs" for p
    by (fastforce simp: table_files_def pki_path_def)
  ultimately show ?thesis by (rule places_apart)
qed

lemma put_file_fills:
  assumes "no_faults E" and "apart_places B" and "fills B s t" and "resolve path \<in> B"
    and "resolve (filepath_Dir path) = parent (resolve path)"
  shows "\<exists>t'. put_file E what path perm data dw t = (Ok (), t') \<and> fills B s t'"
proof -
  from MkdirAll_fills [OF assms(1-5)] obtain v where v: "os_MkdirAll E (filepath_Dir path) 493 t = (Ok (), v)" "fills B s v"
    "is_dir (fs_get (w_fs v) (parent (resolve path)))" by metis
  have "\<not> is_dir (fs_get (w_fs v) (resolve path))" using v(2) assms(4) by (simp add: fills_def writable_def)
  from WriteFile_nf [OF assms(1) this v(3)] obtain t' where t': "os_WriteFile E path data perm v = (Ok (), t')" by blast
  have "changes_only {resolve path} v t'" by (rule keepsD [OF WriteFile_keeps_fs t']) simp
  from write_fills [OF assms(2) v(2) assms(4) this] WriteFile_okD [OF t'] v(1) t' show ?thesis
    by (simp add: put_file_def go_run)
qed

lemma WriteCertKeyPair_live:
  assumes "no_faults E" and "fills (table_files dir) s t" and "(n, cp, kp) \<in> set CertPaths"
  shows "\<exists>t'. WriteCertKeyPair E (writer_New dir False) cp kp x y t = (Ok (), t') \<and> fills (table_files dir) s t'"
proof -
  have rel: "plain_rel cp" "plain_rel kp" using CertPaths_plain [OF assms(3)] by simp_all
  have res: "resolve (filepath_Join [dir, r]) \<in> table_files dir"
    "resolve (filepath_Dir (filepath_Join [dir, r])) = parent (resolve (filepath_Join [dir, r]))" if "r = cp \<or> r = kp" for r
    using that in_table [OF assms(3), of dir] rel resolve_Dir_Join by (auto simp: resolve_pki)
  note put = put_file_fills [OF assms(1) table_places_apart]
  have w: "\<not> writer_dryRun (writer_New dir False)" "writer_pkiDir (writer_New dir False) = dir" by (simp_all add: writer_New_def)
  obtain v where v: "WriteCert E (writer_New dir False) cp x t = (Ok (), v)" "fills (table_files dir) s v"
    using put [OF assms(2) res] unfolding WriteCert_put_file [OF w(1)] w(2) by blast
  obtain t' where "WriteKey E (writer_New dir False) kp y v = (Ok (), t')" "fills (table_files dir) s t'"
    using put [OF v(2) res] unfolding WriteKey_put_file [OF w(1)] w(2) by blast
  with v(1) show ?thesis by (simp add: WriteCertKeyPair_def go_run)
qed

section \<open>The renewal of every due certificate\<close>

text \<open>The CA of a certificate can be loaded.\<close>

definition ca_ready :: "env \<Rightarrow> (fpath, fnode) fmap \<Rightarrow> string \<Rightarrow> bool" where
  "ca_ready E fs name \<longleftrightarrow> readable E fs (resolve (fst (CAForCert name))) \<and> key_readable E fs (resolve (snd (CAForCert name)))"

lemma ca_not_in_table: "resolve (fst (CAForCert name)) \<notin> table_files dir" "resolve (snd (CAForCert name)) \<notin> table_files dir"
proof -
  have "list_all (\<lambda>(n, c, k). last (split_slash c) \<notin> {''ca.crt'', ''ca.key'', ''front-proxy-ca.crt'', ''front-proxy-ca.key''} \<and>
      last (split_slash k) \<notin> {''ca.crt'', ''ca.key'', ''front-proxy-ca.crt'', ''front-proxy-ca.key''}) CertPaths" by code_simp
  then have "p \<in> table_files dir \<Longrightarrow> last (snd p) \<notin> {''ca.crt'', ''ca.key'', ''front-proxy-ca.crt'', ''front-proxy-ca.key''}" for p
    by (auto simp: table_files_def list_all_iff last_pki_path)
  moreover have "last (snd (resolve (fst (CAForCert name)))) \<in> {''ca.crt'', ''ca.key'', ''front-proxy-ca.crt'', ''front-proxy-ca.key''}"
    "last (snd (resolve (snd (CAForCert name)))) \<in> {''ca.crt'', ''ca.key'', ''front-proxy-ca.crt'', ''front-proxy-ca.key''}"
    by (simp_all add: CAForCert_def resolve_def path_step_def is_rooted_def)
  ultimately show "resolve (fst (CAForCert name)) \<notin> table_files dir" "resolve (snd (CAForCert name)) \<notin> table_files dir" by blast+
qed

lemma readable_kept:
  assumes "\<And>d m. fs_get fs p = Some (Reg d m) \<Longrightarrow> fs_get fs' p = Some (Reg d m)"
  shows "readable E fs p \<Longrightarrow> readable E fs' p" and "key_readable E fs p \<Longrightarrow> key_readable E fs' p"
proof -
  have same: "fs_get fs' p = fs_get fs p" if "\<exists>d m. fs_get fs p = Some (Reg d m)" using assms that by auto
  show "readable E fs' p" if r: "readable E fs p"
  proof -
    have "\<exists>d m. fs_get fs p = Some (Reg d m)" using r by (auto simp: readable_iff)
    from same [OF this] r show ?thesis by (simp add: readable_def)
  qed
  show "key_readable E fs' p" if k: "key_readable E fs p"
  proof -
    have "\<exists>d m. fs_get fs p = Some (Reg d m)" using k by (simp add: key_readable_def split: option.splits fnode.splits)
    from same [OF this] k show ?thesis by (simp add: key_readable_def)
  qed
qed

lemma ca_ready_kept:
  assumes "\<And>p d m. p = resolve (fst (CAForCert name)) \<or> p = resolve (snd (CAForCert name)) \<Longrightarrow>
    fs_get fs p = Some (Reg d m) \<Longrightarrow> fs_get fs' p = Some (Reg d m)"
    and "ca_ready E fs name"
  shows "ca_ready E fs' name"
  unfolding ca_ready_def
proof
  show "readable E fs' (resolve (fst (CAForCert name)))"
    using assms(2) readable_kept(1) [OF assms(1)] unfolding ca_ready_def by blast
  show "key_readable E fs' (resolve (snd (CAForCert name)))"
    using assms(2) readable_kept(2) [OF assms(1)] unfolding ca_ready_def by blast
qed

lemma renew_cert_live:
  assumes "no_faults E" and "signing_works E" and "fills (table_files (PKIDir spec)) s t" and "(ci_Name c, cp, kp) \<in> set CertPaths"
    and "readable E (w_fs t) (resolve (ci_Path c))" and "ca_ready E (w_fs t) (ci_Name c)"
  shows "\<exists>t'. renew_cert E spec c t = (Ok (), t') \<and> fills (table_files (PKIDir spec)) s t'"
proof (cases "ci_Status c = StatusOK")
  case False
  obtain existing t1 where 1: "LoadExistingCert E (ci_Path c) t = (Ok existing, t1)" "w_fs t1 = w_fs t"
    using LoadExistingCert_live [OF assms(1,5)] by blast
  obtain ca t2 where 2: "LoadCACert E (fst (CAForCert (ci_Name c))) t1 = (Ok ca, t2)" "w_fs t2 = w_fs t"
    using LoadExistingCert_live [OF assms(1), of t1] assms(6) 1(2) unfolding LoadCACert_def ca_ready_def by metis
  obtain key t3 where 3: "LoadCAKey E (snd (CAForCert (ci_Name c))) t2 = (Ok key, t3)" "w_fs t3 = w_fs t"
    using LoadCAKey_live [OF assms(1), of t2] assms(6) 2(2) unfolding ca_ready_def by metis
  obtain x y t4 where 4: "SignWithSelfKey E existing ca key (the_generator E) t3 = (Ok (x, y), t4)" "w_fs t4 = w_fs t"
    using sign_live [OF assms(2)] 3(2) by metis
  have "fills (table_files (PKIDir spec)) s t4" using assms(3) 4(2) by (simp add: fills_def changes_only_def)
  from WriteCertKeyPair_live [OF assms(1) this assms(4), of x y] obtain t' where
    "WriteCertKeyPair E (writer_New (PKIDir spec) False) cp kp x y t4 = (Ok (), t')" "fills (table_files (PKIDir spec)) s t'" by blast
  with 1(1) 2(1) 3(1) 4(1) False assms(4) show ?thesis
    by (simp add: renew_cert_def go_run map_of_CertPaths [THEN iffD2])
qed (use assms(3) in \<open>simp add: renew_cert_def\<close>)

text \<open>What a renewal wrote can be read, so the certificates of the table stay readable.\<close>

lemma renew_cert_keeps_readable:
  assumes "renew_cert E spec c t = (Ok u, t')" and "pem_contract E" and "x509_contract E"
    and "(n, cp, kp) \<in> set CertPaths" and "readable E (w_fs t) (pki_path (PKIDir spec) cp)"
  shows "readable E (w_fs t') (pki_path (PKIDir spec) cp)"
proof (cases "ci_Status c = StatusOK")
  case True
  then show ?thesis using assms(1,5) by (simp add: renew_cert_def)
next
  case due: False
  show ?thesis
  proof (cases "n = ci_Name c")
    case True
    from renew_cert_okD [OF assms(1) due] have "renewed E spec c t t'" by metis
    then obtain template ca key cakey k der where der: "env_create_cert E k template ca (PublicKey key) cakey = Inr der"
      and "stored_pair (PKIDir spec) n t' = Some (EncodeCertPEM E der, EncodeKeyPEM E key)" unfolding renewed_def True by blast
    with assms(4) obtain md where at: "fs_get (w_fs t') (pki_path (PKIDir spec) cp) = Some (Reg (EncodeCertPEM E der) md)"
      by (auto simp: stored_pair_def map_of_CertPaths [THEN iffD2] split: option.splits fnode.splits)
    obtain cert where "env_parse_cert E der = Inr cert" using assms(3) der unfolding x509_contract_def by blast
    with at assms(2) show ?thesis by (auto simp: readable_iff reads_def EncodeCertPEM_def pem_contract_def)
  next
    case False
    from renew_cert_others(2) [OF assms(1) False assms(4)] assms(5) show ?thesis by (auto simp: readable_iff)
  qed
qed

text \<open>Each certificate that is due has a place, is in it, can be read, and its CA can be loaded.\<close>

definition renewable :: "env \<Rightarrow> config_spec \<Rightarrow> (fpath, fnode) fmap \<Rightarrow> cert_info \<Rightarrow> bool" where
  "renewable E spec fs c \<longleftrightarrow>
     (case map_of CertPaths (ci_Name c) of
        None \<Rightarrow> False
      | Some (cp, kp) \<Rightarrow> resolve (ci_Path c) = pki_path (PKIDir spec) cp \<and> readable E fs (pki_path (PKIDir spec) cp) \<and>
          ca_ready E fs (ci_Name c))"

definition readable_kept_in :: "env \<Rightarrow> string \<Rightarrow> world \<Rightarrow> world \<Rightarrow> bool" where
  "readable_kept_in E dir s t \<longleftrightarrow>
     (\<forall>(n, cp, kp)\<in>set CertPaths. readable E (w_fs s) (pki_path dir cp) \<longrightarrow> readable E (w_fs t) (pki_path dir cp))"

lemma renew_loop_live:
  assumes "no_faults E" and "signing_works E" and "pem_contract E" and "x509_contract E"
    and places: "\<forall>p\<in>table_files (PKIDir spec). writable (w_fs s) p"
    and due: "\<forall>c\<in>set cs. ci_Status c \<noteq> StatusOK \<longrightarrow> renewable E spec (w_fs s) c"
  shows "\<exists>s'. for_each (renew_cert E spec) cs s = (Ok (), s') \<and> fills (table_files (PKIDir spec)) s s' \<and> readable_kept_in E (PKIDir spec) s s'"
proof -
  let ?B = "table_files (PKIDir spec)"
  let ?I = "\<lambda>t. fills ?B s t \<and> readable_kept_in E (PKIDir spec) s t"
  have "\<exists>s'. for_each (renew_cert E spec) cs s = (Ok (), s') \<and> ?I s'"
  proof (rule for_each_ok_total)
    fix c t assume c: "c \<in> set cs" and I: "?I t"
    show "\<exists>t'. renew_cert E spec c t = (Ok (), t') \<and> ?I t'"
    proof (cases "ci_Status c = StatusOK")
      case False
      with due c obtain cp kp where ck: "(ci_Name c, cp, kp) \<in> set CertPaths" and p: "resolve (ci_Path c) = pki_path (PKIDir spec) cp"
        and r: "readable E (w_fs s) (pki_path (PKIDir spec) cp)" and ca: "ca_ready E (w_fs s) (ci_Name c)"
        by (auto simp: renewable_def map_of_CertPaths split: option.splits prod.splits)
      have "readable E (w_fs t) (resolve (ci_Path c))" using I ck r unfolding p readable_kept_in_def by blast
      moreover have "ca_ready E (w_fs t) (ci_Name c)"
      proof (rule ca_ready_kept [OF _ ca])
        fix p d m assume "p = resolve (fst (CAForCert (ci_Name c))) \<or> p = resolve (snd (CAForCert (ci_Name c)))"
          and d: "fs_get (w_fs s) p = Some (Reg d m)"
        then have "p \<notin> ?B" using ca_not_in_table by blast
        from fills_reg [OF conjunct1 [OF I] places this d] show "fs_get (w_fs t) p = Some (Reg d m)" .
      qed
      ultimately obtain t' where t': "renew_cert E spec c t = (Ok (), t')" "fills ?B s t'"
        using renew_cert_live [OF assms(1,2) conjunct1 [OF I] ck] by blast
      then show ?thesis using I renew_cert_keeps_readable [OF t'(1) assms(3,4)] unfolding readable_kept_in_def by blast
    qed (use I in \<open>simp add: renew_cert_def\<close>)
  qed (use fills_refl [OF places] in \<open>auto simp: readable_kept_in_def\<close>)
  then show ?thesis by blast
qed

section \<open>The restarts and the health check\<close>

text \<open>A manifest that is a YAML object, and a library that writes objects as such manifests.\<close>

definition manifest_ok :: "env \<Rightarrow> string \<Rightarrow> bool" where
  "manifest_ok E data \<longleftrightarrow> (case env_yaml_to_json E data of Inr (JObj _) \<Rightarrow> True | _ \<Rightarrow> False)"

definition yaml_contract :: "env \<Rightarrow> bool" where
  "yaml_contract E \<longleftrightarrow> (\<forall>obj. \<exists>text. env_json_to_yaml E (JObj obj) = Inr text \<and> manifest_ok E text)"

definition manifest_at :: "string \<Rightarrow> string \<Rightarrow> fpath" where
  "manifest_at dir name = resolve (filepath_Join [dir, name @ ''.yaml''])"

definition manifests_ready :: "env \<Rightarrow> string \<Rightarrow> (fpath, fnode) fmap \<Rightarrow> bool" where
  "manifests_ready E dir fs \<longleftrightarrow>
     (\<forall>name\<in>set restartOrder. case fs_get fs (manifest_at dir name) of Some (Reg data _) \<Rightarrow> manifest_ok E data | _ \<Rightarrow> False)"

lemma manifests_readyD:
  "manifests_ready E dir fs \<Longrightarrow> name \<in> set restartOrder \<Longrightarrow> \<exists>data md. fs_get fs (manifest_at dir name) = Some (Reg data md) \<and> manifest_ok E data"
  by (cases "fs_get fs (manifest_at dir name)" rule: is_reg.cases) (auto simp: manifests_ready_def)

lemma manifests_readyI:
  "(\<And>name. name \<in> set restartOrder \<Longrightarrow> \<exists>data md. fs_get fs (manifest_at dir name) = Some (Reg data md) \<and> manifest_ok E data) \<Longrightarrow>
    manifests_ready E dir fs"
  by (fastforce simp: manifests_ready_def)

lemma Restart_live:
  assumes nf: "no_faults E" and yaml: "yaml_contract E" and ready: "manifests_ready E dir (w_fs t)" and name: "name \<in> set restartOrder"
  shows "\<exists>t'. Restart E (podrestart_New dir False) name t = (Ok (), t') \<and> manifests_ready E dir (w_fs t')"
proof -
  let ?path = "filepath_Join [dir, name @ ''.yaml'']"
  obtain data md where at: "fs_get (w_fs t) (resolve ?path) = Some (Reg data md)" and ok: "manifest_ok E data"
    using manifests_readyD [OF ready name] by (auto simp: manifest_at_def)
  obtain obj where obj: "env_yaml_to_json E data = Inr (JObj obj)" using ok by (auto simp: manifest_ok_def split: sum.splits json.splits)
  obtain new where new: "env_json_to_yaml E (JObj (annotate (rfc3339_utc (env_now E (Suc (Suc (Suc (Suc (w_tick t))))))) obj)) = Inr new" "manifest_ok E new"
    using yaml unfolding yaml_contract_def by blast
  let ?v = "t\<lparr>w_tick := Suc (Suc (Suc (Suc (Suc (Suc (Suc (w_tick t)))))))\<rparr>"
  obtain t' where t': "os_WriteFile E ?path new md ?v = (Ok (), t')"
    using WriteFile_nf [OF nf, of ?v ?path new md] at by auto
  have "Restart E (podrestart_New dir False) name t = (Ok (), t')"
    using nf at obj new(1) t'
    by (simp add: Restart_def find_manifest_def podrestart_New_def Let_def go_run Stat_nf ReadFile_nf injectRestartAnnotation_def time_now_run)
  moreover have "manifests_ready E dir (w_fs t')"
  proof (rule manifests_readyI)
    fix n assume n: "n \<in> set restartOrder"
    show "\<exists>data md. fs_get (w_fs t') (manifest_at dir n) = Some (Reg data md) \<and> manifest_ok E data"
    proof (cases "manifest_at dir n = resolve ?path")
      case True
      then show ?thesis using WriteFile_okD [OF t'] new(2) by simp
    next
      case False
      then have "fs_get (w_fs t') (manifest_at dir n) = fs_get (w_fs ?v) (manifest_at dir n)"
        by (intro changes_onlyD [OF keepsD [OF WriteFile_keeps_fs t', of "{resolve ?path}"]]) simp_all
      then show ?thesis using manifests_readyD [OF ready n] by simp
    qed
  qed
  ultimately show ?thesis by blast
qed

lemma RestartAll_live:
  assumes "no_faults E" and "yaml_contract E" and "manifests_ready E dir (w_fs t)"
  shows "\<exists>t'. RestartAll E (podrestart_New dir False) t = (Ok (), t')"
proof -
  have "\<exists>t'. for_each (restart_and_wait E (podrestart_New dir False)) restartOrder t = (Ok (), t') \<and> manifests_ready E dir (w_fs t')"
  proof (rule for_each_ok_total)
    fix n and v :: world assume "n \<in> set restartOrder" "manifests_ready E dir (w_fs v)"
    from Restart_live [OF assms(1,2) this(2,1)] show "\<exists>v'. restart_and_wait E (podrestart_New dir False) n v = (Ok (), v') \<and> manifests_ready E dir (w_fs v')"
      by (auto simp: restart_and_wait_def go_run podrestart_New_def)
  qed (rule assms(3))
  then show ?thesis by (auto simp: RestartAll_def)
qed

definition all_answer :: "env \<Rightarrow> bool" where
  "all_answer E \<longleftrightarrow> (\<forall>t a. env_dial E t a = None) \<and> (\<forall>t u. env_http_get E t u = Inr 200)"

lemma health_live:
  assumes "all_answer E"
  shows "\<exists>t'. CheckAllWithRetry E c k interval t = (Ok (), t')"
proof (cases "0 < k \<and> \<not> chk_dryRun c")
  case True
  have "\<exists>t'. retry_loop (nat k) E c k interval 1 t = (Ok (), t')"
    by (rule retry_loop_live [where T = 0]) (use assms True in \<open>simp_all add: all_answer_def\<close>)
  then show ?thesis by (simp add: CheckAllWithRetry_def)
qed (auto simp: CheckAllWithRetry_def)


section \<open>The renewal\<close>

text \<open>
  The environment cooperates: no system call, API call or probe fails, nobody else writes to the custom
  resource, randomness and the CA work, and the libraries keep their contracts.
\<close>

definition cooperative :: "env \<Rightarrow> bool" where
  "cooperative E \<longleftrightarrow> no_faults E \<and> answering E \<and> all_answer E \<and> signing_works E \<and> pem_contract E \<and> x509_contract E \<and> yaml_contract E"

text \<open>
  The node is in order: what the backup saves can be read and lies beside the backup, each certificate that
  is due can be renewed with a CA that is not one of the backup's files, the manifests are objects.
\<close>

definition node_ready :: "env \<Rightarrow> config_spec \<Rightarrow> string \<Rightarrow> (fpath, fnode) fmap \<Rightarrow> cert_info list \<Rightarrow> bool" where
  "node_ready E spec bp fs cs \<longleftrightarrow> backup_ready (spec_backup_manager spec) bp fs \<and> manifests_ready E (ManifestsDir spec) fs \<and>
     (\<forall>c\<in>set cs. ci_Status c \<noteq> StatusOK \<longrightarrow> renewable E spec fs c \<and>
        resolve (fst (CAForCert (ci_Name c))) \<notin> backup_paths bp \<and> resolve (snd (CAForCert (ci_Name c))) \<notin> backup_paths bp)"

lemma table_sources: "p \<in> table_files (PKIDir spec) \<Longrightarrow> p \<in> source_paths (spec_backup_manager spec)"
proof -
  have "(n, c, k) \<in> set CertPaths \<Longrightarrow> c \<in> set pkiFiles \<and> k \<in> set pkiFiles" for n c k by (auto simp: CertPaths_def pkiFiles_def)
  then show "p \<in> table_files (PKIDir spec) \<Longrightarrow> p \<in> source_paths (spec_backup_manager spec)"
    by (fastforce simp: table_files_def source_paths_def spec_backup_manager_def backup_New_def)
qed

lemma manifest_at_file: "name \<in> set restartOrder \<Longrightarrow> manifest_at dir name \<in> manifest_files (podrestart_New dir False)"
  by (auto simp: manifest_at_def manifest_files_def manifest_paths_def podrestart_New_def)

lemma manifest_apart:
  assumes "name \<in> set restartOrder"
  shows "manifest_at dir name \<notin> table_files d" and "manifest_at dir name \<notin> backup_paths bp"
proof -
  show "manifest_at dir name \<notin> table_files d"
  proof
    assume "manifest_at dir name \<in> table_files d"
    then obtain n c k where "(n, c, k) \<in> set CertPaths" "manifest_at dir name = pki_path d c \<or> manifest_at dir name = pki_path d k"
      unfolding table_files_def by blast
    then show False using table_apart_from_manifests manifest_at_file [OF assms] by metis
  qed
  have "list_all (\<lambda>r. last (last (split_slash r)) \<noteq> CHR ''l'') (pkiFiles @ kubeconfigFiles)" by code_simp
  then have "p \<in> backup_paths bp \<Longrightarrow> last (last (snd p)) \<noteq> CHR ''l''" for p
    by (auto simp: backup_paths_def pki_copy_def kube_copy_def below_def list_all_iff)
  then show "manifest_at dir name \<notin> backup_paths bp" using manifest_last [OF manifest_at_file [OF assms]] by blast
qed

lemma manifests_kept:
  assumes "manifests_ready E dir (w_fs s)" and "fills B s t" and "\<forall>p\<in>B. writable (w_fs s) p"
    and "\<And>name. name \<in> set restartOrder \<Longrightarrow> manifest_at dir name \<notin> B"
  shows "manifests_ready E dir (w_fs t)"
proof (rule manifests_readyI)
  fix name assume n: "name \<in> set restartOrder"
  from manifests_readyD [OF assms(1) n] obtain data md where "fs_get (w_fs s) (manifest_at dir name) = Some (Reg data md)" "manifest_ok E data" by blast
  then show "\<exists>data md. fs_get (w_fs t) (manifest_at dir name) = Some (Reg data md) \<and> manifest_ok E data"
    using fills_reg [OF assms(2,3) assms(4) [OF n]] by blast
qed

lemma renewable_kept:
  assumes "renewable E spec (w_fs s) c" and "\<And>p d m. fs_get (w_fs s) p = Some (Reg d m) \<Longrightarrow>
      p \<in> table_files (PKIDir spec) \<or> p = resolve (fst (CAForCert (ci_Name c))) \<or> p = resolve (snd (CAForCert (ci_Name c))) \<Longrightarrow>
      fs_get (w_fs t) p = Some (Reg d m)"
  shows "renewable E spec (w_fs t) c"
proof -
  from assms(1) obtain cp kp where ck: "map_of CertPaths (ci_Name c) = Some (cp, kp)" "resolve (ci_Path c) = pki_path (PKIDir spec) cp"
    and r: "readable E (w_fs s) (pki_path (PKIDir spec) cp)" and ca: "ca_ready E (w_fs s) (ci_Name c)"
    by (auto simp: renewable_def split: option.splits prod.splits)
  have "pki_path (PKIDir spec) cp \<in> table_files (PKIDir spec)" using ck(1) in_table by (simp add: map_of_CertPaths)
  then have "readable E (w_fs t) (pki_path (PKIDir spec) cp)" using readable_kept(1) [OF assms(2) r] by blast
  moreover have "ca_ready E (w_fs t) (ci_Name c)" by (rule ca_ready_kept [OF assms(2) ca]) auto
  ultimately show ?thesis using ck by (simp add: renewable_def)
qed

text \<open>After the backup, the table, the due certificates and the manifests are as before.\<close>

lemma ready_after_backup:
  assumes ready: "node_ready E spec bp (w_fs w) cs" and g: "fills (backup_paths bp) w s"
  shows "\<forall>p\<in>table_files (PKIDir spec). writable (w_fs s) p" and "\<forall>c\<in>set cs. ci_Status c \<noteq> StatusOK \<longrightarrow> renewable E spec (w_fs s) c"
    and "manifests_ready E (ManifestsDir spec) (w_fs s)"
proof -
  from ready have br: "backup_ready (spec_backup_manager spec) bp (w_fs w)" and mr: "manifests_ready E (ManifestsDir spec) (w_fs w)"
    by (simp_all add: node_ready_def)
  have bw: "\<forall>p\<in>backup_paths bp. writable (w_fs w) p" using br by (simp add: backup_ready_def)
  have tab: "fs_get (w_fs s) q = fs_get (w_fs w) q" "writable (w_fs s) q" if q: "q \<in> table_files (PKIDir spec)" for q
  proof -
    have q: "writable (w_fs w) q" "beside (backup_paths bp) q" using br table_sources [OF q] by (simp_all add: backup_ready_def)
    then show "fs_get (w_fs s) q = fs_get (w_fs w) q" "writable (w_fs s) q"
      using fills_beside [OF g q(2)] fills_above [OF g q(2)] by (simp_all add: writable_def)
  qed
  then show "\<forall>p\<in>table_files (PKIDir spec). writable (w_fs s) p" by blast
  show "\<forall>c\<in>set cs. ci_Status c \<noteq> StatusOK \<longrightarrow> renewable E spec (w_fs s) c"
  proof (intro ballI impI)
    fix c assume "c \<in> set cs" "ci_Status c \<noteq> StatusOK"
    with ready have c: "renewable E spec (w_fs w) c" "resolve (fst (CAForCert (ci_Name c))) \<notin> backup_paths bp"
      "resolve (snd (CAForCert (ci_Name c))) \<notin> backup_paths bp" by (simp_all add: node_ready_def)
    show "renewable E spec (w_fs s) c"
    proof (rule renewable_kept [OF c(1)])
      fix p d m assume old: "fs_get (w_fs w) p = Some (Reg d m)"
        and "p \<in> table_files (PKIDir spec) \<or> p = resolve (fst (CAForCert (ci_Name c))) \<or> p = resolve (snd (CAForCert (ci_Name c)))"
      then consider "p \<in> table_files (PKIDir spec)" | "p \<notin> backup_paths bp" using c(2,3) by blast
      then show "fs_get (w_fs s) p = Some (Reg d m)"
      proof cases
        case 1
        then show ?thesis using tab(1) [of p] old by simp
      qed (rule fills_reg [OF g bw _ old])
    qed
  qed
  show "manifests_ready E (ManifestsDir spec) (w_fs s)" by (rule manifests_kept [OF mr g bw manifest_apart(2)])
qed

lemma runRenewal_live:
  assumes coop: "cooperative E" and sync: "synced me w"
    and ready: "node_ready E spec (filepath_Join [BackupDir spec, me, backup_stamp (env_now E (w_tick w))]) (w_fs w) (dr_Certs det)"
  shows "\<exists>w'. runRenewal E me spec det w = (Ok (), w') \<and> (\<not> DryRun spec \<longrightarrow> readable_kept_in E (PKIDir spec) w w')"
proof -
  let ?bp = "filepath_Join [BackupDir spec, me, backup_stamp (env_now E (w_tick w))]" and ?m = "spec_backup_manager spec"
  from coop have E: "no_faults E" "answering E" "all_answer E" "signing_works E" "pem_contract E" "x509_contract E" "yaml_contract E"
    by (simp_all add: cooperative_def)
  from ready have br: "backup_ready ?m ?bp (w_fs w)" by (simp add: node_ready_def)
  from Create_live [OF E(1), of ?m ?bp "w\<lparr>w_tick := Suc (w_tick w)\<rparr>" me] br obtain b s0 where
    c: "create_at E ?m me ?bp (w\<lparr>w_tick := Suc (w_tick w)\<rparr>) = (Ok b, s0)" and g: "fills (backup_paths ?bp) w s0"
    by (auto simp: fills_def changes_only_def)
  then have create: "backup_Create E ?m me w = (Ok b, s0)"
    by (simp add: backup_Create_def seqE_run time_now_run spec_backup_manager_def backup_New_def)
  have "synced me s0" using sync keepsD [OF api_node.keeps_Create create] by (auto simp: synced_def same_api_def)
  from patch_synced [OF E(2) this, of "update_node me (\<lambda>ns. ns\<lparr>node_BackupPath := BackupPath b\<rparr>)"]
  obtain s where p: "setNodeBackupPath E me (BackupPath b) s0 = (Ok (), s)" and fs: "w_fs s = w_fs s0" by (auto simp: setNodeBackupPath_def)
  have gs: "fills (backup_paths ?bp) w s" using g fs by (simp add: fills_def changes_only_def)
  note after = ready_after_backup [OF ready gs]
  obtain t where l: "for_each (renew_cert E spec) (dr_Certs det) s = (Ok (), t)" and gt: "fills (table_files (PKIDir spec)) s t"
      and kept: "readable_kept_in E (PKIDir spec) s t"
    using renew_loop_live [OF E(1,4-6) after(1,2)] by blast
  have "manifests_ready E (ManifestsDir spec) (w_fs t)" by (rule manifests_kept [OF after(3) gt after(1) manifest_apart(1)])
  from RestartAll_live [OF E(1,7) this] obtain v where r: "RestartAll E (podrestart_New (ManifestsDir spec) False) t = (Ok (), v)" by blast
  obtain w' where h: "CheckAllWithRetry E (healthcheck_New me (health_timeout spec) False) (HealthCheckMaxAttempts spec) (15 * ns_second) v = (Ok (), w')"
    using health_live [OF E(3)] by blast
  have m: "touches (manifest_files (podrestart_New (ManifestsDir spec) False)) t w'"
    using keepsD [OF RestartAll_touches r] keepsD [OF touch_frame.keeps_CheckAllWithRetry [OF emit_touches emit_touches sleep_touches] h]
    by (rule touch_frame.kept_trans)
  have "readable_kept_in E (PKIDir spec) w w'" unfolding readable_kept_in_def
  proof (clarify)
    fix n cp kp assume ck: "(n, cp, kp) \<in> set CertPaths" and old: "readable E (w_fs w) (pki_path (PKIDir spec) cp)"
    have "beside (backup_paths ?bp) (pki_path (PKIDir spec) cp)" using br backup_sources [OF ck] by (simp add: backup_ready_def)
    then have "readable E (w_fs s) (pki_path (PKIDir spec) cp)" using old fills_beside [OF gs] by (simp add: readable_def)
    then have "readable E (w_fs t) (pki_path (PKIDir spec) cp)" using kept ck unfolding readable_kept_in_def by blast
    then show "readable E (w_fs w') (pki_path (PKIDir spec) cp)"
      by (rule readable_kept(1) [rotated]) (use touches_reg_iff [OF m table_apart_from_manifests(1) [OF ck]] in blast)
  qed
  with create p l r h show ?thesis by (simp add: runRenewal_def go_run)
qed

section \<open>The reconciliation\<close>

lemma after_detection_renews:
  assumes "answering E" and "owns me (Some ns) fs v" and "NeedsRenewal det"
  shows "\<exists>u t. after_detection E me spec det v = bindE (runRenewal E me spec det) (after_failure E me spec) (\<lambda>_. after_success E me spec) u \<and>
    owns me (Some (ns\<lparr>node_Certs := toCertStatuses det, node_LastCheckedAt := Some t, node_Phase := NodePhaseRenewing, node_Node := me\<rparr>)) fs u"
proof -
  obtain t v1 where now: "metav1_Now E v = (Ok t, v1)" by (simp add: metav1_Now_def seqE_run time_now_run)
  have v1: "owns me (Some ns) fs v1" using owns_quiet [OF assms(2) keepsD [OF look.keeps_metav1_Now now]] .
  let ?ns = "ns\<lparr>node_Certs := toCertStatuses det, node_LastCheckedAt := Some t\<rparr>"
  have certs: "triple (owns me (Some ns) fs) (updateNodeCertStatus E me (toCertStatuses det) t) (\<lambda>r w. r = Ok () \<and> owns me (Some ?ns) fs w)"
    unfolding updateNodeCertStatus_def by (rule triple_owns_patch [OF assms(1)]) simp
  have phase: "triple (owns me (Some ?ns) fs) (setNodePhase E me NodePhaseRenewing '''')
      (\<lambda>r w. r = Ok () \<and> owns me (Some (?ns\<lparr>node_Phase := NodePhaseRenewing, node_Node := me\<rparr>)) fs w)"
    unfolding setNodePhase_def by (rule triple_owns_patch [OF assms(1)]) simp
  obtain v2 where v2: "updateNodeCertStatus E me (toCertStatuses det) t v1 = (Ok (), v2)" "owns me (Some ?ns) fs v2"
    using triple_ok_run [OF certs v1] by blast
  obtain u where "setNodePhase E me NodePhaseRenewing '''' v2 = (Ok (), u)"
    "owns me (Some (?ns\<lparr>node_Phase := NodePhaseRenewing, node_Node := me\<rparr>)) fs u"
    using triple_ok_run [OF phase v2(2)] by blast
  then show ?thesis using now v2(1) assms(3) by (intro exI [of _ u] exI [of _ t]) (simp add: after_detection_def seqE_run)
qed

text \<open>A renewal that returned nil leaves the backup's path in the entry, and nothing else.\<close>

lemma runRenewal_entry:
  assumes "answering E" and "owns me (Some ns) fs u" and "runRenewal E me spec det u = (Ok (), w1)"
  shows "\<exists>p. owns me (Some (ns\<lparr>node_BackupPath := p\<rparr>)) (w_fs w1) w1"
proof -
  obtain b wb where create: "backup_Create E (spec_backup_manager spec) me u = (Ok b, wb)"
    using assms(3) by (auto simp: runRenewal_def ok_iff)
  have "synced me u" and "entry_of me (w_cfg u) = ns" using assms(2) by (simp_all add: owns_def entry_of_def)
  with runRenewal_own [OF assms(1) _ create assms(3)] show ?thesis by (auto simp: owns_def)
qed

text \<open>
  C1. The operator does its job. On a node that is in order, in an environment that cooperates, a
  reconciliation whose detection finds certificates due renews every one of them: each has a new key on
  the node, and the CA's signature over that key and a template that mirrors the certificate found there,
  valid for a year. The node is idle again, with the time of the renewal, the path of its backup and no
  failure reason in its entry, and the next reconciliation is asked for after the interval with the jitter.
\<close>

theorem Reconcile_renews:
  assumes "cooperative E" and "w_server w = Some cfg" and "\<not> is_critical_node me cfg" and "\<not> DryRun (config_Spec cfg)"
    and "Reconcile E me w = (r, w')"
  shows "\<exists>v q v'. w_fs v = w_fs w \<and> Detect E (detector_of (config_Spec cfg)) me v = (q, v') \<and>
    (\<forall>det. q = Ok det \<and> NeedsRenewal det \<and>
        (\<forall>t. node_ready E (config_Spec cfg) (filepath_Join [BackupDir (config_Spec cfg), me, backup_stamp (env_now E t)]) (w_fs w) (dr_Certs det)) \<longrightarrow>
      r = Ok \<lparr>RequeueAfter = requeueWithJitter me (config_Spec cfg)\<rparr> \<and>
      (\<forall>c\<in>set (dr_Certs det). ci_Status c \<noteq> StatusOK \<longrightarrow> renewed E (config_Spec cfg) c w w') \<and>
      (\<exists>srv t p t'. w_server w' = Some srv \<and> own me srv = Some ((entry_of me cfg)\<lparr>node_Certs := toCertStatuses det,
        node_LastCheckedAt := Some t, node_Node := me,
        node_BackupPath := p, node_Phase := NodePhaseIdle, node_LastRenewedAt := Some t', node_FailureReason := ''''\<rparr>)))"
proof -
  let ?spec = "config_Spec cfg" and ?ns = "(entry_of me cfg)\<lparr>node_Phase := NodePhaseDetecting, node_Node := me\<rparr>"
  have ans: "answering E" using assms(1) by (simp add: cooperative_def)
  obtain v q v' where v: "w_fs v = w_fs w" and det: "Detect E (detector_of ?spec) me v = (q, v')" and v': "owns me (Some ?ns) (w_fs w) v'"
    and run: "\<And>det. q = Ok det \<Longrightarrow> Reconcile E me w = after_detection E me ?spec det v'"
    using Reconcile_detects [OF ans assms(2,3)] by metis
  have "r = Ok \<lparr>RequeueAfter = requeueWithJitter me ?spec\<rparr> \<and>
      (\<forall>c\<in>set (dr_Certs d). ci_Status c \<noteq> StatusOK \<longrightarrow> renewed E ?spec c w w') \<and>
      (\<exists>srv t p t'. w_server w' = Some srv \<and> own me srv = Some ((entry_of me cfg)\<lparr>node_Certs := toCertStatuses d,
        node_LastCheckedAt := Some t, node_Node := me,
        node_BackupPath := p, node_Phase := NodePhaseIdle, node_LastRenewedAt := Some t', node_FailureReason := ''''\<rparr>))"
    if q: "q = Ok d" and need: "NeedsRenewal d"
      and ready: "\<And>t. node_ready E ?spec (filepath_Join [BackupDir ?spec, me, backup_stamp (env_now E t)]) (w_fs w) (dr_Certs d)" for d
  proof -
    from after_detection_renews [OF ans v' need] obtain u t where
      u: "after_detection E me ?spec d v' = bindE (runRenewal E me ?spec d) (after_failure E me ?spec) (\<lambda>_. after_success E me ?spec) u"
      and own: "owns me (Some (?ns\<lparr>node_Certs := toCertStatuses d, node_LastCheckedAt := Some t, node_Phase := NodePhaseRenewing, node_Node := me\<rparr>)) (w_fs w) u"
      by blast
    then have fs: "w_fs u = w_fs w" and sync: "synced me u" by (simp_all add: owns_def)
    obtain w1 where w1: "runRenewal E me ?spec d u = (Ok (), w1)"
      using runRenewal_live [OF assms(1) sync] ready fs by metis
    from runRenewal_entry [OF ans own w1] obtain p where
      "owns me (Some (?ns\<lparr>node_Certs := toCertStatuses d, node_LastCheckedAt := Some t, node_Phase := NodePhaseRenewing, node_Node := me,
        node_BackupPath := p\<rparr>)) (w_fs w1) w1" by auto
    from renewal_recorded [OF ans this w1] obtain w2 srv t' where
      w2: "bindE (runRenewal E me ?spec d) (after_failure E me ?spec) (\<lambda>_. after_success E me ?spec) u = (Ok \<lparr>RequeueAfter = requeueWithJitter me ?spec\<rparr>, w2)"
      "w_fs w2 = w_fs w1" "w_server w2 = Some srv" "own me srv = Some ((entry_of me cfg)\<lparr>node_Certs := toCertStatuses d,
        node_LastCheckedAt := Some t, node_Node := me,
        node_BackupPath := p, node_Phase := NodePhaseIdle, node_LastRenewedAt := Some t', node_FailureReason := ''''\<rparr>)"
      by auto
    have rw: "r = Ok \<lparr>RequeueAfter = requeueWithJitter me ?spec\<rparr>" "w' = w2" using run [OF q] u w2(1) assms(5) by simp_all
    have "renewed E ?spec c w w'" if "c \<in> set (dr_Certs d)" "ci_Status c \<noteq> StatusOK" for c
    proof -
      have "separate (spec_backup_manager ?spec) (filepath_Join [BackupDir ?spec, me, backup_stamp (env_now E (w_tick u))])"
        using ready [of "w_tick u"] by (auto simp: node_ready_def backup_ready_def beside_def separate_def)
      from renewal_installs [OF w1 assms(4) _ _ this that] Detect_reported(1) [OF det [unfolded q]] Detect_in_place [OF det [unfolded q detector_of_def]]
      have "renewed E ?spec c u w1" by blast
      moreover have "stored_pair (PKIDir ?spec) (ci_Name c) w' = stored_pair (PKIDir ?spec) (ci_Name c) w1"
        unfolding rw(2) stored_pair_def w2(2) by (rule refl)
      ultimately show ?thesis by (rule renewed_cong) (simp add: fs)
    qed
    then show ?thesis using rw w2(3,4) by blast
  qed
  then show ?thesis using v det by blast
qed

end
