(* ===== verification/Witnesses_Renewal.thy ===== *)
theory Witnesses_Renewal
  imports Witnesses_Controller Renewal_Progress
begin

text \<open>
  The theorems on what a renewal achieves, applied on a node whose apiserver certificate is due, in an
  environment whose PEM encoding and certificate authority keep their contracts.
\<close>

section \<open>An environment that keeps the contracts\<close>

text \<open>The type of a block is written with its length in front, in unary.\<close>

definition framed_encode :: "string \<Rightarrow> string \<Rightarrow> string" where
  "framed_encode ty bytes = map (\<lambda>_. CHR ''x'') ty @ CHR ''-'' # ty @ bytes"

definition framed_decode :: "string \<Rightarrow> (string \<times> string) option" where
  "framed_decode s =
     (case calm_pem_decode s of
        Some b \<Rightarrow> Some b
      | None \<Rightarrow> let n = length (takeWhile (\<lambda>c. c = CHR ''x'') s); rest = drop (Suc n) s in Some (take n rest, drop n rest))"

text \<open>The authority signs what is valid for a year from now, and nothing else.\<close>

definition yearly_create :: "nat \<Rightarrow> certificate \<Rightarrow> certificate \<Rightarrow> rsa_pub \<Rightarrow> rsa_key \<Rightarrow> goerr + string" where
  "yearly_create t template ca pub key =
     (if NotAfter template = base_time + certValidity then Inr ''yearly'' else Inl (ErrMsg ''validity''))"

definition yearly_parse :: "string \<Rightarrow> goerr + certificate" where
  "yearly_parse b = (if b = ''yearly'' then Inr (zero_certificate\<lparr>NotAfter := base_time + certValidity\<rparr>) else calm_parse_cert b)"

definition keeping :: env where
  "keeping = frozen\<lparr>env_pem_encode := framed_encode, env_pem_decode := framed_decode,
     env_create_cert := yearly_create, env_parse_cert := yearly_parse\<rparr>"

lemma framed: "framed_decode (framed_encode ty bytes) = Some (ty, bytes)"
proof -
  let ?s = "map (\<lambda>_. CHR ''x'') ty @ CHR ''-'' # ty @ bytes"
  have "calm_pem_decode ?s = None" by (cases ty) (simp_all add: calm_pem_decode_def)
  moreover have "takeWhile (\<lambda>c. c = CHR ''x'') ?s = map (\<lambda>_. CHR ''x'') ty" by (simp add: takeWhile_append)
  ultimately show ?thesis by (simp add: framed_decode_def framed_encode_def Let_def)
qed

lemma keeping_contracts: "pem_contract keeping" "x509_contract keeping" "yaml_contract keeping" "signing_works keeping"
proof -
  show "pem_contract keeping" by (simp add: pem_contract_def keeping_def framed)
  show "x509_contract keeping"
    by (simp add: x509_contract_def keeping_def yearly_create_def yearly_parse_def certValidity_def base_time_def ns_second_def
        ns_hour_def ns_minute_def)
  have "calm_yaml ''yaml'' = Inr (JObj [(''users'', JArr [JObj [(''user'', JObj [(''client-certificate-data'', JStr (base64_encode ''yaml''))])]])])"
    by (simp add: calm_yaml_def)
  then show "yaml_contract keeping" by (simp add: yaml_contract_def manifest_ok_def keeping_def frozen_def calm_def)
  show "signing_works keeping" by (simp add: signing_works_def keeping_def frozen_def calm_def yearly_create_def)
qed

lemma keeping_frozen: "\<forall>t. env_now keeping t = base_time" "no_faults keeping"
  by (simp_all add: keeping_def frozen_def calm_def no_faults_def)

lemma keeping_cooperates: "cooperative keeping"
proof -
  have "answering keeping" using calm_answering(2) by (simp add: answering_def merge_contract_def alone_def fresh_reads_def keeping_def)
  moreover have "all_answer keeping" by (simp add: all_answer_def keeping_def frozen_def calm_def)
  ultimately show ?thesis using keeping_contracts keeping_frozen(2) by (simp add: cooperative_def)
qed

section \<open>A node with one certificate due\<close>

definition renew_spec :: config_spec where
  "renew_spec = node_spec\<lparr>BackupDir := ''/b'', PKIDir := ''/p'', KubeconfigDir := ''/k'', ManifestsDir := ''/m''\<rparr>"

definition renew_files :: "(string list \<times> string) list" where
  "renew_files = ([''p'', ''apiserver.crt''], expiring_cert) #
     map (\<lambda>f. ([''p''] @ f, valid_cert)) [[''apiserver-etcd-client.crt''], [''apiserver-kubelet-client.crt''],
       [''front-proxy-client.crt''], [''etcd'', ''server.crt''], [''etcd'', ''peer.crt''], [''etcd'', ''healthcheck-client.crt'']] @
     map (\<lambda>f. ([''k'', f], valid_cert)) [''admin.conf'', ''controller-manager.conf'', ''scheduler.conf'', ''super-admin.conf''] @
     map (\<lambda>f. ([''etc'', ''kubernetes'', ''pki'', f], valid_cert)) [''ca.crt'', ''ca.key''] @
     map (\<lambda>f. ([''m'', f], ''pod'')) [''etcd.yaml'', ''kube-apiserver.yaml'', ''kube-controller-manager.yaml'', ''kube-scheduler.yaml'']"

definition renew_nodes :: "(fpath \<times> fnode) list" where
  "renew_nodes = map (\<lambda>d. ((True, d), Dir 493)) [[''p''], [''p'', ''etcd''], [''b''], [''k''], [''m'']] @
     map (\<lambda>(f, c). ((True, f), Reg c 384)) renew_files"

definition renew_cfg :: cert_rotation_config where
  "renew_cfg = node_cfg\<lparr>config_Spec := renew_spec\<rparr>"

definition renew_world :: world where
  "renew_world = blank_world\<lparr>w_fs := fmap_of_list renew_nodes, w_cfg := renew_cfg, w_server := Some renew_cfg\<rparr>"

abbreviation renew_backup :: string where
  "renew_backup \<equiv> ''/b/n/2023-11-14T22-13-20Z''"

lemma renew_backup_path: "filepath_Join [BackupDir renew_spec, ''n'', backup_stamp (env_now keeping t)] = renew_backup"
  using backup_dir_eq keeping_frozen(1) by (simp add: backup_dir_def renew_spec_def)

text \<open>Nothing the renewal needs lies below \<^verbatim>\<open>/b\<close>, and everything of the backup does.\<close>

lemma backup_heads: "p \<in> backup_paths renew_backup \<Longrightarrow> hd (snd p) = ''b'' \<and> 2 < length (snd p)"
proof -
  have "resolve renew_backup = (True, [''b'', ''n'', ''2023-11-14T22-13-20Z''])" by code_simp
  then show "p \<in> backup_paths renew_backup \<Longrightarrow> hd (snd p) = ''b'' \<and> 2 < length (snd p)"
    by (auto simp: backup_paths_def pki_copy_def kube_copy_def below_def)
qed

lemma hd_above: "q \<in> dirs_above p \<Longrightarrow> hd (snd q) = hd (snd p)"
  by (auto simp: in_above_iff hd_take)

lemma backup_beside: "hd (snd p) \<noteq> ''b'' \<Longrightarrow> beside (backup_paths renew_backup) p"
  unfolding beside_def
proof (intro ballI)
  fix q assume h: "hd (snd p) \<noteq> ''b''" and q: "q \<in> backup_paths renew_backup"
  have "hd (snd p) \<noteq> hd (snd q)" using h backup_heads [OF q] by simp
  then show "p \<noteq> q \<and> p \<notin> dirs_above q \<and> q \<notin> dirs_above p" using hd_above [of p q] hd_above [of q p] by auto
qed

lemma backup_writable: "\<forall>p\<in>backup_paths renew_backup. writable (w_fs renew_world) p"
proof
  fix p assume p: "p \<in> backup_paths renew_backup"
  have L: "list_all (\<lambda>(q, n). hd (snd q) = ''b'' \<longrightarrow> q = (True, [''b'']) \<and> is_dir (Some n)) renew_nodes" by code_simp
  have get: "fs_get (w_fs renew_world) q = map_of renew_nodes q" if "snd q \<noteq> []" for q
    using that by (simp add: fs_get_def renew_world_def fmlookup_of_list)
  have b: "map_of renew_nodes q = Some n \<Longrightarrow> hd (snd q) = ''b'' \<Longrightarrow> q = (True, [''b'']) \<and> is_dir (Some n)" for q n
  proof -
    assume m: "map_of renew_nodes q = Some n" and h: "hd (snd q) = ''b''"
    from L [unfolded list_all_iff] map_of_SomeD [OF m] have "case (q, n) of (q, n) \<Rightarrow> hd (snd q) = ''b'' \<longrightarrow> q = (True, [''b'']) \<and> is_dir (Some n)"
      by (rule bspec)
    then show "q = (True, [''b'']) \<and> is_dir (Some n)" using h by simp
  qed
  have "\<not> is_dir (fs_get (w_fs renew_world) p)"
  proof
    assume "is_dir (fs_get (w_fs renew_world) p)"
    moreover have "snd p \<noteq> []" using backup_heads [OF p] by auto
    ultimately obtain n where "map_of renew_nodes p = Some n" using get [of p] by (auto simp: is_dir_iff)
    from b [OF this] backup_heads [OF p] have "snd p = [''b'']" by simp
    then show False using backup_heads [OF p] by simp
  qed
  moreover have "\<not> is_reg (fs_get (w_fs renew_world) q)" if q: "q \<in> dirs_above p" for q
  proof
    assume r: "is_reg (fs_get (w_fs renew_world) q)"
    then have "snd q \<noteq> []" by auto
    with r obtain d m where n: "map_of renew_nodes q = Some (Reg d m)" using get [of q] by (auto simp: is_reg_iff)
    from b [OF n] hd_above [OF q] backup_heads [OF p] show False by simp
  qed
  ultimately show "writable (w_fs renew_world) p" by (simp add: writable_def)
qed

lemma source_heads: "p \<in> source_paths (spec_backup_manager renew_spec) \<Longrightarrow> hd (snd p) = ''p'' \<or> hd (snd p) = ''k''"
proof -
  have "resolve ''/p'' = (True, [''p''])" "resolve ''/k'' = (True, [''k''])" by code_simp+
  then show "p \<in> source_paths (spec_backup_manager renew_spec) \<Longrightarrow> hd (snd p) = ''p'' \<or> hd (snd p) = ''k''"
    by (auto simp: source_paths_def spec_backup_manager_def backup_New_def renew_spec_def node_spec_def pki_path_def below_def)
qed

lemma ca_heads: "hd (snd (resolve (fst (CAForCert n)))) = ''etc''" "hd (snd (resolve (snd (CAForCert n)))) = ''etc''"
  by (simp_all add: CAForCert_def resolve_def path_step_def is_rooted_def)

lemma renew_backup_ready: "backup_ready (spec_backup_manager renew_spec) renew_backup (w_fs renew_world)"
proof -
  have "\<forall>p\<in>source_paths (spec_backup_manager renew_spec). writable (w_fs renew_world) p" by code_simp
  moreover have "beside (backup_paths renew_backup) p" if "p \<in> source_paths (spec_backup_manager renew_spec)" for p
    using source_heads [OF that] by (intro backup_beside) auto
  ultimately show ?thesis using backup_writable by (simp add: backup_ready_def)
qed

lemma renew_manifests: "manifests_ready keeping (ManifestsDir renew_spec) (w_fs renew_world)"
  by code_simp

text \<open>The apiserver's certificate is due and can be renewed; the others are fine.\<close>

definition as_planned :: "(string \<times> string) \<times> cert_info list option \<Rightarrow> bool" where
  "as_planned = (\<lambda>((name, rel), report). case report of
     Some [c] \<Rightarrow> ci_Name c = name \<and> (if name = ''apiserver'' then ci_Status c \<noteq> StatusOK \<and> renewable keeping renew_spec (w_fs renew_world) c
       else ci_Status c = StatusOK)
   | _ \<Rightarrow> False)"

lemma renew_pki: "list_all (\<lambda>x. as_planned (x, pki_report keeping (detector_of renew_spec) (w_fs renew_world) base_time x)) certFiles"
  by code_simp

lemma renew_kube: "list_all (\<lambda>x. as_planned (x, kubeconfig_report keeping (detector_of renew_spec) (w_fs renew_world) base_time x)) kubeconfigCerts"
  by code_simp

abbreviation renew_reports :: "cert_info list option list" where
  "renew_reports \<equiv> expected_reports keeping (detector_of renew_spec) (w_fs renew_world) base_time"

lemma renew_report: "r \<in> set renew_reports \<Longrightarrow> \<exists>x. as_planned (x, r)"
  using renew_pki renew_kube unfolding expected_reports_def list_all_iff by auto

lemma as_plannedD: "as_planned (x, r) \<Longrightarrow> \<exists>c. r = Some [c] \<and> (ci_Status c \<noteq> StatusOK \<longrightarrow> renewable keeping renew_spec (w_fs renew_world) c)"
  by (auto simp: as_planned_def split: prod.splits option.splits list.splits if_splits)

lemma none_missing: "None \<notin> set renew_reports"
  using renew_report as_plannedD by blast

lemma reported_renewable:
  assumes "c \<in> set (concat (map the renew_reports))" and "ci_Status c \<noteq> StatusOK"
  shows "renewable keeping renew_spec (w_fs renew_world) c"
proof -
  from assms(1) obtain r where r: "r \<in> set renew_reports" "c \<in> set (the r)" unfolding set_concat set_map by blast
  obtain x where "as_planned (x, r)" using renew_report [OF r(1)] by blast
  from as_plannedD [OF this] r(2) assms(2) show ?thesis by auto
qed

lemma apiserver_due: "\<exists>c\<in>set (concat (map the renew_reports)). ci_Name c = ''apiserver'' \<and> ci_Status c \<noteq> StatusOK"
proof -
  let ?r = "pki_report keeping (detector_of renew_spec) (w_fs renew_world) base_time (''apiserver'', ''apiserver.crt'')"
  have m: "(''apiserver'', ''apiserver.crt'') \<in> set certFiles" by (simp add: certFiles_def)
  then have "as_planned ((''apiserver'', ''apiserver.crt''), ?r)" using renew_pki unfolding list_all_iff by blast
  then obtain c where c: "?r = Some [c]" "ci_Name c = ''apiserver''" "ci_Status c \<noteq> StatusOK"
    by (auto simp: as_planned_def split: option.splits list.splits)
  have "Some [c] \<in> set renew_reports" using m c(1) unfolding expected_reports_def by force
  then show ?thesis using c(2,3) by force
qed

lemma renew_detects:
  assumes "w_fs v = w_fs renew_world"
  shows "\<exists>det v'. Detect keeping (detector_of renew_spec) ''n'' v = (Ok det, v') \<and> NeedsRenewal det \<and>
    node_ready keeping renew_spec renew_backup (w_fs renew_world) (dr_Certs det) \<and>
    (\<exists>c\<in>set (dr_Certs det). ci_Name c = ''apiserver'' \<and> ci_Status c \<noteq> StatusOK)"
proof -
  from Detect_run [OF keeping_frozen(2,1), of v "detector_of renew_spec" "''n''"] none_missing obtain det v' where
    d: "Detect keeping (detector_of renew_spec) ''n'' v = (Ok det, v')" "mset (dr_Certs det) = mset (concat (map the renew_reports))"
    unfolding assms by auto
  note set = mset_eq_setD [OF d(2)]
  have c: "\<exists>c\<in>set (dr_Certs det). ci_Name c = ''apiserver'' \<and> ci_Status c \<noteq> StatusOK" unfolding set by (rule apiserver_due)
  then have "NeedsRenewal det" by (auto simp: NeedsRenewal_def)
  moreover have "resolve (fst (CAForCert n)) \<notin> backup_paths renew_backup \<and> resolve (snd (CAForCert n)) \<notin> backup_paths renew_backup" for n
    using backup_heads ca_heads by fastforce
  then have "node_ready keeping renew_spec renew_backup (w_fs renew_world) (dr_Certs det)"
    using renew_backup_ready renew_manifests reported_renewable unfolding set node_ready_def by blast
  ultimately show ?thesis using d(1) c by blast
qed

theorem Reconcile_renews_witness:
  "\<exists>r w' c srv ns. Reconcile keeping ''n'' renew_world = (r, w') \<and> r = Ok \<lparr>RequeueAfter = requeueWithJitter ''n'' renew_spec\<rparr> \<and>
     ci_Name c = ''apiserver'' \<and> renewed keeping renew_spec c renew_world w' \<and>
     w_server w' = Some srv \<and> own ''n'' srv = Some ns \<and> node_Phase ns = NodePhaseIdle \<and> node_LastRenewedAt ns \<noteq> None"
proof -
  obtain r w' where run: "Reconcile keeping ''n'' renew_world = (r, w')" by fastforce
  have cfg: "w_server renew_world = Some renew_cfg" "\<not> is_critical_node ''n'' renew_cfg" "config_Spec renew_cfg = renew_spec" "\<not> DryRun renew_spec"
    by (simp_all add: renew_world_def renew_cfg_def is_critical_node_def node_cfg_def renew_spec_def node_spec_def)
  from Reconcile_renews [OF keeping_cooperates cfg(1,2) _ run] obtain v q v' where v: "w_fs v = w_fs renew_world"
    "Detect keeping (detector_of renew_spec) ''n'' v = (q, v')"
    and res: "\<And>det. q = Ok det \<Longrightarrow> NeedsRenewal det \<Longrightarrow> node_ready keeping renew_spec renew_backup (w_fs renew_world) (dr_Certs det) \<Longrightarrow>
      r = Ok \<lparr>RequeueAfter = requeueWithJitter ''n'' renew_spec\<rparr> \<and>
      (\<forall>c\<in>set (dr_Certs det). ci_Status c \<noteq> StatusOK \<longrightarrow> renewed keeping renew_spec c renew_world w') \<and>
      (\<exists>srv t p t'. w_server w' = Some srv \<and> own ''n'' srv = Some ((entry_of ''n'' renew_cfg)\<lparr>node_Certs := toCertStatuses det,
        node_LastCheckedAt := Some t, node_Node := ''n'', node_BackupPath := p, node_Phase := NodePhaseIdle, node_LastRenewedAt := Some t',
        node_FailureReason := ''''\<rparr>))"
    unfolding cfg(3) renew_backup_path using cfg(4) by blast
  from renew_detects [OF v(1)] v(2) obtain det c where "q = Ok det" "NeedsRenewal det"
    "node_ready keeping renew_spec renew_backup (w_fs renew_world) (dr_Certs det)"
    "c \<in> set (dr_Certs det)" "ci_Name c = ''apiserver''" "ci_Status c \<noteq> StatusOK" by auto
  with res [of det] run show ?thesis by fastforce
qed

section \<open>The detection after the renewal\<close>

lemma renew_untouched: "(True, ''k'' # cs) \<notin> reconcile_files ''n'' renew_spec"
proof -
  have T: "hd (snd (pki_path ''/p'' r)) = ''p''" for r
  proof -
    have "resolve ''/p'' = (True, [''p''])" by code_simp
    then show ?thesis by (simp add: pki_path_def below_def)
  qed
  have 1: "resolve (filepath_Join [PKIDir renew_spec, c]) \<noteq> (True, ''k'' # cs)" "resolve (filepath_Join [PKIDir renew_spec, k]) \<noteq> (True, ''k'' # cs)"
    if "(name, c, k) \<in> set CertPaths" for name c k
  proof -
    have "plain_rel c" "plain_rel k" using CertPaths_plain that by fastforce+
    then show "resolve (filepath_Join [PKIDir renew_spec, c]) \<noteq> (True, ''k'' # cs)" "resolve (filepath_Join [PKIDir renew_spec, k]) \<noteq> (True, ''k'' # cs)"
      using T [of c] T [of k] by (auto simp: resolve_pki renew_spec_def)
  qed
  have "plain ''n''" by (simp add: plain_def)
  moreover have "resolve (BackupDir renew_spec) = (True, [''b''])" by code_simp
  ultimately have 2: "(True, ''k'' # cs) \<notin> backup_paths (filepath_Join [BackupDir renew_spec, ''n'', backup_stamp t])" for t
    by (auto simp: backup_paths_def pki_copy_def kube_copy_def below_stamp) (auto simp: below_def)
  have "\<forall>p\<in>manifest_files (podrestart_New (ManifestsDir renew_spec) False). hd (snd p) = ''m''" by code_simp
  then have 3: "(True, ''k'' # cs) \<notin> manifest_files (podrestart_New (ManifestsDir renew_spec) False)" by force
  show ?thesis using 1 2 3 by (fastforce simp: reconcile_files_def)
qed

lemma reports_stay:
  assumes "None \<notin> set (expected_reports E d fs now)"
    and "\<And>n rel. (n, rel) \<in> set certFiles \<Longrightarrow> readable E fs (resolve (filepath_Join [pkiDir d, rel])) \<Longrightarrow>
      readable E fs' (resolve (filepath_Join [pkiDir d, rel]))"
    and "\<And>n f. (n, f) \<in> set kubeconfigCerts \<Longrightarrow> \<exists>data md. fs_get fs (resolve (filepath_Join [kubeconfigDir d, f])) = Some (Reg data md) \<and>
      fs_get fs' (resolve (filepath_Join [kubeconfigDir d, f])) = Some (Reg data md)"
  shows "None \<notin> set (expected_reports E d fs' now)"
proof -
  have pki: "pki_report E d f now (n, rel) \<noteq> None \<longleftrightarrow> readable E f (resolve (filepath_Join [pkiDir d, rel]))" for f n rel
    by (auto simp: pki_report_def readable_def Let_def split: option.splits fnode.splits sum.splits)
  have "pki_report E d fs' now x \<noteq> None" if "x \<in> set certFiles" for x
  proof -
    have "pki_report E d fs now x \<noteq> None" using assms(1) that unfolding expected_reports_def by force
    then show ?thesis using assms(2) that pki by (cases x) blast
  qed
  moreover have "kubeconfig_report E d fs' now x \<noteq> None" if "x \<in> set kubeconfigCerts" for x
  proof -
    have "kubeconfig_report E d fs now x \<noteq> None" using assms(1) that unfolding expected_reports_def by force
    moreover obtain n f where "x = (n, f)" by (cases x)
    ultimately show ?thesis using assms(3) [of n f] that by (auto simp: kubeconfig_report_def Let_def)
  qed
  ultimately show ?thesis unfolding expected_reports_def set_append set_map by (metis Un_iff imageE)
qed

lemma certFiles_placed: "(n, rel) \<in> set certFiles \<Longrightarrow> \<exists>kp. (n, rel, kp) \<in> set CertPaths"
proof -
  have "list_all (\<lambda>(n, rel). list_ex (\<lambda>(m, cp, kp). m = n \<and> cp = rel) CertPaths) certFiles" by code_simp
  then show "(n, rel) \<in> set certFiles \<Longrightarrow> \<exists>kp. (n, rel, kp) \<in> set CertPaths" unfolding list_all_iff list_ex_iff by blast
qed

text \<open>After the renewal the detection still succeeds, and reports on the apiserver's certificate.\<close>

abbreviation renew_detector :: detector where
  "renew_detector \<equiv> detector_New (PKIDir renew_spec) (KubeconfigDir renew_spec) (ThresholdDays renew_spec)"

lemma reports_after:
  assumes kept: "readable_kept_in keeping (PKIDir renew_spec) renew_world w'" and t: "touches (reconcile_files ''n'' renew_spec) renew_world w'"
  shows "None \<notin> set (expected_reports keeping renew_detector (w_fs w') base_time)"
proof (rule reports_stay [OF none_missing [unfolded detector_of_def]])
  fix n rel assume "(n, rel) \<in> set certFiles" and r: "readable keeping (w_fs renew_world) (resolve (filepath_Join [pkiDir renew_detector, rel]))"
  then obtain kp where ck: "(n, rel, kp) \<in> set CertPaths" using certFiles_placed by blast
  have p: "resolve (filepath_Join [pkiDir renew_detector, rel]) = pki_path (PKIDir renew_spec) rel"
    using CertPaths_plain [OF ck] by (simp add: detector_New_def resolve_pki)
  from kept ck r show "readable keeping (w_fs w') (resolve (filepath_Join [pkiDir renew_detector, rel]))" unfolding p readable_kept_in_def by blast
next
  fix n f assume "(n, f) \<in> set kubeconfigCerts"
  then have "f \<in> {''admin.conf'', ''controller-manager.conf'', ''scheduler.conf'', ''super-admin.conf''}" by (auto simp: kubeconfigCerts_def)
  moreover have "\<forall>f\<in>{''admin.conf'', ''controller-manager.conf'', ''scheduler.conf'', ''super-admin.conf''}.
      resolve (filepath_Join [kubeconfigDir renew_detector, f]) = (True, [''k'', f]) \<and> fs_get (w_fs renew_world) (True, [''k'', f]) = Some (Reg ''Pd'' 384)"
    by code_simp
  ultimately show "\<exists>data md. fs_get (w_fs renew_world) (resolve (filepath_Join [kubeconfigDir renew_detector, f])) = Some (Reg data md) \<and>
      fs_get (w_fs w') (resolve (filepath_Join [kubeconfigDir renew_detector, f])) = Some (Reg data md)"
    using touches_keeps [OF t renew_untouched] by fastforce
qed

lemma detects_after:
  assumes "readable_kept_in keeping (PKIDir renew_spec) renew_world w'" and "touches (reconcile_files ''n'' renew_spec) renew_world w'"
  shows "\<exists>det' v' c. Detect keeping renew_detector ''n'' w' = (Ok det', v') \<and> c \<in> set (dr_Certs det') \<and> ci_Name c = ''apiserver''"
proof -
  let ?rs = "expected_reports keeping renew_detector (w_fs w') base_time"
    and ?r = "pki_report keeping renew_detector (w_fs w') base_time (''apiserver'', ''apiserver.crt'')"
  note none = reports_after [OF assms]
  from none Detect_run [OF keeping_frozen(2,1), of w' renew_detector "''n''"] obtain det' v' where det': "Detect keeping renew_detector ''n'' w' = (Ok det', v')"
    and m: "mset (dr_Certs det') = mset (concat (map the ?rs))" by auto
  have at: "?r \<in> set ?rs" by (simp add: expected_reports_def certFiles_def)
  with none obtain c where c: "?r = Some [c]" "ci_Name c = ''apiserver''"
    by (auto simp: pki_report_def Let_def split: option.splits fnode.splits sum.splits)
  have "Some [c] \<in> set ?rs" using at c(1) by simp
  then have "c \<in> set (concat (map the ?rs))" by force
  then show ?thesis using mset_eq_setD [OF m] det' c(2) by blast
qed

theorem renewal_ends_need_witness:
  "\<exists>det w1 w' det' v' c. Detect keeping renew_detector ''n'' renew_world = (Ok det, w1) \<and>
     runRenewal keeping ''n'' renew_spec det renew_world = (Ok (), w') \<and> Detect keeping renew_detector ''n'' w' = (Ok det', v') \<and>
     c \<in> set (dr_Certs det') \<and> ci_Name c = ''apiserver'' \<and> ci_Status c = StatusOK"
proof -
  obtain det w1 c0 where det: "Detect keeping renew_detector ''n'' renew_world = (Ok det, w1)"
    and ready: "node_ready keeping renew_spec renew_backup (w_fs renew_world) (dr_Certs det)"
    and c0: "c0 \<in> set (dr_Certs det)" "ci_Name c0 = ''apiserver''" "ci_Status c0 \<noteq> StatusOK"
    using renew_detects [OF refl] unfolding detector_of_def by blast
  have sync: "synced ''n'' renew_world" by (simp add: synced_def renew_world_def)
  have spec: "\<not> DryRun renew_spec" "0 \<le> ThresholdDays renew_spec" "ThresholdDays renew_spec \<le> 63" by (simp_all add: renew_spec_def node_spec_def)
  from runRenewal_live [OF keeping_cooperates sync, of renew_spec det, unfolded renew_backup_path, OF ready] spec(1)
  obtain w' where run: "runRenewal keeping ''n'' renew_spec det renew_world = (Ok (), w')"
    and kept: "readable_kept_in keeping (PKIDir renew_spec) renew_world w'" by blast
  have t: "touches (reconcile_files ''n'' renew_spec) renew_world w'"
    by (rule keepsD [OF reconcile_frame.keeps_runRenewal [OF touches_frame] run])
  obtain det' v' c where det': "Detect keeping renew_detector ''n'' w' = (Ok det', v')" and c: "c \<in> set (dr_Certs det')" "ci_Name c = ''apiserver''"
    using detects_after [OF kept t] by blast
  have sep: "separate (spec_backup_manager renew_spec) (filepath_Join [BackupDir renew_spec, ''n'', backup_stamp (env_now keeping (w_tick renew_world))])"
    unfolding renew_backup_path using ready by (auto simp: node_ready_def backup_ready_def beside_def separate_def)
  have clock: "\<forall>t t'. env_now keeping t' \<le> env_now keeping t + 300 * ns_day" using keeping_frozen(1) by (simp add: ns_day_def)
  have "ci_Name c = ci_Name c0" using c(2) c0(2) by simp
  from renewal_ends_need [OF det run spec(1) det' refl sep spec(2,3) clock keeping_contracts(1,2) c0(1,3) c(1) this]
  show ?thesis using det run det' c by blast
qed

end
