(* ===== verification/Cluster.thy ===== *)
theory Cluster
  imports Reconcile_Outcomes Reconcile_Phases
begin

text \<open>
  The cluster: one operator per control plane node, each on its own files, all on one custom resource.
  The reconciliations of the nodes take turns in any order.
\<close>

section \<open>Turns\<close>

record cluster =
  cl_server :: "cert_rotation_config option"
  cl_nodes :: "string \<Rightarrow> world"

text \<open>
  One reconciliation on one node, on the object the API server holds; whatever its outcome (an operator
  that panicked is started again, and fetches the object again), its effects stay.
\<close>

definition turn :: "env \<Rightarrow> string \<Rightarrow> cluster \<Rightarrow> cluster" where
  "turn E me cl =
     (let w = snd (Reconcile E me ((cl_nodes cl me)\<lparr>w_server := cl_server cl\<rparr>)) in
      cl\<lparr>cl_server := w_server w, cl_nodes := (cl_nodes cl)(me := w)\<rparr>)"

text \<open>A history: who took a turn, and in which environment.\<close>

fun run_history :: "(env \<times> string) list \<Rightarrow> cluster \<Rightarrow> cluster" where
  "run_history [] cl = cl"
| "run_history ((E, me) # h) cl = run_history h (turn E me cl)"

definition orderly :: "(env \<times> string) list \<Rightarrow> bool" where
  "orderly h \<longleftrightarrow> (\<forall>(E, me)\<in>set h. merge_contract E \<and> alone E \<and> fresh_reads E)"

section \<open>Entries and files over a history\<close>

text \<open>Between two states the node has kept its entry, its files and the specification.\<close>

definition node_kept :: "string \<Rightarrow> cluster \<Rightarrow> cluster \<Rightarrow> bool" where
  "node_kept n cl cl' \<longleftrightarrow> w_fs (cl_nodes cl' n) = w_fs (cl_nodes cl n) \<and>
     (\<forall>srv. cl_server cl = Some srv \<longrightarrow> (\<exists>srv'. cl_server cl' = Some srv' \<and> own n srv' = own n srv \<and> config_Spec srv' = config_Spec srv))"

lemma node_kept_trans: "node_kept n a b \<Longrightarrow> node_kept n b c \<Longrightarrow> node_kept n a c"
  unfolding node_kept_def by (metis (no_types, lifting))

lemma turn_other:
  assumes "merge_contract E" and "alone E" and "n \<noteq> me"
  shows "node_kept n cl (turn E me cl)"
proof -
  let ?w = "(cl_nodes cl me)\<lparr>w_server := cl_server cl\<rparr>"
  from confined.keeps_Reconcile [OF confined_others [OF assms(1,2), of me]]
  have "others_kept me ?w (snd (Reconcile E me ?w))" by (simp add: keeps_def)
  then show ?thesis using assms(3) by (auto simp: node_kept_def turn_def others_kept_def own_def Let_def)
qed

text \<open>A critical node's own reconciliation reads the object, and gives up whether the read fails or not.\<close>

lemma critical_turn:
  assumes "alone E" and "fresh_reads E" and "cl_server cl = Some srv" and "is_critical_node n srv"
  shows "node_kept n cl (turn E n cl)"
proof -
  let ?w = "(cl_nodes cl n)\<lparr>w_server := cl_server cl\<rparr>"
  have "w_fs (snd (Reconcile E n ?w)) = w_fs ?w \<and> w_server (snd (Reconcile E n ?w)) = cl_server cl"
    using assms
    by (simp add: Reconcile_def seqE_run client_Get_run alone_def fresh_reads_def reconcile_fetched_def requeue_def put_cfg_def Let_def split: option.split)
  then show ?thesis by (simp add: node_kept_def turn_def Let_def)
qed

text \<open>
  C5. A critical node waits for a human. Over any history of reconciliations of any nodes, its own among
  them, on any outcomes, and with the API server failing at will (the object read is the server's current one): a node whose phase is critical keeps
  its entry (its phase, its reason, the path of its backup) and all its files, and the specification
  stays; the same holds of a node that had no turn.
\<close>

theorem critical_stays:
  assumes "orderly h" and "cl_server cl = Some srv" and "is_critical_node n srv \<or> n \<notin> snd ` set h"
  shows "\<exists>srv'. cl_server (run_history h cl) = Some srv' \<and> own n srv' = own n srv \<and> config_Spec srv' = config_Spec srv \<and>
    w_fs (cl_nodes (run_history h cl) n) = w_fs (cl_nodes cl n)"
proof -
  have "node_kept n cl (run_history h cl)"
    using assms
  proof (induction h arbitrary: cl srv)
    case (Cons a h)
    obtain E me where a: "a = (E, me)" by (cases a)
    have E: "merge_contract E" "alone E" "orderly h" "fresh_reads E" using Cons.prems(1) by (auto simp: orderly_def a)
    have one: "node_kept n cl (turn E me cl)"
    proof (cases "n = me")
      case True
      with Cons.prems(3) have "is_critical_node n srv" by (simp add: a)
      with critical_turn [OF E(2,4) Cons.prems(2)] True show ?thesis by simp
    qed (rule turn_other [OF E(1,2)])
    then obtain srv' where srv': "cl_server (turn E me cl) = Some srv'" "own n srv' = own n srv"
      using Cons.prems(2) by (auto simp: node_kept_def)
    then have "is_critical_node n srv' \<or> n \<notin> snd ` set h"
      using Cons.prems(3) by (auto simp: is_critical_node_def own_def)
    from node_kept_trans [OF one Cons.IH [OF E(3) srv'(1) this]] show ?case by (simp add: a)
  qed (simp add: node_kept_def)
  then show ?thesis using assms(2) by (auto simp: node_kept_def)
qed

end
