(* ===== verification/Witnesses_Cluster.thy ===== *)
theory Witnesses_Cluster
  imports Witnesses_Controller Cluster
begin

text \<open>The theorem on the cluster, applied to two nodes of which one is critical.\<close>

definition two_nodes :: cluster where
  "two_nodes = \<lparr>cl_server = Some (with_node ''n'' NodePhaseCritical), cl_nodes = (\<lambda>_. node_world)\<rparr>"

definition some_turns :: "(env \<times> string) list" where
  "some_turns = [(calm, ''n''), (hiccup, ''m''), (frozen, ''m''), (hiccup, ''n'')]"

theorem critical_stays_witness:
  "\<exists>srv. cl_server (run_history some_turns two_nodes) = Some srv \<and> phase_in ''n'' (config_Status srv) = NodePhaseCritical \<and>
     w_fs (cl_nodes (run_history some_turns two_nodes) ''n'') = node_fs"
proof -
  have "merge_contract hiccup" "alone hiccup" "fresh_reads hiccup"
    using calm_merges(1) calm_alone(1) calm_fresh(1) by (simp_all add: hiccup_def merge_contract_def alone_def fresh_reads_def)
  then have o: "orderly some_turns" using calm_merges calm_alone calm_fresh by (simp add: orderly_def some_turns_def)
  have s: "cl_server two_nodes = Some (with_node ''n'' NodePhaseCritical)" "w_fs (cl_nodes two_nodes ''n'') = node_fs"
    by (simp_all add: two_nodes_def node_world_def)
  have e: "own ''n'' (with_node ''n'' NodePhaseCritical) = Some ((fresh_node ''n'')\<lparr>node_Phase := NodePhaseCritical\<rparr>)"
    by (simp add: own_def with_node_def fmlookup_of_list)
  then have "is_critical_node ''n'' (with_node ''n'' NodePhaseCritical)" by (simp add: is_critical_node_def own_def)
  from critical_stays [OF o s(1) disjI1 [OF this]] e s(2) show ?thesis by (auto simp: phase_in_def own_def)
qed

end
