(* ===== verification/Spec2Isabelle.thy ===== *)
theory Spec2Isabelle
  imports Witnesses_Files Witnesses_Certs Witnesses_Pods Witnesses_State Witnesses_Controller
    Witnesses_Kubeconfig Witnesses_Config Witnesses_Deep_Copy Witnesses_Renewal Witnesses_Cluster Start_Up
begin

text \<open>
  A model of cert-rotator, the operator that renews the certificates of Kubernetes control plane
  nodes, and the theorems that make its parts correct or show where they are not.

  \<^bold>\<open>The program.\<close> One pod per node (\<^verbatim>\<open>cmd/main.go\<close>) runs a reconciler
  (\<^verbatim>\<open>internal/controller/certrotationconfig_controller.go\<close>) of the custom resource in \<^verbatim>\<open>api/v1alpha1\<close>. A
  reconciliation detects the certificates on disk (\<^verbatim>\<open>pkg/detector\<close>), and when one is due saves the files
  (\<^verbatim>\<open>pkg/backup\<close>), makes and signs new pairs (\<^verbatim>\<open>pkg/generator\<close>, \<^verbatim>\<open>pkg/signer\<close>), writes them (\<^verbatim>\<open>pkg/writer\<close>),
  restarts the static pods (\<^verbatim>\<open>pkg/podrestart\<close>) and probes the node (\<^verbatim>\<open>pkg/healthcheck\<close>); on a failure it
  rolls back (\<^verbatim>\<open>pkg/rollback\<close>, which records its work through \<^verbatim>\<open>state\<close>) and notifies people
  (\<^verbatim>\<open>pkg/notifier\<close>). The phases and conditions of the status are patched through the API along the way.
  \<^verbatim>\<open>pkg/kubeconfig\<close> and \<^verbatim>\<open>config\<close> are never called.

  \<^bold>\<open>Calls.\<close> A Go function with effects is a run: a function from the world to an outcome (a value, an
  error or a panic) and the next world (\<open>Go_Prelude\<close>). \<open>seqE\<close>, \<open>bindE\<close>, \<open>wrapE\<close> and \<open>catchE\<close> are what
  \<^verbatim>\<open>if err != nil\<close> writes; \<open>for_each\<close> and \<open>fold_go\<close> are the loops with an early return; a loop over a map
  goes through \<open>map_range\<close>, in an order that the environment picks. An error keeps what it wraps, as
  \<^verbatim>\<open>os.IsNotExist\<close> looks at it.

  \<^bold>\<open>The world and its environment\<close> (\<open>World\<close>). The world holds the files of the node with their permission
  bits, the trace of what was done to the outside, the reconciler's copy of the custom resource and the
  one of the API server. The environment \<open>env\<close> decides, by the current tick, what the clock says, which
  system call or API call fails (and how much of a failing write is on disk), what the probes, the mail
  server and the webhook answer, how many ticks a sleep takes, what other writers do to the custom resource,
  and what the manager's cache holds of it when it is read; so a theorem for all
  environments holds for every behaviour of them. What is not under \<^verbatim>\<open>src/\<close> is a field of \<open>env\<close> too: RSA,
  X.509 and PEM, the YAML library, the merge of a patch and the update of a condition. Theorems that rely
  on one of these name what they rely on as a hypothesis, in the documented form of the library, and
  their witness instantiates it.

  \<^bold>\<open>The standard library\<close> is defined as far as the program uses it: \<open>Go_Path\<close> (\<^verbatim>\<open>path/filepath\<close>),
  \<open>Go_Float\<close> (the double-precision arithmetic of \<^verbatim>\<open>Duration.Hours\<close>), \<open>Go_Time\<close> and \<open>Go_Time_Text\<close>
  (\<^verbatim>\<open>time\<close>: dates, formats, reading), \<open>Go_Json\<close>, \<open>Go_Json_Text\<close> and \<open>Go_Json_Struct\<close> (\<^verbatim>\<open>encoding/json\<close>:
  values, text, decoding into structs), \<open>Go_Base64\<close> (\<^verbatim>\<open>encoding/base64\<close>), \<open>Go_Flag\<close> (\<^verbatim>\<open>flag\<close>: the
  command line), \<open>X509\<close> (the data of \<^verbatim>\<open>crypto/x509\<close>), with the round trips of the three text forms. \<open>World_Lemmas\<close> has the facts on the file
  system, and \<open>Returns\<close> what never panics.

  \<^bold>\<open>The components\<close>, one theory each, with the names of the Go functions (with the package in front where
  two agree):
  \<^item> \<open>Api_Types\<close>: the custom resource.
  \<^item> \<open>Writer\<close>: certificate files; what a write stores, with which permission bits, and \<^verbatim>\<open>Verify\<close>.
  \<^item> \<open>Backup\<close>: \<^verbatim>\<open>Create\<close>, \<^verbatim>\<open>Restore\<close>, \<^verbatim>\<open>Cleanup\<close>; the round trip, the frame of a restore on every outcome,
    later backups that leave earlier ones alone, and the exact effect of a cleanup.
  \<^item> \<open>Detector\<close>: the reports of a detection are a function of the files and the clock (a refinement), and
    what the statuses mean on the clock, rounding included. \<open>Logger\<close>: log records and \<^verbatim>\<open>LogSummary\<close>.
  \<^item> \<open>Generator\<close> and \<open>Signer\<close>: what a template keeps and loses, and that a new pair belongs together.
  \<^item> \<open>Podrestart\<close>: the annotation, the order of the restarts, waiting. \<open>Healthcheck\<close>: probes and retries.
  \<^item> \<open>State\<close>: the record of a rotation, its JSON file (a round trip) and the critical state, which sticks.
  \<^item> \<open>Rollback\<close>: what a rollback restores and reports. \<open>Notifier\<close>: mails and webhooks.
  \<^item> \<open>Controller\<close>: the reconciler. \<open>Reconcile_Frames\<close> has the relations that every step keeps,
    \<open>Reconcile_Outcomes\<close> the files it writes and the ways it fails, \<open>Reconcile_Phases\<close> the state machine
    of the phases, an inductive step relation with assertions through the code, and \<open>Reconcile_Results\<close>
    what it leaves in the status.
  \<^item> \<open>Renewal_Effect\<close>: what a renewal that returned nil has put on the node, and that the next detection finds
    it in order. \<open>Progress\<close> and \<open>Renewal_Progress\<close>: when a backup and a renewal succeed, up to the whole
    reconciliation, which then renews every certificate that is due.
  \<^item> \<open>Cluster\<close>: the operators of all nodes on one custom resource, over any history of their reconciliations.
  \<^item> \<open>Kubeconfig\<close>: new client certificates for the kubeconfig files, and what a renewal destroys.
  \<^item> \<open>Config\<close>: environment variables. \<open>Start_Up\<close>: the group and its types (\<^verbatim>\<open>groupversion_info.go\<close>), the command
    line, the start of the operator and its exit code.
  \<^item> \<open>Deep_Copy\<close>: the generated copies, on a store of objects with addresses. Everywhere else structs are
    values; here it is shown that a copy shares nothing with its original, which is what the reconciler
    needs of the base of a patch.

  \<^bold>\<open>Interfaces.\<close> \<open>kept_relation\<close> and \<open>tick_blind\<close> carry a relation between worlds through every combinator,
  \<open>template_source\<close> is the generator as the signer sees it, \<open>deep_copy\<close> a copy that is isolated from its
  original, closed under pointers, slices and nil; the other locales state the contracts between the
  reconciler's steps. Each is interpreted on the model's own definitions.

  \<^bold>\<open>Bounds and fuel.\<close> \<^verbatim>\<open>WaitForReady\<close> polls until a deadline: its loop has fuel, \<open>None\<close> is fuel that ran out,
  and one more than the pauses of two seconds that cover the timeout is enough (\<open>clock_contract\<close>: the clock does
  not go back, and a sleep lasts at least as long as asked).
  \<^verbatim>\<open>retry_loop\<close> counts its attempts. The JSON parser's fuel is the length of the text. All other loops are
  over lists. \<^verbatim>\<open>int\<close> is \<open>int\<close>, wrapped to 64 bits with \<open>wrap64\<close> where a product or a sum can leave them; the
  status by the clock is exact for thresholds up to 63 days.

  \<^bold>\<open>Witnesses.\<close> \<open>Scenario\<close> is a node with certificates, manifests and kubeconfigs; the theories
  \<open>Witnesses_*\<close> apply each theorem that has hypotheses to it.

  \<^bold>\<open>What the theorems found.\<close> A failed renewal panics in its rollback (the state is nil); due kubeconfig
  certificates make every renewal fail; no alert is ever sent; a dry run is recorded as a renewal; a failed
  patch can lose the critical phase; a state file without nodes and an empty manifest each end in a panic;
  restoring a deleted backup succeeds; \<^verbatim>\<open>CertsHealthy\<close> blames the certificates when a
  node has failed; renewing a kubeconfig would leave a file without users.

  \<^bold>\<open>Not modelled.\<close> Log lines, but for those of the logger's own operations and \<^verbatim>\<open>LogSummary\<close>. What
  controller-runtime and client-go do when \<^verbatim>\<open>main\<close> calls them (the scheme, the manager, their own flags, the
  registration of the controller): these calls are parameters of \<open>Start_Up\<close>. Symbolic links, file times other than those that
  \<^verbatim>\<open>Stat\<close> returns, and other processes on the files of the node. Of the metadata of an object only its name.
  Concurrent reconciliations on a node: controller-runtime runs one at a time for an object; those of different
  nodes take turns in \<open>Cluster\<close> (with reads that are current, \<open>fresh_reads\<close>), and within one reconciliation what the others write is \<open>env_others\<close>.
\<close>

end
